(* ===== verification/Prelude.thy ===== *)
theory Prelude
  imports Main "HOL-Library.Word"
begin

text \<open>
  Shared vocabulary of the development.

  \<^item> Rust's unsigned integers are machine words; \<open>[u8; N]\<close> values that the program treats
    as opaque identifiers (hashes, addresses, keys, signatures) are words of \<open>8 * N\<close> bits, whose
    numerical order is the lexicographic order of the big-endian byte array.
  \<^item> \<open>checked_add\<close>, \<open>checked_sub\<close>, \<open>checked_mul\<close>, \<open>saturating_add\<close>, \<open>saturating_sub\<close>,
    \<open>saturating_mul\<close> are the standard library's integer methods.
  \<^item> A fallible function returns \<open>'e + 'a\<close>; \<open>res_bind\<close> is the \<open>?\<close> operator.
  \<^item> Byte order conversions \<open>le_bytes\<close> and \<open>be_bytes\<close>.
  \<^item> Sums over the (finite) type of addresses, used to add up balances.
\<close>

named_theorems unat_ops \<open>values of the machine integer operations as natural numbers\<close>
named_theorems key_layout \<open>runtime key functions as constructors of the key family\<close>
named_theorems slot_ops \<open>typed accessors of the runtime state\<close>

subsection \<open>Types\<close>

type_synonym u8 = "8 word"
type_synonym u16 = "16 word"
type_synonym u32 = "32 word"
type_synonym u64 = "64 word"
type_synonym u128 = "128 word"
type_synonym bytes = "u8 list"
type_synonym hash = "256 word"
type_synonym bls_public_key = "384 word"
type_synonym bls_signature = "768 word"
type_synonym ed25519_signature = "512 word"

subsection \<open>Checked and saturating arithmetic\<close>

definition checked_add :: "'a::len word \<Rightarrow> 'a word \<Rightarrow> 'a word option" where
  "checked_add a b = (if unat a + unat b < 2 ^ LENGTH('a) then Some (a + b) else None)"

definition checked_sub :: "'a::len word \<Rightarrow> 'a word \<Rightarrow> 'a word option" where
  "checked_sub a b = (if b \<le> a then Some (a - b) else None)"

definition checked_mul :: "'a::len word \<Rightarrow> 'a word \<Rightarrow> 'a word option" where
  "checked_mul a b = (if unat a * unat b < 2 ^ LENGTH('a) then Some (a * b) else None)"

definition saturating_add :: "'a::len word \<Rightarrow> 'a word \<Rightarrow> 'a word" where
  "saturating_add a b = (case checked_add a b of Some c \<Rightarrow> c | None \<Rightarrow> - 1)"

definition saturating_sub :: "'a::len word \<Rightarrow> 'a word \<Rightarrow> 'a word" where
  "saturating_sub a b = (if b \<le> a then a - b else 0)"

definition saturating_mul :: "'a::len word \<Rightarrow> 'a word \<Rightarrow> 'a word" where
  "saturating_mul a b = (case checked_mul a b of Some c \<Rightarrow> c | None \<Rightarrow> - 1)"

lemma unat_max_word: "unat (- 1 :: 'a::len word) = 2 ^ LENGTH('a) - 1"
proof -
  have eq: "(- 1 :: 'a word) = word_of_nat (2 ^ LENGTH('a) - 1)" by (simp add: of_nat_diff)
  have "unat (- 1 :: 'a word) = (2 ^ LENGTH('a) - 1) mod 2 ^ LENGTH('a)"
    by (simp only: eq unat_of_nat)
  then show ?thesis by simp
qed

lemma unat_lt: "unat (a :: 'a::len word) < 2 ^ LENGTH('a)"
  by (rule unsigned_less)

lemma unat_add_exact: "unat a + unat b < 2 ^ LENGTH('a) \<Longrightarrow> unat (a + b) = unat a + unat b"
  for a b :: "'a::len word"
  by (simp add: unat_word_ariths)

lemma unat_mult_exact: "unat a * unat b < 2 ^ LENGTH('a) \<Longrightarrow> unat (a * b) = unat a * unat b"
  for a b :: "'a::len word"
  by (simp add: unat_word_ariths)

lemma unat_sub_exact: "b \<le> a \<Longrightarrow> unat (a - b) = unat a - unat b"
  for a b :: "'a::len word"
  by (simp add: unat_sub)

lemma checked_add_Some_iff:
  "checked_add a b = Some c \<longleftrightarrow> unat a + unat b = unat c" for a b c :: "'a::len word"
proof
  assume "checked_add a b = Some c"
  then show "unat a + unat b = unat c"
    by (auto simp: checked_add_def unat_add_exact split: if_splits)
next
  assume *: "unat a + unat b = unat c"
  have "unat c < 2 ^ LENGTH('a)" by simp
  then have "unat (a + b) = unat c" using * by (metis unat_add_exact)
  then have "a + b = c" by (simp only: word_unat_eq_iff)
  then show "checked_add a b = Some c"
    using * \<open>unat c < 2 ^ LENGTH('a)\<close> by (simp add: checked_add_def)
qed

lemma checked_add_None_iff:
  "checked_add a b = None \<longleftrightarrow> 2 ^ LENGTH('a) \<le> unat a + unat b" for a b :: "'a::len word"
  by (auto simp: checked_add_def)

lemma checked_sub_Some_iff:
  "checked_sub a b = Some c \<longleftrightarrow> unat a = unat b + unat c" for a b c :: "'a::len word"
proof
  assume "checked_sub a b = Some c"
  then show "unat a = unat b + unat c"
    by (auto simp: checked_sub_def unat_sub_exact word_le_nat_alt split: if_splits)
next
  assume *: "unat a = unat b + unat c"
  then have le: "b \<le> a" by (simp add: word_le_nat_alt)
  then have "unat (a - b) = unat c" using * by (simp add: unat_sub_exact)
  then have "a - b = c" by (simp only: word_unat_eq_iff)
  then show "checked_sub a b = Some c" using le by (simp add: checked_sub_def)
qed

lemma unat_saturating_add [unat_ops]:
  "unat (saturating_add a b) = min (unat a + unat b) (2 ^ LENGTH('a) - 1)" for a b :: "'a::len word"
  by (auto simp: saturating_add_def checked_add_def unat_max_word unat_add_exact)

lemma unat_saturating_sub [unat_ops]:
  "unat (saturating_sub a b) = unat a - unat b" for a b :: "'a::len word"
  by (auto simp: saturating_sub_def unat_sub_exact word_le_nat_alt)

lemma unat_saturating_mul [unat_ops]:
  "unat (saturating_mul a b) = min (unat a * unat b) (2 ^ LENGTH('a) - 1)" for a b :: "'a::len word"
  by (auto simp: saturating_mul_def checked_mul_def unat_max_word unat_mult_exact)

lemma unat_min [unat_ops]: "unat (min a b) = min (unat a) (unat b)" for a b :: "'a::len word"
  by (simp add: min_def word_le_nat_alt)

lemma saturating_add_exact:
  "unat a + unat b < 2 ^ LENGTH('a) \<Longrightarrow> unat (saturating_add a b) = unat a + unat b"
  for a b :: "'a::len word"
  by (simp add: unat_saturating_add)

lemma saturating_add_0_right [simp]: "saturating_add a 0 = a"
  by (simp add: saturating_add_def checked_add_def)

subsection \<open>Results\<close>

definition res_bind :: "'e + 'a \<Rightarrow> ('a \<Rightarrow> 'e + 'b) \<Rightarrow> 'e + 'b" where
  "res_bind r f = (case r of Inl e \<Rightarrow> Inl e | Inr x \<Rightarrow> f x)"

definition ok_or :: "'a option \<Rightarrow> 'e \<Rightarrow> 'e + 'a" where
  "ok_or x e = (case x of None \<Rightarrow> Inl e | Some v \<Rightarrow> Inr v)"

definition map_err :: "('e \<Rightarrow> 'f) \<Rightarrow> 'e + 'a \<Rightarrow> 'f + 'a" where
  "map_err f r = (case r of Inl e \<Rightarrow> Inl (f e) | Inr x \<Rightarrow> Inr x)"

definition require :: "bool \<Rightarrow> 'e \<Rightarrow> 'e + unit" where
  "require b e = (if b then Inr () else Inl e)"

lemma res_bind_simps [simp]:
  "res_bind (Inl e) f = Inl e"
  "res_bind (Inr x) f = f x"
  by (simp_all add: res_bind_def)

lemma res_bind_Inr_iff: "res_bind r f = Inr y \<longleftrightarrow> (\<exists>x. r = Inr x \<and> f x = Inr y)"
  by (cases r) simp_all

lemma res_bind_Inl_iff:
  "res_bind r f = Inl e \<longleftrightarrow> r = Inl e \<or> (\<exists>x. r = Inr x \<and> f x = Inl e)"
  by (cases r) auto

lemma ok_or_Inr_iff [simp]: "ok_or x e = Inr v \<longleftrightarrow> x = Some v"
  by (cases x) (simp_all add: ok_or_def)

lemma ok_or_Inl_iff [simp]: "ok_or x e = Inl e' \<longleftrightarrow> x = None \<and> e' = e"
  by (cases x) (auto simp: ok_or_def)

lemma ok_or_simps [simp]:
  "ok_or None e = Inl e"
  "ok_or (Some v) e = Inr v"
  by (simp_all add: ok_or_def)

lemma map_err_simps [simp]:
  "map_err f (Inl e) = Inl (f e)"
  "map_err f (Inr x) = Inr x"
  by (simp_all add: map_err_def)

lemma map_err_Inr_iff [simp]: "map_err f r = Inr x \<longleftrightarrow> r = Inr x"
  by (cases r) simp_all

lemma map_err_Inl_iff: "map_err f r = Inl e \<longleftrightarrow> (\<exists>e'. r = Inl e' \<and> e = f e')"
  by (cases r) auto

lemma require_Inr_iff [simp]: "require b e = Inr u \<longleftrightarrow> b"
  by (simp add: require_def)

lemma require_Inl_iff [simp]: "require b e = Inl e' \<longleftrightarrow> \<not> b \<and> e' = e"
  by (auto simp: require_def)

lemma require_simps [simp]:
  "require True e = Inr ()"
  "require False e = Inl e"
  by (simp_all add: require_def)

lemmas res_iffs = res_bind_Inr_iff res_bind_Inl_iff map_err_Inl_iff

definition unwrap_or :: "'a option \<Rightarrow> 'a \<Rightarrow> 'a" where
  "unwrap_or x d = (case x of Some v \<Rightarrow> v | None \<Rightarrow> d)"

lemma unwrap_or_simps [simp]:
  "unwrap_or (Some v) d = v"
  "unwrap_or None d = d"
  by (simp_all add: unwrap_or_def)

text \<open>A saturating sum is the exact sum, cut at the largest word.\<close>

lemma unat_saturating_foldl:
  fixes f :: "'e \<Rightarrow> 'a::len word"
  shows "unat (foldl (\<lambda>t e. saturating_add t (f e)) a xs)
    = min (2 ^ LENGTH('a) - 1) (unat a + sum_list (map (\<lambda>e. unat (f e)) xs))"
proof (induction xs arbitrary: a)
  case Nil
  have "unat a \<le> 2 ^ LENGTH('a) - 1" using unat_lt [of a] by linarith
  then show ?case by (simp add: min_absorb2)
next
  case (Cons e xs)
  then show ?case by (auto simp: unat_saturating_add min_def)
qed

subsection \<open>Byte order\<close>

text \<open>A Rust byte string literal \<open>b"..."\<close>.\<close>

definition ascii :: "string \<Rightarrow> bytes" where
  "ascii s = map of_char s"

lemma ascii_simps [simp]:
  "ascii [] = []"
  "ascii (c # s) = of_char c # ascii s"
  by (simp_all add: ascii_def)

lemma length_ascii [simp]: "length (ascii s) = length s"
  by (simp add: ascii_def)

definition be_bytes :: "nat \<Rightarrow> 'a::len word \<Rightarrow> bytes" where
  "be_bytes n w = map (\<lambda>i. ucast (drop_bit (8 * i) w)) (rev [0..<n])"

definition le_bytes :: "nat \<Rightarrow> 'a::len word \<Rightarrow> bytes" where
  "le_bytes n w = map (\<lambda>i. ucast (drop_bit (8 * i) w)) [0..<n]"

lemma length_be_bytes [simp]: "length (be_bytes n w) = n"
  by (simp add: be_bytes_def)

lemma length_le_bytes [simp]: "length (le_bytes n w) = n"
  by (simp add: le_bytes_def)

lemma be_bytes_rev: "be_bytes n w = rev (le_bytes n w)"
  by (simp add: be_bytes_def le_bytes_def rev_map)

lemma le_bytes_inject:
  fixes v w :: "'a::len word"
  assumes len: "LENGTH('a) = 8 * n" and eq: "le_bytes n v = le_bytes n w"
  shows "v = w"
proof (rule bit_word_eqI)
  fix k
  assume "k < LENGTH('a)"
  then have k: "k < 8 * n" by (simp add: len)
  let ?i = "k div 8"
  have i: "?i < n" using k by (simp add: less_mult_imp_div_less mult.commute)
  have "le_bytes n v ! ?i = le_bytes n w ! ?i" using eq by simp
  then have "(ucast (drop_bit (8 * ?i) v) :: u8) = ucast (drop_bit (8 * ?i) w)"
    using i by (simp add: le_bytes_def)
  then have "bit (ucast (drop_bit (8 * ?i) v) :: u8) (k mod 8)
      = bit (ucast (drop_bit (8 * ?i) w) :: u8) (k mod 8)"
    by simp
  moreover have "8 * ?i + k mod 8 = k" by simp
  ultimately show "bit v k = bit w k"
    by (simp add: bit_simps)
qed

lemma be_bytes_inject:
  fixes v w :: "'a::len word"
  assumes "LENGTH('a) = 8 * n" and "be_bytes n v = be_bytes n w"
  shows "v = w"
  using assms le_bytes_inject [of n v w] by (simp add: be_bytes_rev)

subsection \<open>Sums over a finite type\<close>

lemma sum_fun_upd:
  fixes f :: "'a::finite \<Rightarrow> nat"
  shows "(\<Sum>x\<in>UNIV. (f(a := v)) x) + f a = (\<Sum>x\<in>UNIV. f x) + v"
proof -
  have "(\<Sum>x\<in>UNIV. (f(a := v)) x) = v + (\<Sum>x\<in>UNIV - {a}. (f(a := v)) x)"
    by (simp add: sum.remove [of UNIV a])
  also have "(\<Sum>x\<in>UNIV - {a}. (f(a := v)) x) = (\<Sum>x\<in>UNIV - {a}. f x)"
    by (rule sum.cong) auto
  also have "v + (\<Sum>x\<in>UNIV - {a}. f x) + f a = (\<Sum>x\<in>UNIV. f x) + v"
    by (simp add: sum.remove [of UNIV a])
  finally show ?thesis by simp
qed

lemma sum_member_le:
  fixes f :: "'a::finite \<Rightarrow> nat"
  shows "f a \<le> (\<Sum>x\<in>UNIV. f x)"
  by (rule member_le_sum) simp_all

end
