(* ===== verification/Runtime_Types.thy ===== *)
theory Runtime_Types
  imports Prelude
begin

text \<open>
  Data types of the default runtime (\<open>crates/runtimes/neutrino-default/core\<close>) and of the evidence
  statements it consumes (\<open>crates/consensus-types/src/evidence.rs\<close>, \<open>history.rs\<close>,
  \<open>history_proof.rs\<close>, \<open>participation.rs\<close>). Every struct is a record with the source's fields in
  the source's order, every enum a datatype with the source's variants; field names carry a
  prefix where two structs share one.
\<close>

type_synonym address = hash
type_synonym vk_digest = "256 word"

subsection \<open>State records (state.rs)\<close>

record account =
  nonce :: u64
  balance :: u128

record validator =
  stake :: u128
  active :: bool

record validator_set_entry =
  vse_address :: address
  vse_stake :: u128

record validator_set =
  vs_entries :: "validator_set_entry list"

record bonding =
  bond_amount :: u128
  since_height :: u64

record validator_registration =
  reg_address :: address
  reg_bls_pubkey :: bls_public_key
  reg_pop_signature :: bls_signature
  registered_at_height :: u64

record validator_registrations =
  reg_addresses :: "address list"

record withdrawal =
  wd_amount :: u128
  mature_at_height :: u64

record withdrawal_queue =
  wq_entries :: "withdrawal list"

record bls_identity =
  id_pubkey :: bls_public_key
  id_pop_signature :: bls_signature

record consensus_candidate =
  cand_address :: address
  cand_stake :: u128
  cand_identity :: "bls_identity option"

record consensus_candidates =
  cc_entries :: "consensus_candidate list"

record participation_report =
  pr_chunk_id :: u64
  pr_present :: "address list"
  pr_absent :: "address list"

record runtime_policy =
  gas_price :: u128
  min_validator_stake :: u128
  evidence_max_age_blocks :: u64
  evidence_max_pending :: u32
  evidence_admissions_per_block :: u32
  evidence_executions_per_block :: u32
  slash_amount :: u128
  inactivity_leak_amount :: u128
  reporter_reward_bps :: u16

text \<open>The runtime section of a chain specification (\<open>crates/primitives\<close>).\<close>

record runtime_params =
  rp_evidence_max_age_blocks :: u64
  rp_evidence_max_pending :: u32
  rp_evidence_admissions_per_block :: u32
  rp_evidence_executions_per_block :: u32
  rp_gas_price :: u128
  rp_min_validator_stake :: u128
  rp_unbonding_delay_blocks :: u64
  rp_slash_amount :: u128
  rp_inactivity_leak_amount :: u128

subsection \<open>Program sets (history\_proof.rs)\<close>

record execution_programs =
  ep_fact :: vk_digest
  ep_evidence :: vk_digest
  ep_block :: vk_digest

record program_set =
  ps_runtime_code_hash :: hash
  ps_execution :: execution_programs

record program_artifacts =
  pa_runtime :: hash
  pa_fact :: hash
  pa_evidence :: hash
  pa_block :: hash

record scheduled_upgrade =
  su_activate_at_chunk :: u64
  su_programs :: program_set
  su_artifacts :: program_artifacts

subsection \<open>Consensus validators and evidence (primitives, evidence.rs, history.rs)\<close>

record consensus_validator =
  cv_pubkey :: bls_public_key
  cv_withdrawal_credentials :: hash
  cv_effective_stake :: u64
  cv_slashed :: bool
  cv_activation_epoch :: u64
  cv_exit_epoch :: u64
  cv_last_active_chunk :: u64

record evidence_context =
  ec_chunk_id :: u64
  ec_chunk_hash :: hash
  ec_end_height :: u64
  ec_validators_root :: hash
  ec_seed :: hash
  ec_source_block_guest_vk_digest :: vk_digest
  ec_source_runtime_code_hash :: hash

datatype sanction_kind = Slash | Inactivity

record evidence_statement =
  es_chain_id :: u64
  es_chain_spec_hash :: hash
  es_block_guest_vk_digest :: vk_digest
  es_context :: evidence_context
  es_offender :: consensus_validator
  es_kind :: sanction_kind
  es_offence_id :: hash
  es_facts_commitment :: hash
  es_reporter :: "address option"

record history_path =
  hp_index :: u64
  hp_count :: u64
  hp_siblings :: "hash list"

record evidence_submission =
  sub_statement :: evidence_statement
  sub_history :: history_path

record evidence_anchor =
  ea_fact_guest_vk_digest :: vk_digest
  ea_chain_spec_hash :: hash
  ea_chunk_id :: u64
  ea_history_root :: hash
  ea_block_guest_vk_digest :: vk_digest
  ea_evidence_guest_vk_digest :: vk_digest
  ea_unbonding_delay_blocks :: u64
  ea_chunk_size :: u64

subsection \<open>Transactions (tx.rs, governance.rs)\<close>

record transfer_tx =
  tr_from :: address
  tr_to :: address
  tr_amount :: u128
  tr_nonce :: u64
  tr_signature :: ed25519_signature

record stake_tx =
  st_validator :: address
  st_amount :: u128
  st_nonce :: u64
  st_signature :: ed25519_signature

record unstake_tx =
  un_validator :: address
  un_amount :: u128
  un_nonce :: u64
  un_signature :: ed25519_signature

record deposit_tx =
  dp_depositor :: address
  dp_validator :: address
  dp_amount :: u128
  dp_nonce :: u64
  dp_signature :: ed25519_signature

record voluntary_exit_tx =
  ve_validator :: address
  ve_nonce :: u64
  ve_signature :: ed25519_signature

record withdraw_tx =
  wt_validator :: address
  wt_nonce :: u64
  wt_signature :: ed25519_signature

record register_validator_tx =
  rv_depositor :: address
  rv_validator :: address
  rv_bls_pubkey :: bls_public_key
  rv_pop_signature :: bls_signature
  rv_deposit_amount :: u128
  rv_nonce :: u64
  rv_signature :: ed25519_signature
  rv_validator_signature :: ed25519_signature

record propose_upgrade_tx =
  pu_proposer :: address
  pu_programs :: program_set
  pu_artifacts :: program_artifacts
  pu_activate_at_chunk :: u64
  pu_nonce :: u64
  pu_signature :: ed25519_signature

record propose_policy_tx =
  pp_proposer :: address
  pp_policy :: runtime_policy
  pp_nonce :: u64
  pp_signature :: ed25519_signature

record vote_upgrade_tx =
  vu_voter :: address
  vu_proposal_id :: hash
  vu_nonce :: u64
  vu_signature :: ed25519_signature

datatype transaction =
    Transfer transfer_tx
  | Stake stake_tx
  | Unstake unstake_tx
  | Deposit deposit_tx
  | VoluntaryExit voluntary_exit_tx
  | Withdraw withdraw_tx
  | RegisterValidator register_validator_tx
  | SubmitEvidence evidence_submission
  | ProposeUpgrade propose_upgrade_tx
  | VoteUpgrade vote_upgrade_tx
  | ProposePolicy propose_policy_tx

subsection \<open>Governance (governance.rs)\<close>

datatype proposal_action =
    Programs program_set program_artifacts u64
  | Policy runtime_policy

record upgrade_proposal =
  up_proposer :: address
  up_action :: proposal_action
  up_proposed_at_chunk :: u64
  up_voters :: "address list"

subsection \<open>Accountability (accountability.rs, settlement.rs)\<close>

record sanction =
  sn_offence_id :: hash
  sn_offender :: consensus_validator
  sn_kind :: sanction_kind

record pending_sanction =
  pn_sanction :: sanction
  pn_amount :: u128
  pn_reporter :: "address option"
  pn_reporter_reward_bps :: u16

record settlement_counter =
  sc_value :: u128
  sc_overflowed :: bool

record settlement_kind_totals =
  kt_admitted :: settlement_counter
  kt_executed :: settlement_counter
  kt_zero_deductions :: settlement_counter
  kt_deducted :: settlement_counter
  kt_rewarded :: settlement_counter
  kt_burned :: settlement_counter

record settlement_totals =
  tot_slash :: settlement_kind_totals
  tot_inactivity :: settlement_kind_totals

text \<open>Obligations left in the mandatory queue; \<open>BTreeSet\<close> as a set.\<close>

record backlog =
  bl_held :: "address set"
  bl_count :: nat

subsection \<open>Receipts and failures (lib.rs)\<close>

datatype receipt_status =
    Success
  | BadSignature
  | NonceMismatch
  | InsufficientBalance
  | OutOfBlockGas
  | Overflow
  | Unauthorized
  | UpgradeConflict
  | InvalidUpgrade
  | AlreadyVoted

fun receipt_status_as_u32 :: "receipt_status \<Rightarrow> u32" where
  "receipt_status_as_u32 Success = 0"
| "receipt_status_as_u32 BadSignature = 1"
| "receipt_status_as_u32 NonceMismatch = 2"
| "receipt_status_as_u32 InsufficientBalance = 3"
| "receipt_status_as_u32 OutOfBlockGas = 4"
| "receipt_status_as_u32 Overflow = 5"
| "receipt_status_as_u32 Unauthorized = 6"
| "receipt_status_as_u32 UpgradeConflict = 7"
| "receipt_status_as_u32 InvalidUpgrade = 8"
| "receipt_status_as_u32 AlreadyVoted = 9"

record failure =
  status :: receipt_status
  payer :: "address option"

definition failure_charged :: "receipt_status \<Rightarrow> address \<Rightarrow> failure" where
  "failure_charged st p = \<lparr>status = st, payer = Some p\<rparr>"

definition failure_from :: "receipt_status \<Rightarrow> failure" where
  "failure_from st = \<lparr>status = st, payer = None\<rparr>"

record receipt =
  rc_status_code :: u32
  rc_gas_used :: u64
  rc_kind :: u8

definition mul_div_floor :: "u128 \<Rightarrow> u128 \<Rightarrow> u128 \<Rightarrow> u128" where
  "mul_div_floor value numerator denominator =
     value div denominator * numerator + value mod denominator * numerator div denominator"

lemma receipt_status_as_u32_inject: "receipt_status_as_u32 a = receipt_status_as_u32 b \<longleftrightarrow> a = b"
  by (cases a; cases b) simp_all

lemma failure_simps [simp]:
  "status (failure_charged st p) = st"
  "payer (failure_charged st p) = Some p"
  "status (failure_from st) = st"
  "payer (failure_from st) = None"
  by (simp_all add: failure_charged_def failure_from_def)

text \<open>
  \<open>mul_div_floor\<close> is the floor of the exact quotient whenever the numerator does not exceed the
  denominator and the denominator's square fits the width; no intermediate value wraps.
\<close>

lemma mul_div_floor_nat:
  fixes v n d :: nat
  assumes "0 < d"
  shows "v div d * n + v mod d * n div d = v * n div d"
proof -
  have "v * n = (v div d * n) * d + v mod d * n"
    by (metis distrib_right div_mult_mod_eq mult.assoc mult.commute)
  then show ?thesis using assms by simp
qed

lemma unat_mul_div_floor:
  assumes d: "0 < unat d" and nd: "unat n \<le> unat d" and sq: "unat d * unat d < 2 ^ 128"
  shows "unat (mul_div_floor v n d) = unat v * unat n div unat d"
proof -
  let ?V = "unat v" and ?N = "unat n" and ?D = "unat d"
  have q: "?V div ?D * ?N \<le> ?V"
    by (metis div_times_less_eq_dividend le_trans mult_le_mono2 nd)
  have r: "?V mod ?D * ?N < 2 ^ 128"
  proof -
    have "?V mod ?D * ?N \<le> ?D * ?D" using d nd by (intro mult_le_mono) (auto simp: less_imp_le)
    then show ?thesis using sq by simp
  qed
  have total: "?V div ?D * ?N + ?V mod ?D * ?N div ?D = ?V * ?N div ?D"
    by (rule mul_div_floor_nat [OF d])
  have le: "?V * ?N div ?D \<le> ?V"
  proof -
    have "?V * ?N div ?D \<le> ?V * ?D div ?D" using nd by (intro div_le_mono mult_le_mono2)
    then show ?thesis using d by simp
  qed
  have V: "?V < 2 ^ 128" using unsigned_less [of v] by simp
  have "unat (v div d * n) = ?V div ?D * ?N"
    using q V by (subst unat_mult_exact) (auto simp: unat_div)
  moreover have "unat (v mod d * n div d) = ?V mod ?D * ?N div ?D"
    using r by (simp add: unat_div unat_mod unat_mult_exact)
  ultimately show ?thesis
    unfolding mul_div_floor_def using total le V by (subst unat_add_exact) auto
qed

end
