(* ===== verification/Keys.thy ===== *)
theory Keys
  imports Runtime_Types
begin

text \<open>
  Key layout of the runtime state (\<open>state.rs\<close>, \<open>governance.rs\<close>, \<open>accountability.rs\<close>,
  \<open>settlement.rs\<close>). The key functions are the source's; \<open>key\<close> is the family of all keys the
  runtime ever touches and \<open>key_bytes\<close> its layout. The layout is injective (\<open>key_bytes_inject\<close>),
  so two typed accessors interfere only when they name the same record.
\<close>

definition ACCOUNT_KEY_PREFIX :: bytes where "ACCOUNT_KEY_PREFIX = ascii ''acct:''"
definition VALIDATOR_KEY_PREFIX :: bytes where "VALIDATOR_KEY_PREFIX = ascii ''val:''"
definition WITHDRAWAL_KEY_PREFIX :: bytes where "WITHDRAWAL_KEY_PREFIX = ascii ''wdr:''"
definition REGISTRATION_KEY_PREFIX :: bytes where "REGISTRATION_KEY_PREFIX = ascii ''reg:''"
definition BONDING_KEY_PREFIX :: bytes where "BONDING_KEY_PREFIX = ascii ''bond:''"
definition VALIDATOR_SET_KEY :: bytes where "VALIDATOR_SET_KEY = ascii ''validator_set''"
definition VALIDATOR_REGISTRATIONS_KEY :: bytes where
  "VALIDATOR_REGISTRATIONS_KEY = ascii ''validator_registrations''"
definition UPGRADE_KEY :: bytes where "UPGRADE_KEY = ascii ''upgrade:scheduled''"
definition RUNTIME_POLICY_KEY :: bytes where "RUNTIME_POLICY_KEY = ascii ''runtime:policy''"
definition CONSENSUS_CANDIDATES_KEY :: bytes where
  "CONSENSUS_CANDIDATES_KEY = ascii ''consensus:candidates''"
definition PARTICIPATION_KEY :: bytes where "PARTICIPATION_KEY = ascii ''consensus:participation''"
definition ABSENT_KEY_PREFIX :: bytes where "ABSENT_KEY_PREFIX = ascii ''consensus:absent:''"
definition UPGRADE_PROPOSAL_KEY :: bytes where "UPGRADE_PROPOSAL_KEY = ascii ''upgrade:proposal''"
definition QUEUE_KEY :: bytes where "QUEUE_KEY = ascii ''accountability:queue:v1''"
definition SETTLEMENT_TOTALS_KEY :: bytes where
  "SETTLEMENT_TOTALS_KEY = ascii ''accountability:settlement_totals''"

definition prefixed_key :: "bytes \<Rightarrow> bytes \<Rightarrow> bytes" where
  "prefixed_key prefix suffix = prefix @ suffix"

definition account_key :: "address \<Rightarrow> bytes" where
  "account_key addr = prefixed_key ACCOUNT_KEY_PREFIX (be_bytes 32 addr)"

definition validator_key :: "address \<Rightarrow> bytes" where
  "validator_key addr = prefixed_key VALIDATOR_KEY_PREFIX (be_bytes 32 addr)"

definition registration_key :: "address \<Rightarrow> bytes" where
  "registration_key addr = prefixed_key REGISTRATION_KEY_PREFIX (be_bytes 32 addr)"

definition withdrawal_key :: "address \<Rightarrow> bytes" where
  "withdrawal_key addr = prefixed_key WITHDRAWAL_KEY_PREFIX (be_bytes 32 addr)"

definition absent_key :: "u64 \<Rightarrow> bytes" where
  "absent_key chunk_id = prefixed_key ABSENT_KEY_PREFIX (be_bytes 8 chunk_id)"

definition bonding_key :: "address \<Rightarrow> bytes" where
  "bonding_key addr = prefixed_key BONDING_KEY_PREFIX (be_bytes 32 addr)"

definition offence_key :: "hash \<Rightarrow> bytes" where
  "offence_key offence = prefixed_key (ascii ''accountability:event:v1:'') (be_bytes 32 offence)"

definition slashed_key :: "bls_public_key \<Rightarrow> bytes" where
  "slashed_key pubkey = prefixed_key (ascii ''accountability:slashed:v1:'') (be_bytes 48 pubkey)"

definition expiry_key :: "u64 \<Rightarrow> bytes" where
  "expiry_key height = prefixed_key (ascii ''accountability:expiry:v1:'') (be_bytes 8 height)"

text \<open>The family of runtime keys.\<close>

datatype key =
    KAccount address
  | KValidator address
  | KWithdrawal address
  | KRegistration address
  | KBonding address
  | KValidatorSet
  | KRegistrations
  | KUpgrade
  | KPolicy
  | KCandidates
  | KParticipation
  | KAbsent u64
  | KProposal
  | KQueue
  | KTotals
  | KOffence hash
  | KSlashed bls_public_key
  | KExpiry u64

fun key_bytes :: "key \<Rightarrow> bytes" where
  "key_bytes (KAccount a) = account_key a"
| "key_bytes (KValidator a) = validator_key a"
| "key_bytes (KWithdrawal a) = withdrawal_key a"
| "key_bytes (KRegistration a) = registration_key a"
| "key_bytes (KBonding a) = bonding_key a"
| "key_bytes KValidatorSet = VALIDATOR_SET_KEY"
| "key_bytes KRegistrations = VALIDATOR_REGISTRATIONS_KEY"
| "key_bytes KUpgrade = UPGRADE_KEY"
| "key_bytes KPolicy = RUNTIME_POLICY_KEY"
| "key_bytes KCandidates = CONSENSUS_CANDIDATES_KEY"
| "key_bytes KParticipation = PARTICIPATION_KEY"
| "key_bytes (KAbsent c) = absent_key c"
| "key_bytes KProposal = UPGRADE_PROPOSAL_KEY"
| "key_bytes KQueue = QUEUE_KEY"
| "key_bytes KTotals = SETTLEMENT_TOTALS_KEY"
| "key_bytes (KOffence i) = offence_key i"
| "key_bytes (KSlashed p) = slashed_key p"
| "key_bytes (KExpiry h) = expiry_key h"

lemmas key_defs =
  account_key_def validator_key_def withdrawal_key_def registration_key_def bonding_key_def
  absent_key_def offence_key_def slashed_key_def expiry_key_def prefixed_key_def
  ACCOUNT_KEY_PREFIX_def VALIDATOR_KEY_PREFIX_def WITHDRAWAL_KEY_PREFIX_def
  REGISTRATION_KEY_PREFIX_def BONDING_KEY_PREFIX_def VALIDATOR_SET_KEY_def
  VALIDATOR_REGISTRATIONS_KEY_def UPGRADE_KEY_def RUNTIME_POLICY_KEY_def
  CONSENSUS_CANDIDATES_KEY_def PARTICIPATION_KEY_def ABSENT_KEY_PREFIX_def
  UPGRADE_PROPOSAL_KEY_def QUEUE_KEY_def SETTLEMENT_TOTALS_KEY_def

lemma be_bytes_eq_iff [simp]:
  "be_bytes 32 a = be_bytes 32 b \<longleftrightarrow> a = b"
  "be_bytes 48 p = be_bytes 48 q \<longleftrightarrow> p = q"
  "be_bytes 8 c = be_bytes 8 d \<longleftrightarrow> c = d"
  for a b :: hash and p q :: bls_public_key and c d :: u64
  using be_bytes_inject [of 32 a b] be_bytes_inject [of 48 p q] be_bytes_inject [of 8 c d]
  by auto

declare key_bytes.simps [simp del]

lemmas key_bytes_eval = key_bytes.simps [unfolded key_defs, simplified]

lemma key_bytes_inject [simp]: "key_bytes k = key_bytes l \<longleftrightarrow> k = l"
  by (cases k; cases l) (simp_all add: key_bytes_eval)

lemmas key_bytes_sym [key_layout, simp] = key_bytes.simps [symmetric]

end
