(* ===== verification/Sorted_Index.thy ===== *)
theory Sorted_Index
  imports Prelude
begin

text \<open>
  Address-sorted vectors. The runtime keeps several records as vectors sorted by a key and edits
  them through \<open>slice::binary_search_by\<close> and \<open>slice::partition_point\<close>: the active validator set,
  the consensus candidates, the registrations index and the voters of a proposal.
  This theory models the two standard library searches by bisection, characterises them on
  sorted vectors, and states the contract of a sorted index as the locale \<open>sorted_index\<close>.
\<close>

subsection \<open>Searching\<close>

function bisect :: "('a \<Rightarrow> bool) \<Rightarrow> 'a list \<Rightarrow> nat \<Rightarrow> nat \<Rightarrow> nat" where
  "bisect p xs lo hi =
     (if lo < hi
      then let mid = lo + (hi - lo) div 2
           in if p (xs ! mid) then bisect p xs (Suc mid) hi else bisect p xs lo mid
      else lo)"
  by pat_completeness auto
termination
  by (relation "measure (\<lambda>(p, xs, lo, hi). hi - lo)") (auto simp: Let_def)

declare bisect.simps [simp del]

definition partition_point :: "('a \<Rightarrow> bool) \<Rightarrow> 'a list \<Rightarrow> nat" where
  "partition_point p xs = bisect p xs 0 (length xs)"

text \<open>\<open>Ok\<close> with the position of a match, \<open>Err\<close> with the insertion point.\<close>

definition binary_search_by :: "('a \<Rightarrow> 'k::linorder) \<Rightarrow> 'a list \<Rightarrow> 'k \<Rightarrow> nat + nat" where
  "binary_search_by key xs a =
     (let i = partition_point (\<lambda>x. key x < a) xs
      in if i < length xs \<and> key (xs ! i) = a then Inr i else Inl i)"

definition insert_at :: "nat \<Rightarrow> 'a \<Rightarrow> 'a list \<Rightarrow> 'a list" where
  "insert_at i x xs = take i xs @ x # drop i xs"

definition remove_at :: "nat \<Rightarrow> 'a list \<Rightarrow> 'a list" where
  "remove_at i xs = take i xs @ drop (Suc i) xs"

definition partitioned :: "('a \<Rightarrow> bool) \<Rightarrow> 'a list \<Rightarrow> bool" where
  "partitioned p xs \<longleftrightarrow> (\<forall>i j. i \<le> j \<longrightarrow> j < length xs \<longrightarrow> p (xs ! j) \<longrightarrow> p (xs ! i))"

text \<open>The order in which every index is kept.\<close>

abbreviation sorted_keys :: "('a \<Rightarrow> 'k::linorder) \<Rightarrow> 'a list \<Rightarrow> bool" where
  "sorted_keys key xs \<equiv> sorted_wrt (<) (map key xs)"

definition index_lookup :: "('a \<Rightarrow> 'k) \<Rightarrow> 'a list \<Rightarrow> 'k \<Rightarrow> 'a option" where
  "index_lookup key xs k = map_of (map (\<lambda>x. (key x, x)) xs) k"

lemma bisect_correct:
  assumes "partitioned p xs" and "lo \<le> hi" and "hi \<le> length xs"
    and "\<forall>i<lo. p (xs ! i)" and "\<forall>i. hi \<le> i \<longrightarrow> i < length xs \<longrightarrow> \<not> p (xs ! i)"
  shows "bisect p xs lo hi \<le> length xs \<and> (\<forall>i<bisect p xs lo hi. p (xs ! i)) \<and>
    (\<forall>i. bisect p xs lo hi \<le> i \<longrightarrow> i < length xs \<longrightarrow> \<not> p (xs ! i))"
  using assms
proof (induction p xs lo hi rule: bisect.induct)
  case (1 p xs lo hi)
  show ?case
  proof (cases "lo < hi")
    case False
    then have here: "bisect p xs lo hi = lo" by (simp add: bisect.simps [of p xs lo hi])
    have "hi = lo" using False "1.prems"(2) by simp
    then show ?thesis unfolding here using "1.prems"(3,4,5) by blast
  next
    case True
    define mid where "mid = lo + (hi - lo) div 2"
    have mid: "lo \<le> mid" "mid < hi" using True by (auto simp: mid_def)
    have unfold_mid: "bisect p xs lo hi =
        (if p (xs ! mid) then bisect p xs (Suc mid) hi else bisect p xs lo mid)"
      using True by (subst bisect.simps) (simp add: Let_def mid_def)
    show ?thesis
    proof (cases "p (xs ! mid)")
      case p: True
      have "\<forall>i<Suc mid. p (xs ! i)"
        using p "1.prems"(1,3) mid unfolding partitioned_def less_Suc_eq_le by auto
      from "1.IH"(1) [OF True mid_def p "1.prems"(1) _ "1.prems"(3) this "1.prems"(5)]
      show ?thesis using mid p by (simp only: unfold_mid) auto
    next
      case np: False
      have above: "\<forall>i. mid \<le> i \<longrightarrow> i < length xs \<longrightarrow> \<not> p (xs ! i)"
        using np "1.prems"(1) unfolding partitioned_def by blast
      have "mid \<le> length xs" using mid "1.prems"(3) by simp
      from "1.IH"(2) [OF True mid_def np "1.prems"(1) mid(1) this "1.prems"(4) above]
      show ?thesis using np by (simp only: unfold_mid) auto
    qed
  qed
qed

lemma partition_point_correct:
  assumes "partitioned p xs"
  shows "partition_point p xs \<le> length xs"
    and "i < partition_point p xs \<Longrightarrow> p (xs ! i)"
    and "partition_point p xs \<le> i \<Longrightarrow> i < length xs \<Longrightarrow> \<not> p (xs ! i)"
  using bisect_correct [OF assms, of 0 "length xs"] by (auto simp: partition_point_def)

lemma partition_point_takeWhile:
  assumes "partitioned p xs"
  shows "partition_point p xs = length (takeWhile p xs)"
proof -
  let ?n = "partition_point p xs"
  have "takeWhile p xs = take ?n xs"
  proof (rule takeWhile_eq_take_P_nth)
    show "\<And>i. i < ?n \<Longrightarrow> i < length xs \<Longrightarrow> p (xs ! i)"
      by (rule partition_point_correct [OF assms])
    show "?n < length xs \<Longrightarrow> \<not> p (xs ! ?n)"
      using partition_point_correct(3) [OF assms, of ?n] by simp
  qed
  then show ?thesis using partition_point_correct(1) [OF assms] by simp
qed

lemma sorted_keys_partitioned:
  assumes "sorted_keys key xs"
  shows "partitioned (\<lambda>x. key x < a) xs"
  unfolding partitioned_def
proof (intro allI impI)
  fix i j
  assume "i \<le> j" "j < length xs" "key (xs ! j) < a"
  moreover have "i < j \<Longrightarrow> key (xs ! i) < key (xs ! j)"
    using assms \<open>j < length xs\<close> by (simp add: sorted_wrt_iff_nth_less)
  ultimately show "key (xs ! i) < a" by (cases "i = j") auto
qed

lemma sorted_keys_distinct: "sorted_keys key xs \<Longrightarrow> distinct (map key xs)"
  by (metis strict_sorted_iff)

text \<open>A successful search splits the vector at the match.\<close>

lemma binary_search_Inr:
  assumes "binary_search_by key xs a = Inr i"
  shows "i < length xs" and "key (xs ! i) = a" and "xs = take i xs @ xs ! i # drop (Suc i) xs"
proof -
  show i: "i < length xs" and "key (xs ! i) = a"
    using assms by (auto simp: binary_search_by_def Let_def split: if_splits)
  show "xs = take i xs @ xs ! i # drop (Suc i) xs" by (rule id_take_nth_drop [OF i])
qed

text \<open>A failed search splits it between the smaller and the larger keys.\<close>

lemma binary_search_Inl:
  assumes srt: "sorted_keys key xs" and miss: "binary_search_by key xs a = Inl i"
  shows "\<forall>x\<in>set (take i xs). key x < a" and "\<forall>x\<in>set (drop i xs). a < key x" and "i \<le> length xs"
proof -
  let ?p = "\<lambda>x. key x < a"
  note part = sorted_keys_partitioned [OF srt, of a]
  have i: "i = partition_point ?p xs" and ne: "i < length xs \<Longrightarrow> key (xs ! i) \<noteq> a"
    using miss by (auto simp: binary_search_by_def Let_def split: if_splits)
  show "i \<le> length xs" using partition_point_correct(1) [OF part] i by simp
  show "\<forall>x\<in>set (take i xs). key x < a"
    using partition_point_correct(2) [OF part] i by (auto simp: in_set_conv_nth)
  show "\<forall>x\<in>set (drop i xs). a < key x"
  proof
    fix x
    assume "x \<in> set (drop i xs)"
    then obtain k where "k < length xs - i" and x: "x = xs ! (i + k)"
      by (auto simp: in_set_conv_nth)
    then have k: "i + k < length xs" by simp
    have ge: "a \<le> key (xs ! i)"
      using partition_point_correct(3) [OF part, of i] i k by auto
    then have "a < key (xs ! i)" using ne k by auto
    moreover have "key (xs ! i) \<le> key x"
      using srt k by (cases "k = 0") (auto simp: x sorted_wrt_iff_nth_less less_imp_le)
    ultimately show "a < key x" by simp
  qed
qed

lemma binary_search_found_iff:
  assumes "sorted_keys key xs"
  shows "(\<exists>i. binary_search_by key xs a = Inr i) \<longleftrightarrow> a \<in> key ` set xs"
proof (cases "binary_search_by key xs a")
  case (Inr i)
  then show ?thesis using binary_search_Inr(1,2) [OF Inr] by (auto intro!: image_eqI)
next
  case (Inl i)
  have "set xs = set (take i xs) \<union> set (drop i xs)" by (metis append_take_drop_id set_append)
  then show ?thesis using binary_search_Inl [OF assms Inl] Inl by fastforce
qed

subsection \<open>Lookup after an edit\<close>

lemma index_lookup_append:
  "index_lookup key (xs @ ys) k =
     (case index_lookup key xs k of None \<Rightarrow> index_lookup key ys k | Some x \<Rightarrow> Some x)"
  by (simp add: index_lookup_def map_add_def split: option.splits)

lemma index_lookup_simps [simp]:
  "index_lookup key [] k = None"
  "index_lookup key (x # xs) k = (if key x = k then Some x else index_lookup key xs k)"
  by (auto simp: index_lookup_def)

lemma index_lookup_None_iff: "index_lookup key xs k = None \<longleftrightarrow> k \<notin> key ` set xs"
  by (auto simp: index_lookup_def map_of_eq_None_iff image_image)

lemma index_lookup_Some_iff:
  "sorted_keys key xs \<Longrightarrow> index_lookup key xs k = Some x \<longleftrightarrow> x \<in> set xs \<and> key x = k"
  using sorted_keys_distinct [of key xs]
  by (auto simp: index_lookup_def comp_def map_of_eq_Some_iff)

lemma insert_at_lookup:
  assumes "sorted_keys key xs" and "binary_search_by key xs (key x) = Inl i"
  shows "index_lookup key (insert_at i x xs) = (index_lookup key xs)(key x \<mapsto> x)"
    and "sorted_keys key (insert_at i x xs)"
proof -
  note lo_hi = binary_search_Inl [OF assms]
  have nlo: "index_lookup key (take i xs) (key x) = None"
    using lo_hi(1) by (auto simp: index_lookup_None_iff)
  have split_xs: "index_lookup key xs k =
      (case index_lookup key (take i xs) k of None \<Rightarrow> index_lookup key (drop i xs) k | Some y \<Rightarrow> Some y)" for k
    using index_lookup_append [of key "take i xs" "drop i xs" k] by simp
  show "index_lookup key (insert_at i x xs) = (index_lookup key xs)(key x \<mapsto> x)"
    using nlo by (auto simp: insert_at_def fun_eq_iff index_lookup_append split_xs split: option.splits)
  have "sorted_keys key (take i xs @ drop i xs)" using assms(1) by simp
  then show "sorted_keys key (insert_at i x xs)"
    using lo_hi unfolding insert_at_def map_append sorted_wrt_append
    by (auto simp: less_trans)
qed

lemma replace_at_lookup:
  assumes "sorted_keys key xs" and "binary_search_by key xs (key x) = Inr i"
  shows "index_lookup key (xs[i := x]) = (index_lookup key xs)(key x \<mapsto> x)"
    and "sorted_keys key (xs[i := x])"
proof -
  note hit = binary_search_Inr [OF assms(2)]
  have "map key (xs[i := x]) = map key xs"
    using hit(1,2) by (simp add: map_update list_update_same_conv)
  then show srt: "sorted_keys key (xs[i := x])" using assms(1) by simp
  have nlo: "index_lookup key (take i xs) (key x) = None"
  proof -
    have "sorted_keys key (take i xs @ xs ! i # drop (Suc i) xs)" using assms(1) by (simp only: hit(3) [symmetric])
    then show ?thesis using hit(2) unfolding map_append sorted_wrt_append
      by (auto simp: index_lookup_None_iff)
  qed
  have at: "index_lookup key xs k =
      (case index_lookup key (take i xs) k of
         None \<Rightarrow> if key (xs ! i) = k then Some (xs ! i) else index_lookup key (drop (Suc i) xs) k
       | Some y \<Rightarrow> Some y)" for k
    by (subst hit(3)) (simp add: index_lookup_append split: option.split)
  have "xs[i := x] = take i xs @ x # drop (Suc i) xs" using hit(1) by (rule upd_conv_take_nth_drop)
  then show "index_lookup key (xs[i := x]) = (index_lookup key xs)(key x \<mapsto> x)"
    using nlo hit(2) by (auto simp: fun_eq_iff index_lookup_append at split: option.splits)
qed

lemma remove_at_lookup:
  assumes "sorted_keys key xs" and "binary_search_by key xs k = Inr i"
  shows "index_lookup key (remove_at i xs) = (index_lookup key xs)(k := None)"
    and "sorted_keys key (remove_at i xs)"
proof -
  note hit = binary_search_Inr [OF assms(2)]
  have srt: "sorted_keys key (take i xs @ xs ! i # drop (Suc i) xs)" using assms(1) by (simp only: hit(3) [symmetric])
  then have "k \<notin> key ` set (take i xs)" and "k \<notin> key ` set (drop (Suc i) xs)"
    using hit(2) unfolding map_append sorted_wrt_append by auto
  then have "index_lookup key (take i xs) k = None" "index_lookup key (drop (Suc i) xs) k = None"
    by (simp_all add: index_lookup_None_iff)
  moreover have "index_lookup key xs j =
      (case index_lookup key (take i xs) j of
         None \<Rightarrow> if key (xs ! i) = j then Some (xs ! i) else index_lookup key (drop (Suc i) xs) j
       | Some y \<Rightarrow> Some y)" for j
    by (subst hit(3)) (simp add: index_lookup_append split: option.split)
  ultimately show "index_lookup key (remove_at i xs) = (index_lookup key xs)(k := None)"
    using hit(2) by (auto simp: remove_at_def fun_eq_iff index_lookup_append split: option.splits)
  show "sorted_keys key (remove_at i xs)"
    using srt unfolding remove_at_def map_append sorted_wrt_append by auto
qed

lemma index_lookup_miss:
  assumes "sorted_keys key xs" and "binary_search_by key xs k = Inl i"
  shows "index_lookup key xs k = None"
  using binary_search_found_iff [OF assms(1), of k] assms(2) by (auto simp: index_lookup_None_iff)

text \<open>The same content has one sorted representation.\<close>

lemma index_lookup_hit:
  assumes "sorted_keys key xs" and "binary_search_by key xs k = Inr i"
  shows "index_lookup key xs k = Some (xs ! i)"
  using binary_search_Inr(1,2) [OF assms(2)] by (auto simp: index_lookup_Some_iff [OF assms(1)])


lemma sorted_keys_unique:
  assumes "sorted_keys key xs" and "sorted_keys key ys"
    and "index_lookup key xs = index_lookup key ys"
  shows "xs = ys"
proof -
  have "set xs = set ys"
    using index_lookup_Some_iff [OF assms(1)] index_lookup_Some_iff [OF assms(2)] assms(3)
    by (metis subsetI subset_antisym)
  moreover have "sorted (map key xs)" "sorted (map key ys)"
    "distinct (map key xs)" "distinct (map key ys)"
    using assms(1,2) by (auto simp: strict_sorted_iff)
  ultimately show ?thesis
    by (metis map_sorted_distinct_set_unique distinct_map inj_on_subset sup.idem)
qed

subsection \<open>The contract of a sorted index\<close>

locale sorted_index =
  fixes key :: "'e \<Rightarrow> 'k::linorder"
    and entries :: "'s \<Rightarrow> 'e list"
    and ins :: "'e \<Rightarrow> 's \<Rightarrow> 's"
    and del :: "'k \<Rightarrow> 's \<Rightarrow> 's"
  assumes sorted_ins: "sorted_keys key (entries s) \<Longrightarrow> sorted_keys key (entries (ins e s))"
    and sorted_del: "sorted_keys key (entries s) \<Longrightarrow> sorted_keys key (entries (del k s))"
    and lookup_ins: "sorted_keys key (entries s) \<Longrightarrow>
      index_lookup key (entries (ins e s)) = (index_lookup key (entries s))(key e \<mapsto> e)"
    and lookup_del: "sorted_keys key (entries s) \<Longrightarrow>
      index_lookup key (entries (del k s)) = (index_lookup key (entries s))(k := None)"
begin

lemma set_ins:
  assumes "sorted_keys key (entries s)"
  shows "set (entries (ins e s)) = insert e {x \<in> set (entries s). key x \<noteq> key e}"
proof (rule set_eqI)
  fix x
  have "x \<in> set (entries (ins e s)) \<longleftrightarrow> index_lookup key (entries (ins e s)) (key x) = Some x"
    by (simp add: index_lookup_Some_iff [OF sorted_ins [OF assms]])
  also have "\<dots> \<longleftrightarrow> x \<in> insert e {x \<in> set (entries s). key x \<noteq> key e}"
    by (auto simp: lookup_ins [OF assms] index_lookup_Some_iff [OF assms])
  finally show "x \<in> set (entries (ins e s)) \<longleftrightarrow> x \<in> insert e {x \<in> set (entries s). key x \<noteq> key e}" .
qed

lemma set_del:
  assumes "sorted_keys key (entries s)"
  shows "set (entries (del k s)) = {x \<in> set (entries s). key x \<noteq> k}"
proof (rule set_eqI)
  fix x
  have "x \<in> set (entries (del k s)) \<longleftrightarrow> index_lookup key (entries (del k s)) (key x) = Some x"
    by (simp add: index_lookup_Some_iff [OF sorted_del [OF assms]])
  also have "\<dots> \<longleftrightarrow> x \<in> {x \<in> set (entries s). key x \<noteq> k}"
    by (auto simp: lookup_del [OF assms] index_lookup_Some_iff [OF assms])
  finally show "x \<in> set (entries (del k s)) \<longleftrightarrow> x \<in> {x \<in> set (entries s). key x \<noteq> k}" .
qed

lemma entries_order_independent:
  assumes "sorted_keys key (entries s)" and "key e \<noteq> key f"
  shows "entries (ins e (ins f s)) = entries (ins f (ins e s))"
  by (rule sorted_keys_unique [of key])
    (use assms in \<open>auto simp: sorted_ins lookup_ins fun_upd_twist\<close>)

lemma del_ins_restores:
  assumes "sorted_keys key (entries s)" and "key e \<notin> key ` set (entries s)"
  shows "entries (del (key e) (ins e s)) = entries s"
  by (rule sorted_keys_unique [of key])
    (use assms in \<open>auto simp: sorted_ins sorted_del lookup_ins lookup_del fun_upd_idem
      index_lookup_None_iff\<close>)

end

end
