(* ===== verification/Runtime_State.thy ===== *)
theory Runtime_State
  imports Keys Sorted_Index
begin

text \<open>
  Typed access to the runtime state (\<open>state.rs\<close>): the codec and signature primitives the runtime
  calls, \<open>read_record\<close> / \<open>read_canonical\<close> / \<open>write_record\<close>, one load/store pair per record, the
  sorted indexes (validator set, candidates, registrations), the governable policy and the
  participation record.

  The state a handler sees is a map from key bytes to value bytes. Borsh, BLAKE3 and Ed25519 are
  third-party crates: they are the fields of \<open>externals\<close>, an argument of every definition that
  uses them. The interface \<open>borsh\<close> names what the runtime relies on, that decoding an encoding
  gives the value back.
\<close>

type_synonym state = "bytes \<Rightarrow> bytes option"

record 'a codec =
  enc :: "'a \<Rightarrow> bytes"
  dec :: "bytes \<Rightarrow> 'a option"

record externals =
  account_codec :: "account codec"
  validator_codec :: "validator codec"
  validator_set_codec :: "validator_set codec"
  bonding_codec :: "bonding codec"
  registration_codec :: "validator_registration codec"
  registrations_codec :: "validator_registrations codec"
  withdrawal_queue_codec :: "withdrawal_queue codec"
  candidates_codec :: "consensus_candidates codec"
  participation_codec :: "participation_report codec"
  addresses_codec :: "address list codec"
  policy_codec :: "runtime_policy codec"
  proposal_codec :: "upgrade_proposal codec"
  scheduled_codec :: "scheduled_upgrade codec"
  sanction_queue_codec :: "pending_sanction list codec"
  marker_keys_codec :: "bytes list codec"
  totals_codec :: "settlement_totals codec"
  transaction_codec :: "transaction codec"
  action_codec :: "proposal_action codec"
  context_codec :: "evidence_context codec"
  blake3 :: "bytes \<Rightarrow> hash"
  verifying_key_ok :: "address \<Rightarrow> bool"
  verify_strict :: "address \<Rightarrow> bytes \<Rightarrow> ed25519_signature \<Rightarrow> bool"

definition codec_law :: "'a codec \<Rightarrow> bool" where
  "codec_law c \<longleftrightarrow> (\<forall>x. dec c (enc c x) = Some x)"

text \<open>
  Decoding a transaction rejects an opening of the wrong shape (\<open>HistoryPath::deserialize_reader\<close>);
  every other record decodes whatever was encoded.
\<close>

definition history_path_shape :: "history_path \<Rightarrow> bool" where
  "history_path_shape p \<longleftrightarrow> \<not> (hp_index p \<ge> hp_count p \<or> length (hp_siblings p) \<noteq> 64)"

definition decodable :: "transaction \<Rightarrow> bool" where
  "decodable tx =
     (case tx of SubmitEvidence submission \<Rightarrow> history_path_shape (sub_history submission) | _ \<Rightarrow> True)"

locale borsh =
  fixes E :: externals
  assumes account_law: "codec_law (account_codec E)"
    and validator_law: "codec_law (validator_codec E)"
    and validator_set_law: "codec_law (validator_set_codec E)"
    and bonding_law: "codec_law (bonding_codec E)"
    and registration_law: "codec_law (registration_codec E)"
    and registrations_law: "codec_law (registrations_codec E)"
    and withdrawal_queue_law: "codec_law (withdrawal_queue_codec E)"
    and candidates_law: "codec_law (candidates_codec E)"
    and participation_law: "codec_law (participation_codec E)"
    and addresses_law: "codec_law (addresses_codec E)"
    and policy_law: "codec_law (policy_codec E)"
    and proposal_law: "codec_law (proposal_codec E)"
    and scheduled_law: "codec_law (scheduled_codec E)"
    and sanction_queue_law: "codec_law (sanction_queue_codec E)"
    and marker_keys_law: "codec_law (marker_keys_codec E)"
    and totals_law: "codec_law (totals_codec E)"
    and transaction_law: "decodable tx \<Longrightarrow> dec (transaction_codec E) (enc (transaction_codec E) tx) = Some tx"
    and action_law: "codec_law (action_codec E)"
    and context_law: "codec_law (context_codec E)"

subsection \<open>Record access\<close>

definition read_record :: "'a codec \<Rightarrow> state \<Rightarrow> bytes \<Rightarrow> 'a option" where
  "read_record c s k = Option.bind (s k) (dec c)"

text \<open>A panic of the source is \<open>Inl\<close> of its message.\<close>

definition read_canonical :: "'a codec \<Rightarrow> state \<Rightarrow> bytes \<Rightarrow> string + 'a option" where
  "read_canonical c s k =
     (case s k of
        None \<Rightarrow> Inr None
      | Some b \<Rightarrow> (case dec c b of None \<Rightarrow> Inl ''canonical runtime record'' | Some x \<Rightarrow> Inr (Some x)))"

definition write_record :: "'a codec \<Rightarrow> state \<Rightarrow> bytes \<Rightarrow> 'a \<Rightarrow> state" where
  "write_record c s k v = s(k \<mapsto> enc c v)"

definition delete :: "state \<Rightarrow> bytes \<Rightarrow> state" where
  "delete s k = s(k := None)"

lemma read_record_upd [slot_ops]:
  "read_record c (s(key_bytes k := v)) (key_bytes l) =
     (if k = l then Option.bind v (dec c) else read_record c s (key_bytes l))"
  by (simp add: read_record_def)

lemma read_canonical_upd [slot_ops]:
  "k \<noteq> l \<Longrightarrow> read_canonical c (s(key_bytes k := v)) (key_bytes l) = read_canonical c s (key_bytes l)"
  by (simp add: read_canonical_def)

lemma codec_law_dec: "codec_law c \<Longrightarrow> dec c (enc c x) = Some x"
  by (simp add: codec_law_def)

subsection \<open>Runtime policy\<close>

definition BASIS_POINTS :: u16 where "BASIS_POINTS = 10000"
definition DEFAULT_REPORTER_REWARD_BPS :: u16 where "DEFAULT_REPORTER_REWARD_BPS = 1000"
definition MAX_PENDING :: u32 where "MAX_PENDING = 4096"
definition DEFAULT_UNBONDING_DELAY_BLOCKS :: u64 where
  "DEFAULT_UNBONDING_DELAY_BLOCKS = 14 * 24 * 60 * 60 div 4"

definition default_runtime_params :: runtime_params where
  "default_runtime_params =
     \<lparr>rp_evidence_max_age_blocks = 1024,
      rp_evidence_max_pending = 1024,
      rp_evidence_admissions_per_block = 16,
      rp_evidence_executions_per_block = 16,
      rp_gas_price = 1,
      rp_min_validator_stake = 32000000000,
      rp_unbonding_delay_blocks = DEFAULT_UNBONDING_DELAY_BLOCKS,
      rp_slash_amount = - 1,
      rp_inactivity_leak_amount = 1\<rparr>"

definition from_params :: "runtime_params \<Rightarrow> runtime_policy" where
  "from_params params =
     \<lparr>gas_price = rp_gas_price params,
      min_validator_stake = rp_min_validator_stake params,
      evidence_max_age_blocks = rp_evidence_max_age_blocks params,
      evidence_max_pending = rp_evidence_max_pending params,
      evidence_admissions_per_block = rp_evidence_admissions_per_block params,
      evidence_executions_per_block = rp_evidence_executions_per_block params,
      slash_amount = rp_slash_amount params,
      inactivity_leak_amount = rp_inactivity_leak_amount params,
      reporter_reward_bps = DEFAULT_REPORTER_REWARD_BPS\<rparr>"

definition default_runtime_policy :: runtime_policy where
  "default_runtime_policy = from_params default_runtime_params"

definition policy_is_well_formed :: "runtime_policy \<Rightarrow> bool" where
  "policy_is_well_formed p \<longleftrightarrow>
     gas_price p > 0
     \<and> min_validator_stake p > 0
     \<and> evidence_max_age_blocks p > 0
     \<and> evidence_max_pending p > 0
     \<and> evidence_max_pending p \<le> MAX_PENDING
     \<and> evidence_admissions_per_block p > 0
     \<and> evidence_admissions_per_block p \<le> evidence_max_pending p
     \<and> evidence_executions_per_block p > 0
     \<and> evidence_executions_per_block p \<le> evidence_max_pending p
     \<and> reporter_reward_bps p \<le> BASIS_POINTS"

definition anchor_is_well_formed :: "evidence_anchor \<Rightarrow> bool" where
  "anchor_is_well_formed a \<longleftrightarrow> ea_chunk_size a > 0 \<and> ea_unbonding_delay_blocks a > ea_chunk_size a"

definition policy_is_valid_for :: "runtime_policy \<Rightarrow> evidence_anchor \<Rightarrow> bool" where
  "policy_is_valid_for p anchor \<longleftrightarrow>
     policy_is_well_formed p
     \<and> anchor_is_well_formed anchor
     \<and> evidence_max_age_blocks p < ea_unbonding_delay_blocks anchor"

definition load_runtime_policy :: "externals \<Rightarrow> state \<Rightarrow> runtime_policy" where
  "load_runtime_policy E s =
     unwrap_or (read_record (policy_codec E) s RUNTIME_POLICY_KEY) default_runtime_policy"

definition store_runtime_policy :: "externals \<Rightarrow> state \<Rightarrow> runtime_policy \<Rightarrow> state" where
  "store_runtime_policy E s policy = write_record (policy_codec E) s RUNTIME_POLICY_KEY policy"

subsection \<open>Sorted indexes\<close>

definition candidates_upsert :: "consensus_candidate \<Rightarrow> consensus_candidates \<Rightarrow> consensus_candidates" where
  "candidates_upsert candidate cs =
     (case binary_search_by cand_address (cc_entries cs) (cand_address candidate) of
        Inr index \<Rightarrow> cs\<lparr>cc_entries := (cc_entries cs)[index := candidate]\<rparr>
      | Inl index \<Rightarrow> cs\<lparr>cc_entries := insert_at index candidate (cc_entries cs)\<rparr>)"

definition candidates_remove :: "address \<Rightarrow> consensus_candidates \<Rightarrow> consensus_candidates \<times> bool" where
  "candidates_remove addr cs =
     (case binary_search_by cand_address (cc_entries cs) addr of
        Inr index \<Rightarrow> (cs\<lparr>cc_entries := remove_at index (cc_entries cs)\<rparr>, True)
      | Inl _ \<Rightarrow> (cs, False))"

definition candidates_get :: "address \<Rightarrow> consensus_candidates \<Rightarrow> consensus_candidate option" where
  "candidates_get addr cs =
     (case binary_search_by cand_address (cc_entries cs) addr of
        Inr index \<Rightarrow> Some (cc_entries cs ! index)
      | Inl _ \<Rightarrow> None)"

definition candidates_contains :: "address \<Rightarrow> consensus_candidates \<Rightarrow> bool" where
  "candidates_contains addr cs \<longleftrightarrow> candidates_get addr cs \<noteq> None"

definition DOMAIN_CONSENSUS_CANDIDATES_ROOT :: bytes where
  "DOMAIN_CONSENSUS_CANDIDATES_ROOT = ascii ''NTRO/candidates'' @ [0]"

definition candidates_root :: "externals \<Rightarrow> consensus_candidates \<Rightarrow> hash" where
  "candidates_root E cs = blake3 E (DOMAIN_CONSENSUS_CANDIDATES_ROOT @ enc (candidates_codec E) cs)"

definition validator_set_upsert :: "address \<Rightarrow> u128 \<Rightarrow> validator_set \<Rightarrow> validator_set" where
  "validator_set_upsert addr stk vs =
     (case binary_search_by vse_address (vs_entries vs) addr of
        Inr idx \<Rightarrow> vs\<lparr>vs_entries := (vs_entries vs)[idx := (vs_entries vs ! idx)\<lparr>vse_stake := stk\<rparr>]\<rparr>
      | Inl idx \<Rightarrow>
          vs\<lparr>vs_entries := insert_at idx \<lparr>vse_address = addr, vse_stake = stk\<rparr> (vs_entries vs)\<rparr>)"

definition validator_set_remove :: "address \<Rightarrow> validator_set \<Rightarrow> validator_set \<times> bool" where
  "validator_set_remove addr vs =
     (case binary_search_by vse_address (vs_entries vs) addr of
        Inr idx \<Rightarrow> (vs\<lparr>vs_entries := remove_at idx (vs_entries vs)\<rparr>, True)
      | Inl _ \<Rightarrow> (vs, False))"

definition total_stake :: "validator_set \<Rightarrow> u128" where
  "total_stake vs = foldl (\<lambda>total entry. saturating_add total (vse_stake entry)) 0 (vs_entries vs)"

definition registrations_contains :: "address \<Rightarrow> validator_registrations \<Rightarrow> bool" where
  "registrations_contains addr rs \<longleftrightarrow>
     (case binary_search_by id (reg_addresses rs) addr of Inr _ \<Rightarrow> True | Inl _ \<Rightarrow> False)"

definition registrations_insert ::
  "address \<Rightarrow> validator_registrations \<Rightarrow> validator_registrations \<times> bool" where
  "registrations_insert addr rs =
     (case binary_search_by id (reg_addresses rs) addr of
        Inr _ \<Rightarrow> (rs, False)
      | Inl idx \<Rightarrow> (rs\<lparr>reg_addresses := insert_at idx addr (reg_addresses rs)\<rparr>, True))"

definition registrations_remove ::
  "address \<Rightarrow> validator_registrations \<Rightarrow> validator_registrations \<times> bool" where
  "registrations_remove addr rs =
     (case binary_search_by id (reg_addresses rs) addr of
        Inr idx \<Rightarrow> (rs\<lparr>reg_addresses := remove_at idx (reg_addresses rs)\<rparr>, True)
      | Inl _ \<Rightarrow> (rs, False))"

interpretation candidates: sorted_index cand_address cc_entries candidates_upsert
  "\<lambda>a cs. fst (candidates_remove a cs)"
  by unfold_locales
    (auto simp: candidates_upsert_def candidates_remove_def insert_at_lookup replace_at_lookup
      remove_at_lookup index_lookup_miss fun_upd_idem split: sum.splits)

interpretation validators: sorted_index vse_address vs_entries
  "\<lambda>e. validator_set_upsert (vse_address e) (vse_stake e)" "\<lambda>a vs. fst (validator_set_remove a vs)"
proof unfold_locales
  fix e :: validator_set_entry and vs :: validator_set
  assume srt: "sorted_keys vse_address (vs_entries vs)"
  have hit: "(vs_entries vs ! i)\<lparr>vse_stake := vse_stake e\<rparr> = e"
    if "binary_search_by vse_address (vs_entries vs) (vse_address e) = Inr i" for i
    using binary_search_Inr(2) [OF that] by simp
  have e: "\<lparr>vse_address = vse_address e, vse_stake = vse_stake e\<rparr> = e" by simp
  show "sorted_keys vse_address (vs_entries (validator_set_upsert (vse_address e) (vse_stake e) vs))"
    and "index_lookup vse_address (vs_entries (validator_set_upsert (vse_address e) (vse_stake e) vs))
      = (index_lookup vse_address (vs_entries vs))(vse_address e \<mapsto> e)"
    using srt
    by (auto simp: validator_set_upsert_def e insert_at_lookup hit replace_at_lookup
        simp del: validator_set_entry.simps split: sum.splits)
next
  fix k :: address and vs :: validator_set
  assume srt: "sorted_keys vse_address (vs_entries vs)"
  then show "sorted_keys vse_address (vs_entries (fst (validator_set_remove k vs)))"
    and "index_lookup vse_address (vs_entries (fst (validator_set_remove k vs)))
      = (index_lookup vse_address (vs_entries vs))(k := None)"
    by (auto simp: validator_set_remove_def remove_at_lookup index_lookup_miss fun_upd_idem
        split: sum.splits)
qed

interpretation registrations: sorted_index id reg_addresses
  "\<lambda>a rs. fst (registrations_insert a rs)" "\<lambda>a rs. fst (registrations_remove a rs)"
proof unfold_locales
  fix e :: address and rs :: validator_registrations
  assume srt: "sorted_keys id (reg_addresses rs)"
  have hit: "index_lookup id (reg_addresses rs) e = Some e"
    if "binary_search_by id (reg_addresses rs) e = Inr i" for i
    using binary_search_Inr(1,2) [OF that] index_lookup_Some_iff [OF srt, of e e] by force
  show "sorted_keys id (reg_addresses (fst (registrations_insert e rs)))"
    and "index_lookup id (reg_addresses (fst (registrations_insert e rs)))
      = (index_lookup id (reg_addresses rs))(id e \<mapsto> e)"
    and "sorted_keys id (reg_addresses (fst (registrations_remove e rs)))"
    and "index_lookup id (reg_addresses (fst (registrations_remove e rs)))
      = (index_lookup id (reg_addresses rs))(e := None)"
    using srt insert_at_lookup [OF srt, of e] remove_at_lookup [OF srt, of e]
      index_lookup_miss [OF srt, of e] hit
    by (auto simp: registrations_insert_def registrations_remove_def fun_upd_idem
        split: sum.splits)
qed

lemma candidates_get_lookup:
  "sorted_keys cand_address (cc_entries cs) \<Longrightarrow>
     candidates_get addr cs = index_lookup cand_address (cc_entries cs) addr"
  by (auto simp: candidates_get_def index_lookup_miss index_lookup_hit split: sum.splits)

lemma registrations_contains_iff:
  "sorted_keys id (reg_addresses rs) \<Longrightarrow>
     registrations_contains addr rs \<longleftrightarrow> addr \<in> set (reg_addresses rs)"
  using binary_search_found_iff [of id "reg_addresses rs" addr]
  by (auto simp: registrations_contains_def split: sum.splits)

lemma unat_total_stake:
  "unat (total_stake vs) = min (2 ^ 128 - 1) (sum_list (map (\<lambda>e. unat (vse_stake e)) (vs_entries vs)))"
  unfolding total_stake_def by (subst unat_saturating_foldl) simp

subsection \<open>Accounts, validators, bonding\<close>

definition default_account :: account where
  "default_account = \<lparr>nonce = 0, balance = 0\<rparr>"

definition default_validator :: validator where
  "default_validator = \<lparr>stake = 0, active = False\<rparr>"

definition load_account :: "externals \<Rightarrow> state \<Rightarrow> address \<Rightarrow> account" where
  "load_account E s addr = unwrap_or (read_record (account_codec E) s (account_key addr)) default_account"

definition store_account :: "externals \<Rightarrow> state \<Rightarrow> address \<Rightarrow> account \<Rightarrow> state" where
  "store_account E s addr acc = write_record (account_codec E) s (account_key addr) acc"

definition load_validator_record :: "externals \<Rightarrow> state \<Rightarrow> address \<Rightarrow> validator option" where
  "load_validator_record E s addr = read_record (validator_codec E) s (validator_key addr)"

definition load_validator :: "externals \<Rightarrow> state \<Rightarrow> address \<Rightarrow> validator" where
  "load_validator E s addr = unwrap_or (load_validator_record E s addr) default_validator"

definition store_validator :: "externals \<Rightarrow> state \<Rightarrow> address \<Rightarrow> validator \<Rightarrow> state" where
  "store_validator E s addr v = write_record (validator_codec E) s (validator_key addr) v"

definition load_validator_set :: "externals \<Rightarrow> state \<Rightarrow> validator_set" where
  "load_validator_set E s =
     unwrap_or (read_record (validator_set_codec E) s VALIDATOR_SET_KEY) \<lparr>vs_entries = []\<rparr>"

definition store_validator_set :: "externals \<Rightarrow> state \<Rightarrow> validator_set \<Rightarrow> state" where
  "store_validator_set E s vs = write_record (validator_set_codec E) s VALIDATOR_SET_KEY vs"

definition load_bonding :: "externals \<Rightarrow> state \<Rightarrow> address \<Rightarrow> bonding option" where
  "load_bonding E s addr = read_record (bonding_codec E) s (bonding_key addr)"

definition store_bonding :: "externals \<Rightarrow> state \<Rightarrow> address \<Rightarrow> bonding \<Rightarrow> state" where
  "store_bonding E s addr b = write_record (bonding_codec E) s (bonding_key addr) b"

subsection \<open>Consensus-facing records\<close>

definition load_consensus_candidates :: "externals \<Rightarrow> state \<Rightarrow> consensus_candidates" where
  "load_consensus_candidates E s =
     unwrap_or (read_record (candidates_codec E) s CONSENSUS_CANDIDATES_KEY) \<lparr>cc_entries = []\<rparr>"

definition store_consensus_candidates :: "externals \<Rightarrow> state \<Rightarrow> consensus_candidates \<Rightarrow> state" where
  "store_consensus_candidates E s cs = write_record (candidates_codec E) s CONSENSUS_CANDIDATES_KEY cs"

definition load_participation :: "externals \<Rightarrow> state \<Rightarrow> participation_report option" where
  "load_participation E s = read_record (participation_codec E) s PARTICIPATION_KEY"

definition HISTORY_RETENTION_CHUNKS :: u64 where "HISTORY_RETENTION_CHUNKS = 8"

definition NO_PARTICIPATION :: hash where "NO_PARTICIPATION = 0"

definition DOMAIN_PARTICIPATION :: bytes where "DOMAIN_PARTICIPATION = ascii ''NEUTRINO_PARTICI''"

definition tagged_commitment :: "externals \<Rightarrow> bytes \<Rightarrow> 'a codec \<Rightarrow> 'a \<Rightarrow> hash" where
  "tagged_commitment E tag c v = blake3 E (tag @ enc c v)"

definition participation_commitment :: "externals \<Rightarrow> participation_report option \<Rightarrow> hash" where
  "participation_commitment E report =
     (case report of
        None \<Rightarrow> NO_PARTICIPATION
      | Some r \<Rightarrow> tagged_commitment E DOMAIN_PARTICIPATION (participation_codec E) r)"

definition apply_participation ::
  "externals \<Rightarrow> state \<Rightarrow> participation_report option \<Rightarrow> hash \<times> state" where
  "apply_participation E s report =
     (let s' =
        (case report of
           None \<Rightarrow> s
         | Some r \<Rightarrow>
             if (case load_participation E s of None \<Rightarrow> True | Some latest \<Rightarrow> pr_chunk_id latest < pr_chunk_id r)
             then
               let s1 = write_record (participation_codec E) s PARTICIPATION_KEY r;
                   s2 = write_record (addresses_codec E) s1 (absent_key (pr_chunk_id r)) (pr_absent r)
               in (case checked_sub (pr_chunk_id r) HISTORY_RETENTION_CHUNKS of
                     None \<Rightarrow> s2
                   | Some expired \<Rightarrow> delete s2 (absent_key expired))
             else s)
      in (participation_commitment E report, s'))"

definition certified_absent :: "externals \<Rightarrow> state \<Rightarrow> u64 \<Rightarrow> address \<Rightarrow> string + bool" where
  "certified_absent E s chunk_id addr =
     res_bind (read_canonical (addresses_codec E) s (absent_key chunk_id))
       (\<lambda>absent. Inr (case absent of None \<Rightarrow> False | Some xs \<Rightarrow> addr \<in> set xs))"

subsection \<open>Registrations and withdrawals\<close>

definition load_validator_registrations :: "externals \<Rightarrow> state \<Rightarrow> validator_registrations" where
  "load_validator_registrations E s =
     unwrap_or (read_record (registrations_codec E) s VALIDATOR_REGISTRATIONS_KEY) \<lparr>reg_addresses = []\<rparr>"

definition store_validator_registrations ::
  "externals \<Rightarrow> state \<Rightarrow> validator_registrations \<Rightarrow> state" where
  "store_validator_registrations E s rs =
     (if reg_addresses rs = [] then delete s VALIDATOR_REGISTRATIONS_KEY
      else write_record (registrations_codec E) s VALIDATOR_REGISTRATIONS_KEY rs)"

definition load_validator_registration ::
  "externals \<Rightarrow> state \<Rightarrow> address \<Rightarrow> validator_registration option" where
  "load_validator_registration E s addr =
     read_record (registration_codec E) s (registration_key addr)"

definition store_validator_registration ::
  "externals \<Rightarrow> state \<Rightarrow> validator_registration \<Rightarrow> state" where
  "store_validator_registration E s r =
     write_record (registration_codec E) s (registration_key (reg_address r)) r"

definition queue_total :: "withdrawal_queue \<Rightarrow> u128" where
  "queue_total q = foldl (\<lambda>total entry. saturating_add total (wd_amount entry)) 0 (wq_entries q)"

definition load_withdrawal_queue :: "externals \<Rightarrow> state \<Rightarrow> address \<Rightarrow> withdrawal_queue" where
  "load_withdrawal_queue E s addr =
     unwrap_or (read_record (withdrawal_queue_codec E) s (withdrawal_key addr)) \<lparr>wq_entries = []\<rparr>"

definition store_withdrawal_queue ::
  "externals \<Rightarrow> state \<Rightarrow> address \<Rightarrow> withdrawal_queue \<Rightarrow> state" where
  "store_withdrawal_queue E s addr q =
     write_record (withdrawal_queue_codec E) s (withdrawal_key addr) q"

subsection \<open>Frame rules\<close>

text \<open>
  A load looks through an update of any other record; each store is the update of its own key.
  Together they decide every load of a state a handler produced.
\<close>

lemma load_upd [slot_ops]:
  "load_account E (s(key_bytes k := v)) a =
     (if k = KAccount a then unwrap_or (Option.bind v (dec (account_codec E))) default_account
      else load_account E s a)"
  "load_validator E (s(key_bytes k := v)) a =
     (if k = KValidator a then unwrap_or (Option.bind v (dec (validator_codec E))) default_validator
      else load_validator E s a)"
  "load_withdrawal_queue E (s(key_bytes k := v)) a =
     (if k = KWithdrawal a then unwrap_or (Option.bind v (dec (withdrawal_queue_codec E))) \<lparr>wq_entries = []\<rparr>
      else load_withdrawal_queue E s a)"
  "load_validator_set E (s(key_bytes k := v)) =
     (if k = KValidatorSet then unwrap_or (Option.bind v (dec (validator_set_codec E))) \<lparr>vs_entries = []\<rparr>
      else load_validator_set E s)"
  "load_consensus_candidates E (s(key_bytes k := v)) =
     (if k = KCandidates then unwrap_or (Option.bind v (dec (candidates_codec E))) \<lparr>cc_entries = []\<rparr>
      else load_consensus_candidates E s)"
  "load_validator_registrations E (s(key_bytes k := v)) =
     (if k = KRegistrations then unwrap_or (Option.bind v (dec (registrations_codec E))) \<lparr>reg_addresses = []\<rparr>
      else load_validator_registrations E s)"
  "load_runtime_policy E (s(key_bytes k := v)) =
     (if k = KPolicy then unwrap_or (Option.bind v (dec (policy_codec E))) default_runtime_policy
      else load_runtime_policy E s)"
  "load_validator_record E (s(key_bytes k := v)) a =
     (if k = KValidator a then Option.bind v (dec (validator_codec E)) else load_validator_record E s a)"
  "load_bonding E (s(key_bytes k := v)) a =
     (if k = KBonding a then Option.bind v (dec (bonding_codec E)) else load_bonding E s a)"
  "load_validator_registration E (s(key_bytes k := v)) a =
     (if k = KRegistration a then Option.bind v (dec (registration_codec E)) else load_validator_registration E s a)"
  "load_participation E (s(key_bytes k := v)) =
     (if k = KParticipation then Option.bind v (dec (participation_codec E)) else load_participation E s)"
  by (simp_all add: load_account_def load_validator_def load_withdrawal_queue_def load_validator_set_def load_consensus_candidates_def load_validator_registrations_def load_runtime_policy_def load_validator_record_def load_bonding_def load_validator_registration_def load_participation_def
      read_record_upd)

lemma store_upd [slot_ops]:
  "store_account E s a x = s(key_bytes (KAccount a) \<mapsto> enc (account_codec E) x)"
  "store_validator E s a y = s(key_bytes (KValidator a) \<mapsto> enc (validator_codec E) y)"
  "store_validator_set E s vs = s(key_bytes (KValidatorSet) \<mapsto> enc (validator_set_codec E) vs)"
  "store_bonding E s a b = s(key_bytes (KBonding a) \<mapsto> enc (bonding_codec E) b)"
  "store_consensus_candidates E s cs = s(key_bytes (KCandidates) \<mapsto> enc (candidates_codec E) cs)"
  "store_validator_registration E s r = s(key_bytes (KRegistration (reg_address r)) \<mapsto> enc (registration_codec E) r)"
  "store_withdrawal_queue E s a q = s(key_bytes (KWithdrawal a) \<mapsto> enc (withdrawal_queue_codec E) q)"
  "store_runtime_policy E s p = s(key_bytes (KPolicy) \<mapsto> enc (policy_codec E) p)"
  "store_validator_registrations E s rs =
     s(key_bytes KRegistrations :=
         (if reg_addresses rs = [] then None else Some (enc (registrations_codec E) rs)))"
  by (simp_all add: store_account_def store_validator_def store_validator_set_def store_bonding_def store_consensus_candidates_def store_validator_registration_def store_withdrawal_queue_def store_runtime_policy_def store_validator_registrations_def
      write_record_def delete_def)

lemma delete_upd [slot_ops]: "delete s k = s(k := None)"
  by (simp add: delete_def)

lemma load_validator_eq: "load_validator E s a = unwrap_or (load_validator_record E s a) default_validator"
  by (simp add: load_validator_def)

text \<open>A record read back after its store is the stored record.\<close>

context borsh
begin

lemmas decode_encode [simp] =
  codec_law_dec [OF account_law] codec_law_dec [OF validator_law] codec_law_dec [OF validator_set_law]
  codec_law_dec [OF bonding_law] codec_law_dec [OF registration_law] codec_law_dec [OF registrations_law]
  codec_law_dec [OF withdrawal_queue_law] codec_law_dec [OF candidates_law]
  codec_law_dec [OF participation_law] codec_law_dec [OF addresses_law] codec_law_dec [OF policy_law]
  codec_law_dec [OF proposal_law] codec_law_dec [OF scheduled_law]
  codec_law_dec [OF sanction_queue_law] codec_law_dec [OF marker_keys_law]
  codec_law_dec [OF totals_law] transaction_law codec_law_dec [OF action_law]
  codec_law_dec [OF context_law]

lemma registrations_roundtrip:
  "load_validator_registrations E (store_validator_registrations E s rs) = rs"
  by (cases rs) (simp add: slot_ops)

end

end
