(* ===== verification/Codec_Instance.thy ===== *)
theory Codec_Instance
  imports Runtime_State
begin

text \<open>
  A concrete, executable instance of the serialization interface \<open>borsh\<close>. Borsh's own format is
  a third-party crate; this instance follows its structure (fields in order, a tag byte per
  option and enum variant, little-endian integers) with list elements marked by a continuation
  byte, so that every value of the model has an encoding. It shows that the interface can be met
  and gives the concrete inputs of the development something to run on.
\<close>

record 'a wire =
  put :: "'a \<Rightarrow> bytes"
  get :: "bytes \<Rightarrow> ('a \<times> bytes) option"

definition wire_law :: "'a wire \<Rightarrow> bool" where
  "wire_law w \<longleftrightarrow> (\<forall>x r. get w (put w x @ r) = Some (x, r))"

definition codec_of :: "'a wire \<Rightarrow> 'a codec" where
  "codec_of w =
     \<lparr>enc = put w, dec = (\<lambda>b. case get w b of Some (x, []) \<Rightarrow> Some x | _ \<Rightarrow> None)\<rparr>"

subsection \<open>Integers\<close>

definition of_le_bytes :: "bytes \<Rightarrow> 'a::len word" where
  "of_le_bytes bs = word_of_int (horner_sum uint 256 bs)"

definition word_wire :: "nat \<Rightarrow> 'a::len word wire" where
  "word_wire n =
     \<lparr>put = le_bytes n,
      get = (\<lambda>b. if n \<le> length b then Some (of_le_bytes (take n b), drop n b) else None)\<rparr>"

lemma horner_le_bytes:
  "horner_sum uint 256 (le_bytes n w) = uint w mod 2 ^ (8 * n)" for w :: "'a::len word"
proof (induction n arbitrary: w)
  case 0
  then show ?case by (simp add: le_bytes_def)
next
  case (Suc n)
  have "le_bytes (Suc n) w = ucast w # le_bytes n (drop_bit 8 w)"
    by (simp add: le_bytes_def upt_conv_Cons map_Suc_upt [symmetric] comp_def algebra_simps
        del: upt_Suc)
  moreover have "uint (ucast w :: u8) = uint w mod 256"
    by (simp add: unsigned_ucast_eq take_bit_eq_mod)
  moreover have "uint (drop_bit 8 w) = uint w div 256"
    by (simp only: unsigned_drop_bit_eq) (simp add: drop_bit_eq_div take_bit_int_eq_self uint_bounded)
  moreover have "uint w mod 256 + 256 * (uint w div 256 mod 2 ^ (8 * n)) = uint w mod 2 ^ (8 * Suc n)"
    using zmod_zmult2_eq [of "2 ^ (8 * n)" "uint w" 256] by (simp add: power_add algebra_simps)
  ultimately show ?case by (simp add: Suc.IH)
qed

lemma of_le_bytes_le_bytes:
  "LENGTH('a) = 8 * n \<Longrightarrow> of_le_bytes (le_bytes n w) = w" for w :: "'a::len word"
  using uint_bounded [of w] by (simp add: of_le_bytes_def horner_le_bytes)

lemma word_wire_law [intro!]: "LENGTH('a) = 8 * n \<Longrightarrow> wire_law (word_wire n :: 'a::len word wire)"
  by (simp add: wire_law_def word_wire_def of_le_bytes_le_bytes)

subsection \<open>Combinators\<close>

definition bool_wire :: "bool wire" where
  "bool_wire =
     \<lparr>put = (\<lambda>x. [if x then 1 else 0]),
      get = (\<lambda>b. case b of [] \<Rightarrow> None | t # r \<Rightarrow> if t = 0 then Some (False, r)
              else if t = 1 then Some (True, r) else None)\<rparr>"

definition pair_wire :: "'a wire \<Rightarrow> 'b wire \<Rightarrow> ('a \<times> 'b) wire" where
  "pair_wire v w =
     \<lparr>put = (\<lambda>(x, y). put v x @ put w y),
      get = (\<lambda>b. case get v b of None \<Rightarrow> None | Some (x, r) \<Rightarrow>
              (case get w r of None \<Rightarrow> None | Some (y, q) \<Rightarrow> Some ((x, y), q)))\<rparr>"

definition sum_wire :: "'a wire \<Rightarrow> 'b wire \<Rightarrow> ('a + 'b) wire" where
  "sum_wire v w =
     \<lparr>put = (\<lambda>x. case x of Inl y \<Rightarrow> 0 # put v y | Inr z \<Rightarrow> 1 # put w z),
      get = (\<lambda>b. case b of [] \<Rightarrow> None | t # r \<Rightarrow>
              if t = 0 then map_option (\<lambda>(x, q). (Inl x, q)) (get v r)
              else if t = 1 then map_option (\<lambda>(x, q). (Inr x, q)) (get w r) else None)\<rparr>"

definition iso_wire :: "('a \<Rightarrow> 'b) \<Rightarrow> ('b \<Rightarrow> 'a) \<Rightarrow> 'b wire \<Rightarrow> 'a wire" where
  "iso_wire f g w = \<lparr>put = put w \<circ> f, get = (\<lambda>b. map_option (\<lambda>(x, r). (g x, r)) (get w b))\<rparr>"

definition unit_wire :: "unit wire" where
  "unit_wire = \<lparr>put = (\<lambda>_. []), get = (\<lambda>b. Some ((), b))\<rparr>"

primrec put_list :: "('a \<Rightarrow> bytes) \<Rightarrow> 'a list \<Rightarrow> bytes" where
  "put_list p [] = [0]"
| "put_list p (x # xs) = 1 # p x @ put_list p xs"

text \<open>Each element consumes its continuation byte, so the input's length is enough fuel.\<close>

fun get_list :: "nat \<Rightarrow> (bytes \<Rightarrow> ('a \<times> bytes) option) \<Rightarrow> bytes \<Rightarrow> ('a list \<times> bytes) option" where
  "get_list _ _ [] = None"
| "get_list 0 _ (t # r) = (if t = 0 then Some ([], r) else None)"
| "get_list (Suc n) g (t # r) =
     (if t = 0 then Some ([], r)
      else case g r of
             None \<Rightarrow> None
           | Some (x, q) \<Rightarrow> map_option (\<lambda>(xs, z). (x # xs, z)) (get_list n g q))"

definition list_wire :: "'a wire \<Rightarrow> 'a list wire" where
  "list_wire w = \<lparr>put = put_list (put w), get = (\<lambda>b. get_list (length b) (get w) b)\<rparr>"

definition option_wire :: "'a wire \<Rightarrow> 'a option wire" where
  "option_wire w =
     iso_wire (\<lambda>x. case x of None \<Rightarrow> Inl () | Some y \<Rightarrow> Inr y)
       (\<lambda>x. case x of Inl _ \<Rightarrow> None | Inr y \<Rightarrow> Some y) (sum_wire unit_wire w)"

lemma bool_wire_law [intro!]: "wire_law bool_wire"
  by (simp add: wire_law_def bool_wire_def)

lemma unit_wire_law [intro!]: "wire_law unit_wire"
  by (simp add: wire_law_def unit_wire_def)

lemma pair_wire_law [intro!]: "wire_law v \<Longrightarrow> wire_law w \<Longrightarrow> wire_law (pair_wire v w)"
  by (simp add: wire_law_def pair_wire_def)

lemma sum_wire_law [intro!]: "wire_law v \<Longrightarrow> wire_law w \<Longrightarrow> wire_law (sum_wire v w)"
  by (simp add: wire_law_def sum_wire_def split: sum.splits)

lemma iso_wire_law: "(\<And>x. g (f x) = x) \<Longrightarrow> wire_law w \<Longrightarrow> wire_law (iso_wire f g w)"
  by (simp add: wire_law_def iso_wire_def)

lemma option_wire_law [intro!]: "wire_law w \<Longrightarrow> wire_law (option_wire w)"
  unfolding option_wire_def by (intro iso_wire_law) (auto split: option.splits)

lemma get_list_put_list:
  assumes "wire_law w"
  shows "length xs \<le> n \<Longrightarrow> get_list n (get w) (put_list (put w) xs @ r) = Some (xs, r)"
proof (induction xs arbitrary: n)
  case Nil
  then show ?case by (cases n) simp_all
next
  case (Cons x xs)
  then obtain m where m: "n = Suc m" "length xs \<le> m" by (cases n) simp_all
  then show ?case using Cons.IH [of m] assms by (simp add: wire_law_def)
qed

lemma length_put_list: "length xs \<le> length (put_list p xs)"
  by (induction xs) simp_all

lemma list_wire_law [intro!]:
  assumes "wire_law w"
  shows "wire_law (list_wire w)"
  unfolding wire_law_def
proof (intro allI)
  fix xs r
  have "length xs \<le> length (put_list (put w) xs @ r)"
    using length_put_list [of xs "put w"] by simp
  then show "get (list_wire w) (put (list_wire w) xs @ r) = Some (xs, r)"
    using get_list_put_list [OF assms] by (simp add: list_wire_def)
qed

lemma codec_of_law [intro!]:
  assumes "wire_law w"
  shows "codec_law (codec_of w)"
  unfolding codec_law_def
proof
  fix x
  have "get w (put w x) = Some (x, [])" using assms by (metis append_Nil2 wire_law_def)
  then show "dec (codec_of w) (enc (codec_of w) x) = Some x" by (simp add: codec_of_def)
qed

subsection \<open>Records\<close>

definition account_wire :: "account wire" where
  "account_wire = iso_wire
     (\<lambda>x. (nonce x, balance x))
     (\<lambda>(x0, x1). \<lparr>nonce = x0, balance = x1\<rparr>)
     (pair_wire (word_wire 8) (word_wire 16))"

lemma account_wire_law [intro!]: "wire_law account_wire"
  unfolding account_wire_def by (rule iso_wire_law) auto

definition validator_wire :: "validator wire" where
  "validator_wire = iso_wire
     (\<lambda>x. (stake x, active x))
     (\<lambda>(x0, x1). \<lparr>stake = x0, active = x1\<rparr>)
     (pair_wire (word_wire 16) (bool_wire))"

lemma validator_wire_law [intro!]: "wire_law validator_wire"
  unfolding validator_wire_def by (rule iso_wire_law) auto

definition validator_set_entry_wire :: "validator_set_entry wire" where
  "validator_set_entry_wire = iso_wire
     (\<lambda>x. (vse_address x, vse_stake x))
     (\<lambda>(x0, x1). \<lparr>vse_address = x0, vse_stake = x1\<rparr>)
     (pair_wire (word_wire 32) (word_wire 16))"

lemma validator_set_entry_wire_law [intro!]: "wire_law validator_set_entry_wire"
  unfolding validator_set_entry_wire_def by (rule iso_wire_law) auto

definition validator_set_wire :: "validator_set wire" where
  "validator_set_wire = iso_wire
     (\<lambda>x. vs_entries x)
     (\<lambda>x0. \<lparr>vs_entries = x0\<rparr>)
     (list_wire (validator_set_entry_wire))"

lemma validator_set_wire_law [intro!]: "wire_law validator_set_wire"
  unfolding validator_set_wire_def by (rule iso_wire_law) auto

definition bonding_wire :: "bonding wire" where
  "bonding_wire = iso_wire
     (\<lambda>x. (bond_amount x, since_height x))
     (\<lambda>(x0, x1). \<lparr>bond_amount = x0, since_height = x1\<rparr>)
     (pair_wire (word_wire 16) (word_wire 8))"

lemma bonding_wire_law [intro!]: "wire_law bonding_wire"
  unfolding bonding_wire_def by (rule iso_wire_law) auto

definition validator_registration_wire :: "validator_registration wire" where
  "validator_registration_wire = iso_wire
     (\<lambda>x. (reg_address x, reg_bls_pubkey x, reg_pop_signature x, registered_at_height x))
     (\<lambda>(x0, x1, x2, x3). \<lparr>reg_address = x0, reg_bls_pubkey = x1, reg_pop_signature = x2,
       registered_at_height = x3\<rparr>)
     (pair_wire (word_wire 32)
       (pair_wire (word_wire 48)
       (pair_wire (word_wire 96) (word_wire 8))))"

lemma validator_registration_wire_law [intro!]: "wire_law validator_registration_wire"
  unfolding validator_registration_wire_def by (rule iso_wire_law) auto

definition validator_registrations_wire :: "validator_registrations wire" where
  "validator_registrations_wire = iso_wire
     (\<lambda>x. reg_addresses x)
     (\<lambda>x0. \<lparr>reg_addresses = x0\<rparr>)
     (list_wire (word_wire 32))"

lemma validator_registrations_wire_law [intro!]: "wire_law validator_registrations_wire"
  unfolding validator_registrations_wire_def by (rule iso_wire_law) auto

definition withdrawal_wire :: "withdrawal wire" where
  "withdrawal_wire = iso_wire
     (\<lambda>x. (wd_amount x, mature_at_height x))
     (\<lambda>(x0, x1). \<lparr>wd_amount = x0, mature_at_height = x1\<rparr>)
     (pair_wire (word_wire 16) (word_wire 8))"

lemma withdrawal_wire_law [intro!]: "wire_law withdrawal_wire"
  unfolding withdrawal_wire_def by (rule iso_wire_law) auto

definition withdrawal_queue_wire :: "withdrawal_queue wire" where
  "withdrawal_queue_wire = iso_wire
     (\<lambda>x. wq_entries x)
     (\<lambda>x0. \<lparr>wq_entries = x0\<rparr>)
     (list_wire (withdrawal_wire))"

lemma withdrawal_queue_wire_law [intro!]: "wire_law withdrawal_queue_wire"
  unfolding withdrawal_queue_wire_def by (rule iso_wire_law) auto

definition bls_identity_wire :: "bls_identity wire" where
  "bls_identity_wire = iso_wire
     (\<lambda>x. (id_pubkey x, id_pop_signature x))
     (\<lambda>(x0, x1). \<lparr>id_pubkey = x0, id_pop_signature = x1\<rparr>)
     (pair_wire (word_wire 48) (word_wire 96))"

lemma bls_identity_wire_law [intro!]: "wire_law bls_identity_wire"
  unfolding bls_identity_wire_def by (rule iso_wire_law) auto

definition consensus_candidate_wire :: "consensus_candidate wire" where
  "consensus_candidate_wire = iso_wire
     (\<lambda>x. (cand_address x, cand_stake x, cand_identity x))
     (\<lambda>(x0, x1, x2). \<lparr>cand_address = x0, cand_stake = x1, cand_identity = x2\<rparr>)
     (pair_wire (word_wire 32)
       (pair_wire (word_wire 16) (option_wire (bls_identity_wire))))"

lemma consensus_candidate_wire_law [intro!]: "wire_law consensus_candidate_wire"
  unfolding consensus_candidate_wire_def by (rule iso_wire_law) auto

definition consensus_candidates_wire :: "consensus_candidates wire" where
  "consensus_candidates_wire = iso_wire
     (\<lambda>x. cc_entries x)
     (\<lambda>x0. \<lparr>cc_entries = x0\<rparr>)
     (list_wire (consensus_candidate_wire))"

lemma consensus_candidates_wire_law [intro!]: "wire_law consensus_candidates_wire"
  unfolding consensus_candidates_wire_def by (rule iso_wire_law) auto

definition participation_report_wire :: "participation_report wire" where
  "participation_report_wire = iso_wire
     (\<lambda>x. (pr_chunk_id x, pr_present x, pr_absent x))
     (\<lambda>(x0, x1, x2). \<lparr>pr_chunk_id = x0, pr_present = x1, pr_absent = x2\<rparr>)
     (pair_wire (word_wire 8)
       (pair_wire (list_wire (word_wire 32)) (list_wire (word_wire 32))))"

lemma participation_report_wire_law [intro!]: "wire_law participation_report_wire"
  unfolding participation_report_wire_def by (rule iso_wire_law) auto

definition runtime_policy_wire :: "runtime_policy wire" where
  "runtime_policy_wire = iso_wire
     (\<lambda>x. (gas_price x, min_validator_stake x, evidence_max_age_blocks x, evidence_max_pending x,
       evidence_admissions_per_block x, evidence_executions_per_block x, slash_amount x,
       inactivity_leak_amount x, reporter_reward_bps x))
     (\<lambda>(x0, x1, x2, x3, x4, x5, x6, x7, x8). \<lparr>gas_price = x0, min_validator_stake = x1, evidence_max_age_blocks = x2,
       evidence_max_pending = x3, evidence_admissions_per_block = x4,
       evidence_executions_per_block = x5, slash_amount = x6, inactivity_leak_amount = x7,
       reporter_reward_bps = x8\<rparr>)
     (pair_wire (word_wire 16)
       (pair_wire (word_wire 16)
       (pair_wire (word_wire 8)
       (pair_wire (word_wire 4)
       (pair_wire (word_wire 4)
       (pair_wire (word_wire 4)
       (pair_wire (word_wire 16)
       (pair_wire (word_wire 16) (word_wire 2)))))))))"

lemma runtime_policy_wire_law [intro!]: "wire_law runtime_policy_wire"
  unfolding runtime_policy_wire_def by (rule iso_wire_law) auto

definition execution_programs_wire :: "execution_programs wire" where
  "execution_programs_wire = iso_wire
     (\<lambda>x. (ep_fact x, ep_evidence x, ep_block x))
     (\<lambda>(x0, x1, x2). \<lparr>ep_fact = x0, ep_evidence = x1, ep_block = x2\<rparr>)
     (pair_wire (word_wire 32)
       (pair_wire (word_wire 32) (word_wire 32)))"

lemma execution_programs_wire_law [intro!]: "wire_law execution_programs_wire"
  unfolding execution_programs_wire_def by (rule iso_wire_law) auto

definition program_set_wire :: "program_set wire" where
  "program_set_wire = iso_wire
     (\<lambda>x. (ps_runtime_code_hash x, ps_execution x))
     (\<lambda>(x0, x1). \<lparr>ps_runtime_code_hash = x0, ps_execution = x1\<rparr>)
     (pair_wire (word_wire 32) (execution_programs_wire))"

lemma program_set_wire_law [intro!]: "wire_law program_set_wire"
  unfolding program_set_wire_def by (rule iso_wire_law) auto

definition program_artifacts_wire :: "program_artifacts wire" where
  "program_artifacts_wire = iso_wire
     (\<lambda>x. (pa_runtime x, pa_fact x, pa_evidence x, pa_block x))
     (\<lambda>(x0, x1, x2, x3). \<lparr>pa_runtime = x0, pa_fact = x1, pa_evidence = x2, pa_block = x3\<rparr>)
     (pair_wire (word_wire 32)
       (pair_wire (word_wire 32)
       (pair_wire (word_wire 32) (word_wire 32))))"

lemma program_artifacts_wire_law [intro!]: "wire_law program_artifacts_wire"
  unfolding program_artifacts_wire_def by (rule iso_wire_law) auto

definition scheduled_upgrade_wire :: "scheduled_upgrade wire" where
  "scheduled_upgrade_wire = iso_wire
     (\<lambda>x. (su_activate_at_chunk x, su_programs x, su_artifacts x))
     (\<lambda>(x0, x1, x2). \<lparr>su_activate_at_chunk = x0, su_programs = x1, su_artifacts = x2\<rparr>)
     (pair_wire (word_wire 8)
       (pair_wire (program_set_wire) (program_artifacts_wire)))"

lemma scheduled_upgrade_wire_law [intro!]: "wire_law scheduled_upgrade_wire"
  unfolding scheduled_upgrade_wire_def by (rule iso_wire_law) auto

definition consensus_validator_wire :: "consensus_validator wire" where
  "consensus_validator_wire = iso_wire
     (\<lambda>x. (cv_pubkey x, cv_withdrawal_credentials x, cv_effective_stake x, cv_slashed x,
       cv_activation_epoch x, cv_exit_epoch x, cv_last_active_chunk x))
     (\<lambda>(x0, x1, x2, x3, x4, x5, x6). \<lparr>cv_pubkey = x0, cv_withdrawal_credentials = x1, cv_effective_stake = x2,
       cv_slashed = x3, cv_activation_epoch = x4, cv_exit_epoch = x5,
       cv_last_active_chunk = x6\<rparr>)
     (pair_wire (word_wire 48)
       (pair_wire (word_wire 32)
       (pair_wire (word_wire 8)
       (pair_wire (bool_wire)
       (pair_wire (word_wire 8)
       (pair_wire (word_wire 8) (word_wire 8)))))))"

lemma consensus_validator_wire_law [intro!]: "wire_law consensus_validator_wire"
  unfolding consensus_validator_wire_def by (rule iso_wire_law) auto

definition evidence_context_wire :: "evidence_context wire" where
  "evidence_context_wire = iso_wire
     (\<lambda>x. (ec_chunk_id x, ec_chunk_hash x, ec_end_height x, ec_validators_root x, ec_seed x,
       ec_source_block_guest_vk_digest x, ec_source_runtime_code_hash x))
     (\<lambda>(x0, x1, x2, x3, x4, x5, x6). \<lparr>ec_chunk_id = x0, ec_chunk_hash = x1, ec_end_height = x2, ec_validators_root = x3,
       ec_seed = x4, ec_source_block_guest_vk_digest = x5,
       ec_source_runtime_code_hash = x6\<rparr>)
     (pair_wire (word_wire 8)
       (pair_wire (word_wire 32)
       (pair_wire (word_wire 8)
       (pair_wire (word_wire 32)
       (pair_wire (word_wire 32)
       (pair_wire (word_wire 32) (word_wire 32)))))))"

lemma evidence_context_wire_law [intro!]: "wire_law evidence_context_wire"
  unfolding evidence_context_wire_def by (rule iso_wire_law) auto

definition sanction_kind_wire :: "sanction_kind wire" where
  "sanction_kind_wire = iso_wire (\<lambda>k. k = Inactivity) (\<lambda>b. if b then Inactivity else Slash) bool_wire"

lemma sanction_kind_wire_law [intro!]: "wire_law sanction_kind_wire"
  unfolding sanction_kind_wire_def by (rule iso_wire_law) (metis sanction_kind.exhaust, auto)

definition evidence_statement_wire :: "evidence_statement wire" where
  "evidence_statement_wire = iso_wire
     (\<lambda>x. (es_chain_id x, es_chain_spec_hash x, es_block_guest_vk_digest x, es_context x,
       es_offender x, es_kind x, es_offence_id x, es_facts_commitment x, es_reporter x))
     (\<lambda>(x0, x1, x2, x3, x4, x5, x6, x7, x8). \<lparr>es_chain_id = x0, es_chain_spec_hash = x1, es_block_guest_vk_digest = x2,
       es_context = x3, es_offender = x4, es_kind = x5, es_offence_id = x6,
       es_facts_commitment = x7, es_reporter = x8\<rparr>)
     (pair_wire (word_wire 8)
       (pair_wire (word_wire 32)
       (pair_wire (word_wire 32)
       (pair_wire (evidence_context_wire)
       (pair_wire (consensus_validator_wire)
       (pair_wire (sanction_kind_wire)
       (pair_wire (word_wire 32)
       (pair_wire (word_wire 32) (option_wire (word_wire 32))))))))))"

lemma evidence_statement_wire_law [intro!]: "wire_law evidence_statement_wire"
  unfolding evidence_statement_wire_def by (rule iso_wire_law) auto

definition history_path_wire :: "history_path wire" where
  "history_path_wire = iso_wire
     (\<lambda>x. (hp_index x, hp_count x, hp_siblings x))
     (\<lambda>(x0, x1, x2). \<lparr>hp_index = x0, hp_count = x1, hp_siblings = x2\<rparr>)
     (pair_wire (word_wire 8)
       (pair_wire (word_wire 8) (list_wire (word_wire 32))))"

lemma history_path_wire_law [intro!]: "wire_law history_path_wire"
  unfolding history_path_wire_def by (rule iso_wire_law) auto

definition evidence_submission_wire :: "evidence_submission wire" where
  "evidence_submission_wire = iso_wire
     (\<lambda>x. (sub_statement x, sub_history x))
     (\<lambda>(x0, x1). \<lparr>sub_statement = x0, sub_history = x1\<rparr>)
     (pair_wire (evidence_statement_wire) (history_path_wire))"

lemma evidence_submission_wire_law [intro!]: "wire_law evidence_submission_wire"
  unfolding evidence_submission_wire_def by (rule iso_wire_law) auto

definition sanction_wire :: "sanction wire" where
  "sanction_wire = iso_wire
     (\<lambda>x. (sn_offence_id x, sn_offender x, sn_kind x))
     (\<lambda>(x0, x1, x2). \<lparr>sn_offence_id = x0, sn_offender = x1, sn_kind = x2\<rparr>)
     (pair_wire (word_wire 32)
       (pair_wire (consensus_validator_wire) (sanction_kind_wire)))"

lemma sanction_wire_law [intro!]: "wire_law sanction_wire"
  unfolding sanction_wire_def by (rule iso_wire_law) auto

definition pending_sanction_wire :: "pending_sanction wire" where
  "pending_sanction_wire = iso_wire
     (\<lambda>x. (pn_sanction x, pn_amount x, pn_reporter x, pn_reporter_reward_bps x))
     (\<lambda>(x0, x1, x2, x3). \<lparr>pn_sanction = x0, pn_amount = x1, pn_reporter = x2,
       pn_reporter_reward_bps = x3\<rparr>)
     (pair_wire (sanction_wire)
       (pair_wire (word_wire 16)
       (pair_wire (option_wire (word_wire 32)) (word_wire 2))))"

lemma pending_sanction_wire_law [intro!]: "wire_law pending_sanction_wire"
  unfolding pending_sanction_wire_def by (rule iso_wire_law) auto

definition settlement_counter_wire :: "settlement_counter wire" where
  "settlement_counter_wire = iso_wire
     (\<lambda>x. (sc_value x, sc_overflowed x))
     (\<lambda>(x0, x1). \<lparr>sc_value = x0, sc_overflowed = x1\<rparr>)
     (pair_wire (word_wire 16) (bool_wire))"

lemma settlement_counter_wire_law [intro!]: "wire_law settlement_counter_wire"
  unfolding settlement_counter_wire_def by (rule iso_wire_law) auto

definition settlement_kind_totals_wire :: "settlement_kind_totals wire" where
  "settlement_kind_totals_wire = iso_wire
     (\<lambda>x. (kt_admitted x, kt_executed x, kt_zero_deductions x, kt_deducted x, kt_rewarded x,
       kt_burned x))
     (\<lambda>(x0, x1, x2, x3, x4, x5). \<lparr>kt_admitted = x0, kt_executed = x1, kt_zero_deductions = x2, kt_deducted = x3,
       kt_rewarded = x4, kt_burned = x5\<rparr>)
     (pair_wire (settlement_counter_wire)
       (pair_wire (settlement_counter_wire)
       (pair_wire (settlement_counter_wire)
       (pair_wire (settlement_counter_wire)
       (pair_wire (settlement_counter_wire) (settlement_counter_wire))))))"

lemma settlement_kind_totals_wire_law [intro!]: "wire_law settlement_kind_totals_wire"
  unfolding settlement_kind_totals_wire_def by (rule iso_wire_law) auto

definition settlement_totals_wire :: "settlement_totals wire" where
  "settlement_totals_wire = iso_wire
     (\<lambda>x. (tot_slash x, tot_inactivity x))
     (\<lambda>(x0, x1). \<lparr>tot_slash = x0, tot_inactivity = x1\<rparr>)
     (pair_wire (settlement_kind_totals_wire) (settlement_kind_totals_wire))"

lemma settlement_totals_wire_law [intro!]: "wire_law settlement_totals_wire"
  unfolding settlement_totals_wire_def by (rule iso_wire_law) auto

definition transfer_tx_wire :: "transfer_tx wire" where
  "transfer_tx_wire = iso_wire
     (\<lambda>x. (tr_from x, tr_to x, tr_amount x, tr_nonce x, tr_signature x))
     (\<lambda>(x0, x1, x2, x3, x4). \<lparr>tr_from = x0, tr_to = x1, tr_amount = x2, tr_nonce = x3, tr_signature = x4\<rparr>)
     (pair_wire (word_wire 32)
       (pair_wire (word_wire 32)
       (pair_wire (word_wire 16)
       (pair_wire (word_wire 8) (word_wire 64)))))"

lemma transfer_tx_wire_law [intro!]: "wire_law transfer_tx_wire"
  unfolding transfer_tx_wire_def by (rule iso_wire_law) auto

definition stake_tx_wire :: "stake_tx wire" where
  "stake_tx_wire = iso_wire
     (\<lambda>x. (st_validator x, st_amount x, st_nonce x, st_signature x))
     (\<lambda>(x0, x1, x2, x3). \<lparr>st_validator = x0, st_amount = x1, st_nonce = x2, st_signature = x3\<rparr>)
     (pair_wire (word_wire 32)
       (pair_wire (word_wire 16)
       (pair_wire (word_wire 8) (word_wire 64))))"

lemma stake_tx_wire_law [intro!]: "wire_law stake_tx_wire"
  unfolding stake_tx_wire_def by (rule iso_wire_law) auto

definition unstake_tx_wire :: "unstake_tx wire" where
  "unstake_tx_wire = iso_wire
     (\<lambda>x. (un_validator x, un_amount x, un_nonce x, un_signature x))
     (\<lambda>(x0, x1, x2, x3). \<lparr>un_validator = x0, un_amount = x1, un_nonce = x2, un_signature = x3\<rparr>)
     (pair_wire (word_wire 32)
       (pair_wire (word_wire 16)
       (pair_wire (word_wire 8) (word_wire 64))))"

lemma unstake_tx_wire_law [intro!]: "wire_law unstake_tx_wire"
  unfolding unstake_tx_wire_def by (rule iso_wire_law) auto

definition deposit_tx_wire :: "deposit_tx wire" where
  "deposit_tx_wire = iso_wire
     (\<lambda>x. (dp_depositor x, dp_validator x, dp_amount x, dp_nonce x, dp_signature x))
     (\<lambda>(x0, x1, x2, x3, x4). \<lparr>dp_depositor = x0, dp_validator = x1, dp_amount = x2, dp_nonce = x3,
       dp_signature = x4\<rparr>)
     (pair_wire (word_wire 32)
       (pair_wire (word_wire 32)
       (pair_wire (word_wire 16)
       (pair_wire (word_wire 8) (word_wire 64)))))"

lemma deposit_tx_wire_law [intro!]: "wire_law deposit_tx_wire"
  unfolding deposit_tx_wire_def by (rule iso_wire_law) auto

definition voluntary_exit_tx_wire :: "voluntary_exit_tx wire" where
  "voluntary_exit_tx_wire = iso_wire
     (\<lambda>x. (ve_validator x, ve_nonce x, ve_signature x))
     (\<lambda>(x0, x1, x2). \<lparr>ve_validator = x0, ve_nonce = x1, ve_signature = x2\<rparr>)
     (pair_wire (word_wire 32)
       (pair_wire (word_wire 8) (word_wire 64)))"

lemma voluntary_exit_tx_wire_law [intro!]: "wire_law voluntary_exit_tx_wire"
  unfolding voluntary_exit_tx_wire_def by (rule iso_wire_law) auto

definition withdraw_tx_wire :: "withdraw_tx wire" where
  "withdraw_tx_wire = iso_wire
     (\<lambda>x. (wt_validator x, wt_nonce x, wt_signature x))
     (\<lambda>(x0, x1, x2). \<lparr>wt_validator = x0, wt_nonce = x1, wt_signature = x2\<rparr>)
     (pair_wire (word_wire 32)
       (pair_wire (word_wire 8) (word_wire 64)))"

lemma withdraw_tx_wire_law [intro!]: "wire_law withdraw_tx_wire"
  unfolding withdraw_tx_wire_def by (rule iso_wire_law) auto

definition register_validator_tx_wire :: "register_validator_tx wire" where
  "register_validator_tx_wire = iso_wire
     (\<lambda>x. (rv_depositor x, rv_validator x, rv_bls_pubkey x, rv_pop_signature x, rv_deposit_amount x,
       rv_nonce x, rv_signature x, rv_validator_signature x))
     (\<lambda>(x0, x1, x2, x3, x4, x5, x6, x7). \<lparr>rv_depositor = x0, rv_validator = x1, rv_bls_pubkey = x2, rv_pop_signature = x3,
       rv_deposit_amount = x4, rv_nonce = x5, rv_signature = x6,
       rv_validator_signature = x7\<rparr>)
     (pair_wire (word_wire 32)
       (pair_wire (word_wire 32)
       (pair_wire (word_wire 48)
       (pair_wire (word_wire 96)
       (pair_wire (word_wire 16)
       (pair_wire (word_wire 8)
       (pair_wire (word_wire 64) (word_wire 64))))))))"

lemma register_validator_tx_wire_law [intro!]: "wire_law register_validator_tx_wire"
  unfolding register_validator_tx_wire_def by (rule iso_wire_law) auto

definition propose_upgrade_tx_wire :: "propose_upgrade_tx wire" where
  "propose_upgrade_tx_wire = iso_wire
     (\<lambda>x. (pu_proposer x, pu_programs x, pu_artifacts x, pu_activate_at_chunk x, pu_nonce x,
       pu_signature x))
     (\<lambda>(x0, x1, x2, x3, x4, x5). \<lparr>pu_proposer = x0, pu_programs = x1, pu_artifacts = x2, pu_activate_at_chunk = x3,
       pu_nonce = x4, pu_signature = x5\<rparr>)
     (pair_wire (word_wire 32)
       (pair_wire (program_set_wire)
       (pair_wire (program_artifacts_wire)
       (pair_wire (word_wire 8)
       (pair_wire (word_wire 8) (word_wire 64))))))"

lemma propose_upgrade_tx_wire_law [intro!]: "wire_law propose_upgrade_tx_wire"
  unfolding propose_upgrade_tx_wire_def by (rule iso_wire_law) auto

definition propose_policy_tx_wire :: "propose_policy_tx wire" where
  "propose_policy_tx_wire = iso_wire
     (\<lambda>x. (pp_proposer x, pp_policy x, pp_nonce x, pp_signature x))
     (\<lambda>(x0, x1, x2, x3). \<lparr>pp_proposer = x0, pp_policy = x1, pp_nonce = x2, pp_signature = x3\<rparr>)
     (pair_wire (word_wire 32)
       (pair_wire (runtime_policy_wire)
       (pair_wire (word_wire 8) (word_wire 64))))"

lemma propose_policy_tx_wire_law [intro!]: "wire_law propose_policy_tx_wire"
  unfolding propose_policy_tx_wire_def by (rule iso_wire_law) auto

definition vote_upgrade_tx_wire :: "vote_upgrade_tx wire" where
  "vote_upgrade_tx_wire = iso_wire
     (\<lambda>x. (vu_voter x, vu_proposal_id x, vu_nonce x, vu_signature x))
     (\<lambda>(x0, x1, x2, x3). \<lparr>vu_voter = x0, vu_proposal_id = x1, vu_nonce = x2, vu_signature = x3\<rparr>)
     (pair_wire (word_wire 32)
       (pair_wire (word_wire 32)
       (pair_wire (word_wire 8) (word_wire 64))))"

lemma vote_upgrade_tx_wire_law [intro!]: "wire_law vote_upgrade_tx_wire"
  unfolding vote_upgrade_tx_wire_def by (rule iso_wire_law) auto

definition proposal_action_wire :: "proposal_action wire" where
  "proposal_action_wire = iso_wire
     (\<lambda>a. case a of Programs p f c \<Rightarrow> Inl (p, f, c) | Policy p \<Rightarrow> Inr p)
     (\<lambda>x. case x of Inl (p, f, c) \<Rightarrow> Programs p f c | Inr p \<Rightarrow> Policy p)
     (sum_wire (pair_wire program_set_wire (pair_wire program_artifacts_wire (word_wire 8)))
       runtime_policy_wire)"

lemma proposal_action_wire_law [intro!]: "wire_law proposal_action_wire"
  unfolding proposal_action_wire_def by (rule iso_wire_law) (auto split: proposal_action.splits)

definition upgrade_proposal_wire :: "upgrade_proposal wire" where
  "upgrade_proposal_wire = iso_wire
     (\<lambda>x. (up_proposer x, up_action x, up_proposed_at_chunk x, up_voters x))
     (\<lambda>(x0, x1, x2, x3). \<lparr>up_proposer = x0, up_action = x1, up_proposed_at_chunk = x2,
       up_voters = x3\<rparr>)
     (pair_wire (word_wire 32)
       (pair_wire (proposal_action_wire)
       (pair_wire (word_wire 8) (list_wire (word_wire 32)))))"

lemma upgrade_proposal_wire_law [intro!]: "wire_law upgrade_proposal_wire"
  unfolding upgrade_proposal_wire_def by (rule iso_wire_law) auto

definition transaction_wire :: "transaction wire" where
  "transaction_wire = iso_wire
     (\<lambda>x. case x of Transfer t \<Rightarrow> Inl t
     | Stake t \<Rightarrow> Inr (Inl t)
     | Unstake t \<Rightarrow> Inr (Inr (Inl t))
     | Deposit t \<Rightarrow> Inr (Inr (Inr (Inl t)))
     | VoluntaryExit t \<Rightarrow> Inr (Inr (Inr (Inr (Inl t))))
     | Withdraw t \<Rightarrow> Inr (Inr (Inr (Inr (Inr (Inl t)))))
     | RegisterValidator t \<Rightarrow> Inr (Inr (Inr (Inr (Inr (Inr (Inl t))))))
     | SubmitEvidence t \<Rightarrow> Inr (Inr (Inr (Inr (Inr (Inr (Inr (Inl t)))))))
     | ProposeUpgrade t \<Rightarrow> Inr (Inr (Inr (Inr (Inr (Inr (Inr (Inr (Inl t))))))))
     | VoteUpgrade t \<Rightarrow> Inr (Inr (Inr (Inr (Inr (Inr (Inr (Inr (Inr (Inl t)))))))))
     | ProposePolicy t \<Rightarrow> Inr (Inr (Inr (Inr (Inr (Inr (Inr (Inr (Inr (Inr (t)))))))))))
     (\<lambda>x. case x of Inl t \<Rightarrow> Transfer t
     | Inr (Inl t) \<Rightarrow> Stake t
     | Inr (Inr (Inl t)) \<Rightarrow> Unstake t
     | Inr (Inr (Inr (Inl t))) \<Rightarrow> Deposit t
     | Inr (Inr (Inr (Inr (Inl t)))) \<Rightarrow> VoluntaryExit t
     | Inr (Inr (Inr (Inr (Inr (Inl t))))) \<Rightarrow> Withdraw t
     | Inr (Inr (Inr (Inr (Inr (Inr (Inl t)))))) \<Rightarrow> RegisterValidator t
     | Inr (Inr (Inr (Inr (Inr (Inr (Inr (Inl t))))))) \<Rightarrow> SubmitEvidence t
     | Inr (Inr (Inr (Inr (Inr (Inr (Inr (Inr (Inl t)))))))) \<Rightarrow> ProposeUpgrade t
     | Inr (Inr (Inr (Inr (Inr (Inr (Inr (Inr (Inr (Inl t))))))))) \<Rightarrow> VoteUpgrade t
     | Inr (Inr (Inr (Inr (Inr (Inr (Inr (Inr (Inr (Inr (t)))))))))) \<Rightarrow> ProposePolicy t)
     (sum_wire transfer_tx_wire
       (sum_wire stake_tx_wire
       (sum_wire unstake_tx_wire
       (sum_wire deposit_tx_wire
       (sum_wire voluntary_exit_tx_wire
       (sum_wire withdraw_tx_wire
       (sum_wire register_validator_tx_wire
       (sum_wire evidence_submission_wire
       (sum_wire propose_upgrade_tx_wire
       (sum_wire vote_upgrade_tx_wire propose_policy_tx_wire))))))))))"

lemma transaction_wire_law [intro!]: "wire_law transaction_wire"
  unfolding transaction_wire_def by (rule iso_wire_law) (auto split: transaction.splits)

subsection \<open>The instance\<close>

text \<open>
  The hash reads the input as a little-endian number; signature \<open>1\<close> verifies for every non-zero
  address.
\<close>

definition wire_externals :: externals where
  "wire_externals =
     \<lparr>account_codec = codec_of account_wire,
      validator_codec = codec_of validator_wire,
      validator_set_codec = codec_of validator_set_wire,
      bonding_codec = codec_of bonding_wire,
      registration_codec = codec_of validator_registration_wire,
      registrations_codec = codec_of validator_registrations_wire,
      withdrawal_queue_codec = codec_of withdrawal_queue_wire,
      candidates_codec = codec_of consensus_candidates_wire,
      participation_codec = codec_of participation_report_wire,
      addresses_codec = codec_of (list_wire (word_wire 32)),
      policy_codec = codec_of runtime_policy_wire,
      proposal_codec = codec_of upgrade_proposal_wire,
      scheduled_codec = codec_of scheduled_upgrade_wire,
      sanction_queue_codec = codec_of (list_wire pending_sanction_wire),
      marker_keys_codec = codec_of (list_wire (list_wire (word_wire 1))),
      totals_codec = codec_of settlement_totals_wire,
      transaction_codec = codec_of transaction_wire,
      action_codec = codec_of proposal_action_wire,
      context_codec = codec_of evidence_context_wire,
      blake3 = of_le_bytes,
      verifying_key_ok = (\<lambda>a. a \<noteq> 0),
      verify_strict = (\<lambda>_ _ sig. sig = 1)\<rparr>"

interpretation wire: borsh wire_externals
  by unfold_locales (auto simp: wire_externals_def intro: codec_law_dec)

lemma wire_borsh: "borsh wire_externals"
  by (rule wire.borsh_axioms)

lemma wire_verify [simp]: "verifying_key_ok wire_externals a \<longleftrightarrow> a \<noteq> 0"
  "verify_strict wire_externals a m sig \<longleftrightarrow> sig = 1"
  by (simp_all add: wire_externals_def)

end
