(* ===== verification/Ledger.thy ===== *)
theory Ledger
  imports Runtime_State
begin

text \<open>
  The abstract ledger behind the runtime state: the total of spendable balances, bonded stake and
  queued withdrawals, as natural numbers, and how an update of one record changes each total.
  \<open>frame W s s'\<close> says that only the keys in \<open>W\<close> differ between two states.
\<close>

subsection \<open>Totals\<close>

definition queue_sum :: "withdrawal_queue \<Rightarrow> nat" where
  "queue_sum q = sum_list (map (\<lambda>e. unat (wd_amount e)) (wq_entries q))"

definition total_balance :: "externals \<Rightarrow> state \<Rightarrow> nat" where
  "total_balance E s = (\<Sum>a\<in>UNIV. unat (balance (load_account E s a)))"

definition total_bonded :: "externals \<Rightarrow> state \<Rightarrow> nat" where
  "total_bonded E s = (\<Sum>a\<in>UNIV. unat (stake (load_validator E s a)))"

definition total_queued :: "externals \<Rightarrow> state \<Rightarrow> nat" where
  "total_queued E s = (\<Sum>a\<in>UNIV. queue_sum (load_withdrawal_queue E s a))"

definition total_funds :: "externals \<Rightarrow> state \<Rightarrow> nat" where
  "total_funds E s = total_balance E s + total_bonded E s + total_queued E s"

lemma sum_upd_comp:
  fixes g :: "'b \<Rightarrow> nat" and f :: "'a::finite \<Rightarrow> 'b"
  shows "(\<Sum>x\<in>UNIV. g ((f(a := v)) x)) + g (f a) = (\<Sum>x\<in>UNIV. g (f x)) + g v"
  using sum_fun_upd [of "\<lambda>x. g (f x)" a "g v"] by (simp add: if_distrib)

lemma total_balance_upd:
  "load_account E s' = (load_account E s)(a := x) \<Longrightarrow>
     total_balance E s' + unat (balance (load_account E s a)) = total_balance E s + unat (balance x)"
  using sum_upd_comp [of "\<lambda>x. unat (balance x)" "load_account E s" a x]
  by (simp add: total_balance_def)

lemma total_bonded_upd:
  "load_validator E s' = (load_validator E s)(a := x) \<Longrightarrow>
     total_bonded E s' + unat (stake (load_validator E s a)) = total_bonded E s + unat (stake x)"
  using sum_upd_comp [of "\<lambda>x. unat (stake x)" "load_validator E s" a x]
  by (simp add: total_bonded_def)

lemma total_queued_upd:
  "load_withdrawal_queue E s' = (load_withdrawal_queue E s)(a := x) \<Longrightarrow>
     total_queued E s' + queue_sum (load_withdrawal_queue E s a) = total_queued E s + queue_sum x"
  using sum_upd_comp [of queue_sum "load_withdrawal_queue E s" a x]
  by (simp add: total_queued_def)

lemma total_same:
  "load_account E s' = load_account E s \<Longrightarrow> total_balance E s' = total_balance E s"
  "load_validator E s' = load_validator E s \<Longrightarrow> total_bonded E s' = total_bonded E s"
  "load_withdrawal_queue E s' = load_withdrawal_queue E s \<Longrightarrow> total_queued E s' = total_queued E s"
  by (simp_all add: total_balance_def total_bonded_def total_queued_def)

lemma account_le_total:
  "unat (balance (load_account E s a)) \<le> total_balance E s"
  "unat (stake (load_validator E s a)) \<le> total_bonded E s"
  "queue_sum (load_withdrawal_queue E s a) \<le> total_queued E s"
  unfolding total_balance_def total_bonded_def total_queued_def
  by (rule sum_member_le [of "\<lambda>x. unat (balance (load_account E s x))"])
    (rule sum_member_le [of "\<lambda>x. unat (stake (load_validator E s x))"],
     rule sum_member_le [of "\<lambda>x. queue_sum (load_withdrawal_queue E s x)"])

lemma queue_sum_simps [simp]:
  "queue_sum \<lparr>wq_entries = []\<rparr> = 0"
  "queue_sum \<lparr>wq_entries = e # es\<rparr> = unat (wd_amount e) + queue_sum \<lparr>wq_entries = es\<rparr>"
  "queue_sum \<lparr>wq_entries = xs @ ys\<rparr> = queue_sum \<lparr>wq_entries = xs\<rparr> + queue_sum \<lparr>wq_entries = ys\<rparr>"
  by (simp_all add: queue_sum_def)

lemma unat_queue_total: "unat (queue_total q) = min (2 ^ 128 - 1) (queue_sum q)"
  unfolding queue_total_def queue_sum_def by (subst unat_saturating_foldl) simp

subsection \<open>Frames\<close>

definition frame :: "key set \<Rightarrow> state \<Rightarrow> state \<Rightarrow> bool" where
  "frame W s s' \<longleftrightarrow> (\<forall>k. k \<notin> key_bytes ` W \<longrightarrow> s' k = s k)"

lemma frame_refl [simp]: "frame W s s"
  by (simp add: frame_def)

lemma frame_upd [intro]: "frame W s s' \<Longrightarrow> k \<in> W \<Longrightarrow> frame W s (s'(key_bytes k := v))"
  by (auto simp: frame_def)

lemma frame_trans: "frame W s s' \<Longrightarrow> frame V s' s'' \<Longrightarrow> frame (W \<union> V) s s''"
  by (simp add: frame_def image_Un)

lemma frame_mono: "frame W s s' \<Longrightarrow> W \<subseteq> V \<Longrightarrow> frame V s s'"
  by (auto simp: frame_def)

lemma frame_key:
  assumes "frame W s s'" and "k \<notin> W"
  shows "s' (key_bytes k) = s (key_bytes k)"
proof -
  have "key_bytes k \<notin> key_bytes ` W" using assms(2) by auto
  then show ?thesis using assms(1) by (simp add: frame_def)
qed

lemma frame_stores [intro]:
  assumes "frame W s t"
  shows "KAccount a \<in> W \<Longrightarrow> frame W s (store_account E t a x)"
    and "KValidator a \<in> W \<Longrightarrow> frame W s (store_validator E t a y)"
    and "KWithdrawal a \<in> W \<Longrightarrow> frame W s (store_withdrawal_queue E t a q)"
    and "KBonding a \<in> W \<Longrightarrow> frame W s (store_bonding E t a b)"
    and "KValidatorSet \<in> W \<Longrightarrow> frame W s (store_validator_set E t vs)"
    and "KCandidates \<in> W \<Longrightarrow> frame W s (store_consensus_candidates E t cs)"
    and "KRegistration (reg_address r) \<in> W \<Longrightarrow> frame W s (store_validator_registration E t r)"
    and "KRegistrations \<in> W \<Longrightarrow> frame W s (store_validator_registrations E t rs)"
    and "KPolicy \<in> W \<Longrightarrow> frame W s (store_runtime_policy E t p)"
    and "k \<in> W \<Longrightarrow> frame W s (delete t (key_bytes k))"
  by (simp_all add: slot_ops frame_upd [OF assms])

lemma frame_loads:
  assumes "frame W s s'"
  shows "KAccount a \<notin> W \<Longrightarrow> load_account E s' a = load_account E s a"
    and "KValidator a \<notin> W \<Longrightarrow> load_validator_record E s' a = load_validator_record E s a"
    and "KWithdrawal a \<notin> W \<Longrightarrow> load_withdrawal_queue E s' a = load_withdrawal_queue E s a"
    and "KRegistration a \<notin> W \<Longrightarrow> load_validator_registration E s' a = load_validator_registration E s a"
    and "KBonding a \<notin> W \<Longrightarrow> load_bonding E s' a = load_bonding E s a"
    and "KValidatorSet \<notin> W \<Longrightarrow> load_validator_set E s' = load_validator_set E s"
    and "KCandidates \<notin> W \<Longrightarrow> load_consensus_candidates E s' = load_consensus_candidates E s"
    and "KRegistrations \<notin> W \<Longrightarrow> load_validator_registrations E s' = load_validator_registrations E s"
    and "KPolicy \<notin> W \<Longrightarrow> load_runtime_policy E s' = load_runtime_policy E s"
  using frame_key [OF assms]
  by (simp_all add: load_account_def load_validator_record_def load_withdrawal_queue_def
      load_validator_registration_def load_bonding_def load_validator_set_def
      load_consensus_candidates_def load_validator_registrations_def load_runtime_policy_def
      read_record_def)

end
