(* ===== verification/Tx.thy ===== *)
theory Tx
  imports Ledger
begin

text \<open>
  Transaction kinds, their gas, and the payloads their signers sign (\<open>tx.rs\<close>, and the governance
  payloads of \<open>governance.rs\<close>). A payload is a fixed-size array filled slice by slice; the slices
  tile the array, so the model concatenates them. Integers inside a payload are little-endian.
\<close>

subsection \<open>Gas schedule\<close>

definition GAS_TRANSFER :: u64 where "GAS_TRANSFER = 21000"
definition GAS_STAKE :: u64 where "GAS_STAKE = 50000"
definition GAS_UNSTAKE :: u64 where "GAS_UNSTAKE = 50000"
definition GAS_SANCTION :: u64 where "GAS_SANCTION = 5000"
definition GAS_DEPOSIT :: u64 where "GAS_DEPOSIT = 30000"
definition GAS_VOLUNTARY_EXIT :: u64 where "GAS_VOLUNTARY_EXIT = 40000"
definition GAS_WITHDRAW :: u64 where "GAS_WITHDRAW = 50000"
definition GAS_REGISTER_VALIDATOR :: u64 where "GAS_REGISTER_VALIDATOR = 75000"
definition GAS_EVIDENCE_ADMISSION :: u64 where "GAS_EVIDENCE_ADMISSION = 10000"
definition GAS_PROPOSE_UPGRADE :: u64 where "GAS_PROPOSE_UPGRADE = 100000"
definition GAS_VOTE_UPGRADE :: u64 where "GAS_VOTE_UPGRADE = 40000"

fun tx_gas :: "transaction \<Rightarrow> u64" where
  "tx_gas (Transfer _) = GAS_TRANSFER"
| "tx_gas (Stake _) = GAS_STAKE"
| "tx_gas (Unstake _) = GAS_UNSTAKE"
| "tx_gas (Deposit _) = GAS_DEPOSIT"
| "tx_gas (VoluntaryExit _) = GAS_VOLUNTARY_EXIT"
| "tx_gas (Withdraw _) = GAS_WITHDRAW"
| "tx_gas (RegisterValidator _) = GAS_REGISTER_VALIDATOR"
| "tx_gas (SubmitEvidence _) = GAS_EVIDENCE_ADMISSION"
| "tx_gas (ProposeUpgrade _) = GAS_PROPOSE_UPGRADE"
| "tx_gas (ProposePolicy _) = GAS_PROPOSE_UPGRADE"
| "tx_gas (VoteUpgrade _) = GAS_VOTE_UPGRADE"

fun tx_kind_code :: "transaction \<Rightarrow> u8" where
  "tx_kind_code (Transfer _) = 0"
| "tx_kind_code (Stake _) = 1"
| "tx_kind_code (Unstake _) = 2"
| "tx_kind_code (Deposit _) = 3"
| "tx_kind_code (VoluntaryExit _) = 4"
| "tx_kind_code (Withdraw _) = 5"
| "tx_kind_code (RegisterValidator _) = 6"
| "tx_kind_code (SubmitEvidence _) = 7"
| "tx_kind_code (ProposeUpgrade _) = 8"
| "tx_kind_code (VoteUpgrade _) = 9"
| "tx_kind_code (ProposePolicy _) = 10"

fun tx_charges_fee :: "transaction \<Rightarrow> bool" where
  "tx_charges_fee (Transfer _) = True"
| "tx_charges_fee (Stake _) = True"
| "tx_charges_fee (Unstake _) = True"
| "tx_charges_fee (Deposit _) = True"
| "tx_charges_fee (VoluntaryExit _) = True"
| "tx_charges_fee (Withdraw _) = True"
| "tx_charges_fee (RegisterValidator _) = True"
| "tx_charges_fee (ProposeUpgrade _) = True"
| "tx_charges_fee (VoteUpgrade _) = True"
| "tx_charges_fee (ProposePolicy _) = True"
| "tx_charges_fee (SubmitEvidence _) = False"

lemmas gas_defs =
  GAS_TRANSFER_def GAS_STAKE_def GAS_UNSTAKE_def GAS_SANCTION_def GAS_DEPOSIT_def
  GAS_VOLUNTARY_EXIT_def GAS_WITHDRAW_def GAS_REGISTER_VALIDATOR_def GAS_EVIDENCE_ADMISSION_def
  GAS_PROPOSE_UPGRADE_def GAS_VOTE_UPGRADE_def

subsection \<open>Domain tags\<close>

definition DOMAIN_TRANSFER :: bytes where
  "DOMAIN_TRANSFER = ascii ''NTRO/transfer'' @ [0, 0, 0]"
definition DOMAIN_STAKE :: bytes where
  "DOMAIN_STAKE = ascii ''NTRO/stake'' @ [0, 0, 0, 0, 0, 0]"
definition DOMAIN_UNSTAKE :: bytes where
  "DOMAIN_UNSTAKE = ascii ''NTRO/unstake'' @ [0, 0, 0, 0]"
definition DOMAIN_DEPOSIT :: bytes where
  "DOMAIN_DEPOSIT = ascii ''NTRO/deposit'' @ [0, 0, 0, 0]"
definition DOMAIN_VOLUNTARY_EXIT :: bytes where
  "DOMAIN_VOLUNTARY_EXIT = ascii ''NTRO/vexit'' @ [0, 0, 0, 0, 0, 0]"
definition DOMAIN_WITHDRAW :: bytes where
  "DOMAIN_WITHDRAW = ascii ''NTRO/withdraw'' @ [0, 0, 0]"
definition DOMAIN_REGISTER_VALIDATOR :: bytes where
  "DOMAIN_REGISTER_VALIDATOR = ascii ''NTRO/regval'' @ [0, 0, 0, 0, 0]"
definition DOMAIN_PROPOSE_UPGRADE :: bytes where
  "DOMAIN_PROPOSE_UPGRADE = ascii ''NTRO/upg-propose''"
definition DOMAIN_VOTE_UPGRADE :: bytes where
  "DOMAIN_VOTE_UPGRADE = ascii ''NTRO/upg-vote'' @ [0, 0, 0]"
definition DOMAIN_PROPOSE_POLICY :: bytes where
  "DOMAIN_PROPOSE_POLICY = ascii ''NTRO/pol-propose''"
definition DOMAIN_UPGRADE_PROPOSAL_ID :: bytes where
  "DOMAIN_UPGRADE_PROPOSAL_ID = ascii ''NTRO/upg-prop-id''"

lemmas domain_defs =
  DOMAIN_TRANSFER_def DOMAIN_STAKE_def DOMAIN_UNSTAKE_def DOMAIN_DEPOSIT_def
  DOMAIN_VOLUNTARY_EXIT_def DOMAIN_WITHDRAW_def DOMAIN_REGISTER_VALIDATOR_def
  DOMAIN_PROPOSE_UPGRADE_def DOMAIN_VOTE_UPGRADE_def DOMAIN_PROPOSE_POLICY_def

lemmas domain_bytes = domain_defs [simplified]

subsection \<open>Signed payloads\<close>

definition transfer_sig_message :: "u64 \<Rightarrow> transfer_tx \<Rightarrow> bytes" where
  "transfer_sig_message chain_id tx =
     DOMAIN_TRANSFER @ le_bytes 8 chain_id @ be_bytes 32 (tr_from tx) @ be_bytes 32 (tr_to tx)
     @ le_bytes 16 (tr_amount tx) @ le_bytes 8 (tr_nonce tx)"

definition stake_op_message :: "bytes \<Rightarrow> u64 \<Rightarrow> address \<Rightarrow> u128 \<Rightarrow> u64 \<Rightarrow> bytes" where
  "stake_op_message domain chain_id val amount nnc =
     domain @ le_bytes 8 chain_id @ be_bytes 32 val @ le_bytes 16 amount @ le_bytes 8 nnc"

definition stake_sig_message :: "u64 \<Rightarrow> stake_tx \<Rightarrow> bytes" where
  "stake_sig_message chain_id tx =
     stake_op_message DOMAIN_STAKE chain_id (st_validator tx) (st_amount tx) (st_nonce tx)"

definition unstake_sig_message :: "u64 \<Rightarrow> unstake_tx \<Rightarrow> bytes" where
  "unstake_sig_message chain_id tx =
     stake_op_message DOMAIN_UNSTAKE chain_id (un_validator tx) (un_amount tx) (un_nonce tx)"

definition deposit_sig_message :: "u64 \<Rightarrow> deposit_tx \<Rightarrow> bytes" where
  "deposit_sig_message chain_id tx =
     DOMAIN_DEPOSIT @ le_bytes 8 chain_id @ be_bytes 32 (dp_depositor tx)
     @ be_bytes 32 (dp_validator tx) @ le_bytes 16 (dp_amount tx) @ le_bytes 8 (dp_nonce tx)"

definition validator_op_message :: "bytes \<Rightarrow> u64 \<Rightarrow> address \<Rightarrow> u64 \<Rightarrow> bytes" where
  "validator_op_message domain chain_id val nnc =
     domain @ le_bytes 8 chain_id @ be_bytes 32 val @ le_bytes 8 nnc"

definition voluntary_exit_sig_message :: "u64 \<Rightarrow> voluntary_exit_tx \<Rightarrow> bytes" where
  "voluntary_exit_sig_message chain_id tx =
     validator_op_message DOMAIN_VOLUNTARY_EXIT chain_id (ve_validator tx) (ve_nonce tx)"

definition withdraw_sig_message :: "u64 \<Rightarrow> withdraw_tx \<Rightarrow> bytes" where
  "withdraw_sig_message chain_id tx =
     validator_op_message DOMAIN_WITHDRAW chain_id (wt_validator tx) (wt_nonce tx)"

definition register_validator_sig_message :: "u64 \<Rightarrow> register_validator_tx \<Rightarrow> bytes" where
  "register_validator_sig_message chain_id tx =
     DOMAIN_REGISTER_VALIDATOR @ le_bytes 8 chain_id @ be_bytes 32 (rv_depositor tx)
     @ be_bytes 32 (rv_validator tx) @ be_bytes 48 (rv_bls_pubkey tx)
     @ le_bytes 16 (rv_deposit_amount tx) @ le_bytes 8 (rv_nonce tx)"

definition proposal_id :: "externals \<Rightarrow> address \<Rightarrow> proposal_action \<Rightarrow> hash" where
  "proposal_id E proposer action =
     blake3 E (DOMAIN_UPGRADE_PROPOSAL_ID @ be_bytes 32 proposer @ enc (action_codec E) action)"

definition propose_upgrade_action :: "propose_upgrade_tx \<Rightarrow> proposal_action" where
  "propose_upgrade_action tx = Programs (pu_programs tx) (pu_artifacts tx) (pu_activate_at_chunk tx)"

definition bound_message :: "bytes \<Rightarrow> u64 \<Rightarrow> address \<Rightarrow> hash \<Rightarrow> u64 \<Rightarrow> bytes" where
  "bound_message domain chain_id signer pid nnc =
     domain @ le_bytes 8 chain_id @ be_bytes 32 signer @ be_bytes 32 pid @ le_bytes 8 nnc"

definition propose_policy_sig_message :: "externals \<Rightarrow> u64 \<Rightarrow> propose_policy_tx \<Rightarrow> bytes" where
  "propose_policy_sig_message E chain_id tx =
     bound_message DOMAIN_PROPOSE_POLICY chain_id (pp_proposer tx)
       (proposal_id E (pp_proposer tx) (Policy (pp_policy tx))) (pp_nonce tx)"

definition propose_upgrade_sig_message :: "externals \<Rightarrow> u64 \<Rightarrow> propose_upgrade_tx \<Rightarrow> bytes" where
  "propose_upgrade_sig_message E chain_id tx =
     bound_message DOMAIN_PROPOSE_UPGRADE chain_id (pu_proposer tx)
       (proposal_id E (pu_proposer tx) (propose_upgrade_action tx)) (pu_nonce tx)"

definition vote_upgrade_sig_message :: "u64 \<Rightarrow> vote_upgrade_tx \<Rightarrow> bytes" where
  "vote_upgrade_sig_message chain_id tx =
     bound_message DOMAIN_VOTE_UPGRADE chain_id (vu_voter tx) (vu_proposal_id tx) (vu_nonce tx)"

definition verify_signature :: "externals \<Rightarrow> address \<Rightarrow> bytes \<Rightarrow> ed25519_signature \<Rightarrow> bool" where
  "verify_signature E signer message signature \<longleftrightarrow>
     verifying_key_ok E signer \<and> verify_strict E signer message signature"

lemmas message_defs =
  transfer_sig_message_def stake_op_message_def stake_sig_message_def unstake_sig_message_def
  deposit_sig_message_def validator_op_message_def voluntary_exit_sig_message_def
  withdraw_sig_message_def register_validator_sig_message_def bound_message_def
  propose_policy_sig_message_def propose_upgrade_sig_message_def vote_upgrade_sig_message_def

subsection \<open>What a signature binds\<close>

text \<open>
  The payload a transaction's sender signs, and the part of the transaction that the payload is
  meant to bind. The signatures themselves, and a registration's proof of possession, are not
  part of the signed payload.
\<close>

fun signed_message :: "externals \<Rightarrow> u64 \<Rightarrow> transaction \<Rightarrow> bytes option" where
  "signed_message E c (Transfer tx) = Some (transfer_sig_message c tx)"
| "signed_message E c (Stake tx) = Some (stake_sig_message c tx)"
| "signed_message E c (Unstake tx) = Some (unstake_sig_message c tx)"
| "signed_message E c (Deposit tx) = Some (deposit_sig_message c tx)"
| "signed_message E c (VoluntaryExit tx) = Some (voluntary_exit_sig_message c tx)"
| "signed_message E c (Withdraw tx) = Some (withdraw_sig_message c tx)"
| "signed_message E c (RegisterValidator tx) = Some (register_validator_sig_message c tx)"
| "signed_message E c (SubmitEvidence _) = None"
| "signed_message E c (ProposeUpgrade tx) = Some (propose_upgrade_sig_message E c tx)"
| "signed_message E c (VoteUpgrade tx) = Some (vote_upgrade_sig_message c tx)"
| "signed_message E c (ProposePolicy tx) = Some (propose_policy_sig_message E c tx)"

fun strip_signatures :: "transaction \<Rightarrow> transaction" where
  "strip_signatures (Transfer tx) = Transfer (tx\<lparr>tr_signature := 0\<rparr>)"
| "strip_signatures (Stake tx) = Stake (tx\<lparr>st_signature := 0\<rparr>)"
| "strip_signatures (Unstake tx) = Unstake (tx\<lparr>un_signature := 0\<rparr>)"
| "strip_signatures (Deposit tx) = Deposit (tx\<lparr>dp_signature := 0\<rparr>)"
| "strip_signatures (VoluntaryExit tx) = VoluntaryExit (tx\<lparr>ve_signature := 0\<rparr>)"
| "strip_signatures (Withdraw tx) = Withdraw (tx\<lparr>wt_signature := 0\<rparr>)"
| "strip_signatures (RegisterValidator tx) =
     RegisterValidator (tx\<lparr>rv_pop_signature := 0, rv_signature := 0, rv_validator_signature := 0\<rparr>)"
| "strip_signatures (SubmitEvidence s) = SubmitEvidence s"
| "strip_signatures (ProposeUpgrade tx) = ProposeUpgrade (tx\<lparr>pu_signature := 0\<rparr>)"
| "strip_signatures (VoteUpgrade tx) = VoteUpgrade (tx\<lparr>vu_signature := 0\<rparr>)"
| "strip_signatures (ProposePolicy tx) = ProposePolicy (tx\<lparr>pp_signature := 0\<rparr>)"

text \<open>
  The proposal hash is assumed not to collide on the two actions at hand; for the seven staking
  kinds nothing is assumed.
\<close>

definition proposal_ids_distinct :: "externals \<Rightarrow> transaction \<Rightarrow> transaction \<Rightarrow> bool" where
  "proposal_ids_distinct E t u \<longleftrightarrow>
     (case (t, u) of
        (ProposeUpgrade a, ProposeUpgrade b) \<Rightarrow>
          proposal_id E (pu_proposer a) (propose_upgrade_action a)
            = proposal_id E (pu_proposer b) (propose_upgrade_action b)
          \<longrightarrow> propose_upgrade_action a = propose_upgrade_action b
      | (ProposePolicy a, ProposePolicy b) \<Rightarrow>
          proposal_id E (pp_proposer a) (Policy (pp_policy a))
            = proposal_id E (pp_proposer b) (Policy (pp_policy b))
          \<longrightarrow> pp_policy a = pp_policy b
      | _ \<Rightarrow> True)"

lemma le_bytes_eq_iff [simp]:
  "le_bytes 8 c = le_bytes 8 d \<longleftrightarrow> c = d"
  "le_bytes 16 a = le_bytes 16 b \<longleftrightarrow> a = b"
  for c d :: u64 and a b :: u128
  using le_bytes_inject [of 8 c d] le_bytes_inject [of 16 a b] by auto

lemmas tx_equality =
  transfer_tx.equality stake_tx.equality unstake_tx.equality deposit_tx.equality
  voluntary_exit_tx.equality withdraw_tx.equality register_validator_tx.equality
  propose_upgrade_tx.equality propose_policy_tx.equality vote_upgrade_tx.equality

lemma signed_message_inject:
  assumes "signed_message E c t = signed_message E d u" and "signed_message E c t \<noteq> None"
    and "proposal_ids_distinct E t u"
  shows "c = d \<and> strip_signatures t = strip_signatures u"
  using assms
  by (cases t; cases u)
    (auto simp: message_defs domain_bytes proposal_ids_distinct_def propose_upgrade_action_def
      intro!: tx_equality)

end
