(* ===== verification/Staking.thy ===== *)
theory Staking
  imports Tx
begin

text \<open>
  Account and staking transactions, the validator lifecycle and mandatory deductions
  (\<open>staking.rs\<close>). Every handler runs its \<open>check_\<close> function first and writes only after the last
  check, so a handler is a function from a state to a failure or a new state. Unchecked \<open>-\<close>, \<open>-=\<close>
  of the source is word subtraction; the lemmas show where the checks exclude a wrap.
\<close>

subsection \<open>Shared signer checks\<close>

definition require_amount :: "u128 \<Rightarrow> receipt_status + unit" where
  "require_amount amount = (if amount = 0 then Inl InsufficientBalance else Inr ())"

definition require_bonded :: "u128 \<Rightarrow> u128 \<Rightarrow> receipt_status + unit" where
  "require_bonded stk min_stake =
     (if stk \<noteq> 0 \<and> stk < min_stake then Inl InsufficientBalance else Inr ())"

definition authenticate :: "externals \<Rightarrow> address \<Rightarrow> bytes \<Rightarrow> ed25519_signature \<Rightarrow> receipt_status + unit" where
  "authenticate E signer message signature =
     (if verify_signature E signer message signature then Inr () else Inl BadSignature)"

definition signer_account :: "externals \<Rightarrow> state \<Rightarrow> address \<Rightarrow> u64 \<Rightarrow> receipt_status + account" where
  "signer_account E s signer nnc =
     (let account = load_account E s signer
      in if nonce account \<noteq> nnc then Inl NonceMismatch else Inr account)"

definition authorize :: "externals \<Rightarrow> state \<Rightarrow> address \<Rightarrow> u64 \<Rightarrow> u128 \<Rightarrow> failure + account" where
  "authorize E s payr nnc fee =
     res_bind (map_err failure_from (signer_account E s payr nnc)) (\<lambda>account.
     if balance account < fee then Inl (failure_from InsufficientBalance) else Inr account)"

definition charged :: "address \<Rightarrow> receipt_status \<Rightarrow> failure" where
  "charged payr st = failure_charged st payr"

definition check_payer ::
  "externals \<Rightarrow> state \<Rightarrow> address \<Rightarrow> u64 \<Rightarrow> u128 \<Rightarrow> u128 \<Rightarrow> failure + account \<times> u128" where
  "check_payer E s payr nnc amount fee =
     res_bind (authorize E s payr nnc fee) (\<lambda>account.
     res_bind (map_err (charged payr) (ok_or (checked_add amount fee) Overflow)) (\<lambda>debit.
     if balance account < debit then Inl (failure_charged InsufficientBalance payr)
     else Inr (account, debit)))"

record bond =
  bd_amount :: u128
  bd_nonce :: u64
  bd_fee :: u128
  bd_min_stake :: u128

definition check_bond ::
  "externals \<Rightarrow> state \<Rightarrow> address \<Rightarrow> address \<Rightarrow> bond \<Rightarrow> failure + account \<times> u128 \<times> validator" where
  "check_bond E s funder val bond =
     res_bind (check_payer E s funder (bd_nonce bond) (bd_amount bond) (bd_fee bond))
       (\<lambda>(account, debit).
     res_bind (map_err (charged funder) (require_amount (bd_amount bond))) (\<lambda>_.
     res_bind (map_err (charged funder) (ok_or (load_validator_record E s val) Unauthorized))
       (\<lambda>bonded.
     res_bind (map_err (charged funder) (ok_or (checked_add (stake bonded) (bd_amount bond)) Overflow))
       (\<lambda>stk.
     res_bind (map_err (charged funder) (require_bonded stk (bd_min_stake bond))) (\<lambda>_.
     Inr (account, debit, \<lparr>stake = stk, active = (stk > 0)\<rparr>))))))"

subsection \<open>Validator records\<close>

definition sync_consensus_candidate ::
  "externals \<Rightarrow> state \<Rightarrow> address \<Rightarrow> validator option \<Rightarrow> state" where
  "sync_consensus_candidate E s addr val =
     (let registration = load_validator_registration E s addr;
          candidates = load_consensus_candidates E s
      in if val = None \<and> registration = None
         then (let (candidates', removed) = candidates_remove addr candidates
               in if removed then store_consensus_candidates E s candidates' else s)
         else store_consensus_candidates E s
           (candidates_upsert
             \<lparr>cand_address = addr,
              cand_stake = (case val of None \<Rightarrow> 0 | Some v \<Rightarrow> stake v),
              cand_identity = map_option (\<lambda>r. \<lparr>id_pubkey = reg_bls_pubkey r,
                id_pop_signature = reg_pop_signature r\<rparr>) registration\<rparr>
             candidates))"

definition commit_validator :: "externals \<Rightarrow> state \<Rightarrow> address \<Rightarrow> validator \<Rightarrow> state" where
  "commit_validator E s addr val =
     (let vset = load_validator_set E s;
          vset' = (if active val then validator_set_upsert addr (stake val) vset
                   else fst (validator_set_remove addr vset));
          s1 = store_validator E s addr val;
          s2 = store_validator_set E s1 vset'
      in sync_consensus_candidate E s2 addr (Some val))"

definition retire_validator :: "externals \<Rightarrow> state \<Rightarrow> address \<Rightarrow> state" where
  "retire_validator E s addr =
     (let s1 = delete s (validator_key addr);
          s2 = delete s1 (withdrawal_key addr);
          s3 = delete s2 (bonding_key addr);
          (registrations, removed) = registrations_remove addr (load_validator_registrations E s3);
          s4 = (if removed
                then store_validator_registrations E (delete s3 (registration_key addr)) registrations
                else s3)
      in sync_consensus_candidate E s4 addr None)"

definition unbond ::
  "externals \<Rightarrow> state \<Rightarrow> address \<Rightarrow> account \<Rightarrow> u128 \<Rightarrow> validator \<Rightarrow> withdrawal \<Rightarrow> state" where
  "unbond E s addr signer fee val w =
     (let queue = load_withdrawal_queue E s addr;
          es = wq_entries queue;
          es' = (if es \<noteq> [] \<and> mature_at_height (last es) = mature_at_height w
                 then butlast es @ [(last es)\<lparr>wd_amount := saturating_add (wd_amount (last es)) (wd_amount w)\<rparr>]
                 else es @ [w]);
          stk = stake val - wd_amount w;
          val' = \<lparr>stake = stk, active = (stk > 0)\<rparr>;
          signer' = \<lparr>nonce = saturating_add (nonce signer) 1, balance = balance signer - fee\<rparr>;
          s1 = store_account E s addr signer';
          s2 = commit_validator E s1 addr val'
      in store_withdrawal_queue E s2 addr \<lparr>wq_entries = es'\<rparr>)"

subsection \<open>Bonding clock (governance.rs)\<close>

definition UPGRADE_VOTER_MIN_AGE_BLOCKS :: u64 where "UPGRADE_VOTER_MIN_AGE_BLOCKS = 1024"

definition aged :: "u64 \<Rightarrow> u64 \<Rightarrow> bool" where
  "aged since height \<longleftrightarrow>
     (case checked_add since UPGRADE_VOTER_MIN_AGE_BLOCKS of None \<Rightarrow> False | Some mature \<Rightarrow> height \<ge> mature)"

definition unaged_bonding :: "externals \<Rightarrow> state \<Rightarrow> address \<Rightarrow> u64 \<Rightarrow> bonding option" where
  "unaged_bonding E s addr height =
     (case load_bonding E s addr of
        None \<Rightarrow> None
      | Some b \<Rightarrow> if \<not> aged (since_height b) height then Some b else None)"

definition record_bond :: "externals \<Rightarrow> state \<Rightarrow> address \<Rightarrow> u128 \<Rightarrow> u64 \<Rightarrow> state" where
  "record_bond E s addr amount height =
     (let unaged = (case unaged_bonding E s addr height of None \<Rightarrow> 0 | Some b \<Rightarrow> bond_amount b)
      in store_bonding E s addr
           \<lparr>bond_amount = saturating_add unaged amount, since_height = height\<rparr>)"

subsection \<open>Transfer\<close>

definition check_transfer ::
  "externals \<Rightarrow> state \<Rightarrow> u64 \<Rightarrow> u128 \<Rightarrow> transfer_tx \<Rightarrow> failure + account \<times> u128" where
  "check_transfer E s chain_id fee tx =
     res_bind (map_err failure_from
       (authenticate E (tr_from tx) (transfer_sig_message chain_id tx) (tr_signature tx))) (\<lambda>_.
     check_payer E s (tr_from tx) (tr_nonce tx) (tr_amount tx) fee)"

definition apply_transfer :: "externals \<Rightarrow> state \<Rightarrow> u64 \<Rightarrow> u128 \<Rightarrow> transfer_tx \<Rightarrow> failure + state" where
  "apply_transfer E s chain_id fee tx =
     res_bind (check_transfer E s chain_id fee tx) (\<lambda>(sender, total_debit).
     let new_sender_balance = balance sender - total_debit;
         new_sender_nonce = saturating_add (nonce sender) 1
     in if tr_from tx = tr_to tx
        then Inr (store_account E s (tr_from tx)
          \<lparr>nonce = new_sender_nonce, balance = saturating_add new_sender_balance (tr_amount tx)\<rparr>)
        else
          let receiver = load_account E s (tr_to tx)
          in (case checked_add (balance receiver) (tr_amount tx) of
                None \<Rightarrow> Inl (failure_charged Overflow (tr_from tx))
              | Some new_receiver_balance \<Rightarrow>
                  let s1 = store_account E s (tr_from tx)
                        \<lparr>nonce = new_sender_nonce, balance = new_sender_balance\<rparr>
                  in Inr (store_account E s1 (tr_to tx) (receiver\<lparr>balance := new_receiver_balance\<rparr>))))"

subsection \<open>Stake and deposit\<close>

definition check_stake ::
  "externals \<Rightarrow> state \<Rightarrow> u64 \<Rightarrow> u128 \<Rightarrow> u128 \<Rightarrow> stake_tx \<Rightarrow> failure + account \<times> u128 \<times> validator" where
  "check_stake E s chain_id fee min_stake tx =
     res_bind (map_err failure_from
       (authenticate E (st_validator tx) (stake_sig_message chain_id tx) (st_signature tx))) (\<lambda>_.
     check_bond E s (st_validator tx) (st_validator tx)
       \<lparr>bd_amount = st_amount tx, bd_nonce = st_nonce tx, bd_fee = fee, bd_min_stake = min_stake\<rparr>)"

definition apply_stake ::
  "externals \<Rightarrow> state \<Rightarrow> u64 \<Rightarrow> u64 \<Rightarrow> u128 \<Rightarrow> u128 \<Rightarrow> stake_tx \<Rightarrow> failure + state" where
  "apply_stake E s chain_id block_height fee min_stake tx =
     res_bind (check_stake E s chain_id fee min_stake tx) (\<lambda>(signer, debit, val).
     let s1 = store_account E s (st_validator tx)
           \<lparr>nonce = saturating_add (nonce signer) 1, balance = balance signer - debit\<rparr>;
         s2 = commit_validator E s1 (st_validator tx) val
     in Inr (record_bond E s2 (st_validator tx) (st_amount tx) block_height))"

definition check_deposit ::
  "externals \<Rightarrow> state \<Rightarrow> u64 \<Rightarrow> u128 \<Rightarrow> u128 \<Rightarrow> deposit_tx \<Rightarrow> failure + account \<times> u128 \<times> validator" where
  "check_deposit E s chain_id fee min_stake tx =
     res_bind (map_err failure_from
       (authenticate E (dp_depositor tx) (deposit_sig_message chain_id tx) (dp_signature tx))) (\<lambda>_.
     check_bond E s (dp_depositor tx) (dp_validator tx)
       \<lparr>bd_amount = dp_amount tx, bd_nonce = dp_nonce tx, bd_fee = fee, bd_min_stake = min_stake\<rparr>)"

definition apply_deposit ::
  "externals \<Rightarrow> state \<Rightarrow> u64 \<Rightarrow> u64 \<Rightarrow> u128 \<Rightarrow> u128 \<Rightarrow> deposit_tx \<Rightarrow> failure + state" where
  "apply_deposit E s chain_id block_height fee min_stake tx =
     res_bind (check_deposit E s chain_id fee min_stake tx) (\<lambda>(depositor, debit, val).
     let s1 = store_account E s (dp_depositor tx)
           \<lparr>nonce = saturating_add (nonce depositor) 1, balance = balance depositor - debit\<rparr>;
         s2 = commit_validator E s1 (dp_validator tx) val
     in Inr (record_bond E s2 (dp_validator tx) (dp_amount tx) block_height))"

subsection \<open>Unstake and voluntary exit\<close>

definition check_unstake ::
  "externals \<Rightarrow> state \<Rightarrow> u64 \<Rightarrow> u128 \<Rightarrow> u128 \<Rightarrow> unstake_tx \<Rightarrow> failure + account \<times> validator" where
  "check_unstake E s chain_id fee min_stake tx =
     res_bind (map_err failure_from
       (authenticate E (un_validator tx) (unstake_sig_message chain_id tx) (un_signature tx))) (\<lambda>_.
     res_bind (check_payer E s (un_validator tx) (un_nonce tx) 0 fee) (\<lambda>(signer, _).
     res_bind (map_err (charged (un_validator tx)) (require_amount (un_amount tx))) (\<lambda>_.
     let val = load_validator E s (un_validator tx)
     in if stake val < un_amount tx then Inl (charged (un_validator tx) InsufficientBalance)
        else res_bind (map_err (charged (un_validator tx))
               (require_bonded (stake val - un_amount tx) min_stake)) (\<lambda>_.
             Inr (signer, val)))))"

definition apply_unstake ::
  "externals \<Rightarrow> state \<Rightarrow> u64 \<Rightarrow> u64 \<Rightarrow> u64 \<Rightarrow> u128 \<Rightarrow> u128 \<Rightarrow> unstake_tx \<Rightarrow> failure + state" where
  "apply_unstake E s chain_id block_height unbonding_delay fee min_stake tx =
     res_bind (check_unstake E s chain_id fee min_stake tx) (\<lambda>(signer, val).
     res_bind (map_err (charged (un_validator tx))
       (ok_or (checked_add block_height unbonding_delay) Overflow)) (\<lambda>mature.
     Inr (unbond E s (un_validator tx) signer fee val
       \<lparr>wd_amount = un_amount tx, mature_at_height = mature\<rparr>)))"

definition check_voluntary_exit ::
  "externals \<Rightarrow> state \<Rightarrow> u64 \<Rightarrow> u128 \<Rightarrow> voluntary_exit_tx \<Rightarrow> failure + account \<times> validator" where
  "check_voluntary_exit E s chain_id fee tx =
     res_bind (map_err failure_from
       (authenticate E (ve_validator tx) (voluntary_exit_sig_message chain_id tx) (ve_signature tx))) (\<lambda>_.
     res_bind (check_payer E s (ve_validator tx) (ve_nonce tx) 0 fee) (\<lambda>(signer, _).
     let val = load_validator E s (ve_validator tx)
     in if stake val = 0 then Inl (failure_charged InsufficientBalance (ve_validator tx))
        else Inr (signer, val)))"

definition apply_voluntary_exit ::
  "externals \<Rightarrow> state \<Rightarrow> u64 \<Rightarrow> u64 \<Rightarrow> u64 \<Rightarrow> u128 \<Rightarrow> voluntary_exit_tx \<Rightarrow> failure + state" where
  "apply_voluntary_exit E s chain_id block_height unbonding_delay fee tx =
     res_bind (check_voluntary_exit E s chain_id fee tx) (\<lambda>(signer, val).
     res_bind (map_err (charged (ve_validator tx))
       (ok_or (checked_add block_height unbonding_delay) Overflow)) (\<lambda>mature.
     Inr (unbond E s (ve_validator tx) signer fee val
       \<lparr>wd_amount = stake val, mature_at_height = mature\<rparr>)))"

subsection \<open>Withdraw\<close>

definition holds :: "backlog \<Rightarrow> address \<Rightarrow> bool" where
  "holds b addr \<longleftrightarrow> addr \<in> bl_held b"

definition check_withdraw :: "externals \<Rightarrow> state \<Rightarrow> u64 \<Rightarrow> withdraw_tx \<Rightarrow> failure + account" where
  "check_withdraw E s chain_id tx =
     res_bind (map_err failure_from
       (authenticate E (wt_validator tx) (withdraw_sig_message chain_id tx) (wt_signature tx))) (\<lambda>_.
     map_err failure_from (signer_account E s (wt_validator tx) (wt_nonce tx)))"

definition admit_withdraw :: "externals \<Rightarrow> state \<Rightarrow> u64 \<Rightarrow> u128 \<Rightarrow> withdraw_tx \<Rightarrow> failure + account" where
  "admit_withdraw E s chain_id fee tx =
     res_bind (check_withdraw E s chain_id tx) (\<lambda>signer.
     if balance signer < fee then Inl (failure_from InsufficientBalance) else Inr signer)"

definition matured_amount :: "u64 \<Rightarrow> withdrawal list \<Rightarrow> u128" where
  "matured_amount block_height es =
     foldl (\<lambda>matured e. if mature_at_height e \<le> block_height
              then saturating_add matured (wd_amount e) else matured) 0 es"

definition pending_entries :: "u64 \<Rightarrow> withdrawal list \<Rightarrow> withdrawal list" where
  "pending_entries block_height es = filter (\<lambda>e. \<not> mature_at_height e \<le> block_height) es"

definition apply_withdraw ::
  "externals \<Rightarrow> state \<Rightarrow> u64 \<Rightarrow> u64 \<Rightarrow> backlog \<Rightarrow> u128 \<Rightarrow> withdraw_tx \<Rightarrow> failure + state" where
  "apply_withdraw E s chain_id block_height backlog fee tx =
     res_bind (check_withdraw E s chain_id tx) (\<lambda>signer.
     if holds backlog (wt_validator tx)
     then Inl (if balance signer \<ge> fee then failure_charged InsufficientBalance (wt_validator tx)
               else failure_from InsufficientBalance)
     else
       let es = wq_entries (load_withdrawal_queue E s (wt_validator tx));
           matured = matured_amount block_height es;
           rest = pending_entries block_height es
       in (case Option.bind (checked_add (balance signer) matured) (\<lambda>b. checked_sub b fee) of
             None \<Rightarrow> Inl (failure_from InsufficientBalance)
           | Some net_balance \<Rightarrow>
               let s1 = store_account E s (wt_validator tx)
                     \<lparr>nonce = saturating_add (nonce signer) 1, balance = net_balance\<rparr>
               in if rest \<noteq> []
                  then Inr (store_withdrawal_queue E s1 (wt_validator tx) \<lparr>wq_entries = rest\<rparr>)
                  else
                    let val = load_validator E s1 (wt_validator tx)
                    in if stake val = 0 \<and> \<not> active val
                       then Inr (retire_validator E s1 (wt_validator tx))
                       else Inr (delete s1 (withdrawal_key (wt_validator tx)))))"

subsection \<open>Register validator\<close>

definition check_register_validator ::
  "externals \<Rightarrow> state \<Rightarrow> u64 \<Rightarrow> u128 \<Rightarrow> u128 \<Rightarrow> register_validator_tx
     \<Rightarrow> failure + account \<times> u128 \<times> validator_registrations" where
  "check_register_validator E s chain_id fee min_stake tx =
     (let message = register_validator_sig_message chain_id tx
      in
      res_bind (map_err failure_from (authenticate E (rv_depositor tx) message (rv_signature tx))) (\<lambda>_.
      res_bind (map_err failure_from
        (authenticate E (rv_validator tx) message (rv_validator_signature tx))) (\<lambda>_.
      res_bind (check_payer E s (rv_depositor tx) (rv_nonce tx) (rv_deposit_amount tx) fee)
        (\<lambda>(depositor, debit).
      res_bind (map_err (charged (rv_depositor tx)) (require_amount (rv_deposit_amount tx))) (\<lambda>_.
      res_bind (map_err (charged (rv_depositor tx)) (require_bonded (rv_deposit_amount tx) min_stake))
        (\<lambda>_.
      let registrations = load_validator_registrations E s
      in if registrations_contains (rv_validator tx) registrations
         then Inl (charged (rv_depositor tx) InsufficientBalance)
         else
           let existing = load_validator E s (rv_validator tx)
           in if stake existing > 0 \<or> active existing
              then Inl (charged (rv_depositor tx) InsufficientBalance)
              else Inr (depositor, debit, registrations)))))))"

definition apply_register_validator ::
  "externals \<Rightarrow> state \<Rightarrow> u64 \<Rightarrow> u64 \<Rightarrow> u128 \<Rightarrow> u128 \<Rightarrow> register_validator_tx \<Rightarrow> failure + state" where
  "apply_register_validator E s chain_id block_height fee min_stake tx =
     res_bind (check_register_validator E s chain_id fee min_stake tx)
       (\<lambda>(depositor, debit, registrations).
     let val = \<lparr>stake = rv_deposit_amount tx, active = True\<rparr>;
         depositor' = \<lparr>nonce = saturating_add (nonce depositor) 1, balance = balance depositor - debit\<rparr>;
         registrations' = fst (registrations_insert (rv_validator tx) registrations);
         s1 = store_validator_registration E s
                \<lparr>reg_address = rv_validator tx,
                 reg_bls_pubkey = rv_bls_pubkey tx,
                 reg_pop_signature = rv_pop_signature tx,
                 registered_at_height = block_height\<rparr>;
         s2 = store_account E s1 (rv_depositor tx) depositor';
         s3 = store_validator_registrations E s2 registrations'
     in Inr (commit_validator E s3 (rv_validator tx) val))"

subsection \<open>Mandatory deductions\<close>

fun burn_queue :: "u128 \<Rightarrow> withdrawal list \<Rightarrow> withdrawal list" where
  "burn_queue remaining [] = []"
| "burn_queue remaining (e # es) =
     (if remaining = 0 then e # burn_queue remaining es
      else if wd_amount e \<le> remaining then burn_queue (remaining - wd_amount e) es
      else e\<lparr>wd_amount := wd_amount e - remaining\<rparr> # burn_queue 0 es)"

definition apply_deduction ::
  "externals \<Rightarrow> state \<Rightarrow> address \<Rightarrow> u128 \<Rightarrow> receipt_status + u128 \<times> state" where
  "apply_deduction E s addr amount =
     (let val = load_validator E s addr;
          queue = load_withdrawal_queue E s addr;
          total_slashable = saturating_add (stake val) (queue_total queue)
      in if total_slashable = 0 then Inl InsufficientBalance
         else
           let burn = min total_slashable amount;
               burn_from_stake = min (stake val) burn;
               stk = stake val - burn_from_stake;
               remaining = burn - burn_from_stake;
               queue_touched = (remaining > 0 \<and> wq_entries queue \<noteq> []);
               es = (if queue_touched then burn_queue remaining (wq_entries queue)
                     else wq_entries queue);
               s1 = commit_validator E s addr \<lparr>stake = stk, active = (stk > 0)\<rparr>;
               s2 = (if queue_touched
                     then if es = [] then delete s1 (withdrawal_key addr)
                          else store_withdrawal_queue E s1 addr \<lparr>wq_entries = es\<rparr>
                     else s1)
           in Inr (burn, s2))"

subsection \<open>Effect of the record operations\<close>

lemma frame_sync_candidate:
  "frame {KCandidates} s (sync_consensus_candidate E s a v)"
  by (auto simp: sync_consensus_candidate_def slot_ops Let_def split: prod.splits)

lemma frame_commit_validator:
  "frame {KValidator a, KValidatorSet, KCandidates} s (commit_validator E s a v)"
  unfolding commit_validator_def Let_def
  by (rule frame_mono [OF frame_trans [OF _ frame_sync_candidate]])
    (auto simp: slot_ops intro!: frame_upd [where W = "{KValidator a, KValidatorSet}"])

lemma frame_retire_validator:
  "frame {KValidator a, KWithdrawal a, KBonding a, KRegistrations, KRegistration a, KCandidates} s
     (retire_validator E s a)"
  unfolding retire_validator_def Let_def
  by (auto simp: slot_ops split: prod.splits
      intro!: frame_mono [OF frame_trans [OF _ frame_sync_candidate]]
        frame_upd [where W = "{KValidator a, KWithdrawal a, KBonding a, KRegistrations, KRegistration a}"])

context borsh
begin

lemma sync_candidate_loads [simp]:
  "load_account E (sync_consensus_candidate E s a v) = load_account E s"
  "load_validator_record E (sync_consensus_candidate E s a v) = load_validator_record E s"
  "load_withdrawal_queue E (sync_consensus_candidate E s a v) = load_withdrawal_queue E s"
  "load_validator_registration E (sync_consensus_candidate E s a v) = load_validator_registration E s"
  "load_bonding E (sync_consensus_candidate E s a v) = load_bonding E s"
  "load_validator_set E (sync_consensus_candidate E s a v) = load_validator_set E s"
  "load_validator_registrations E (sync_consensus_candidate E s a v) = load_validator_registrations E s"
  "load_runtime_policy E (sync_consensus_candidate E s a v) = load_runtime_policy E s"
  by (rule ext | simp add: frame_loads [OF frame_sync_candidate])+

lemma commit_validator_loads [simp]:
  "load_account E (commit_validator E s a v) = load_account E s"
  "load_validator_record E (commit_validator E s a v) = (load_validator_record E s)(a \<mapsto> v)"
  "load_withdrawal_queue E (commit_validator E s a v) = load_withdrawal_queue E s"
  "load_validator_registration E (commit_validator E s a v) = load_validator_registration E s"
  "load_bonding E (commit_validator E s a v) = load_bonding E s"
  "load_validator_set E (commit_validator E s a v) =
     (if active v then validator_set_upsert a (stake v) (load_validator_set E s)
      else fst (validator_set_remove a (load_validator_set E s)))"
  "load_validator_registrations E (commit_validator E s a v) = load_validator_registrations E s"
  "load_runtime_policy E (commit_validator E s a v) = load_runtime_policy E s"
  by (rule ext | simp add: frame_loads [OF frame_commit_validator])+
    (auto simp: commit_validator_def Let_def slot_ops)

lemma load_validator_fun: "load_validator E s = (\<lambda>a. unwrap_or (load_validator_record E s a) default_validator)"
  by (rule ext) (simp add: load_validator_def)

lemma commit_validator_load_validator [simp]:
  "load_validator E (commit_validator E s a v) = (load_validator E s)(a := v)"
  by (auto simp: load_validator_fun)

end

subsection \<open>Mirror invariant\<close>

text \<open>
  The canonical set and the candidate record are functions of the per-validator records: an
  address is seated exactly when its record is active, with the record's stake, and is a
  candidate exactly when it has a record or a registration.
\<close>

definition seat_of :: "address \<Rightarrow> validator option \<Rightarrow> validator_set_entry option" where
  "seat_of a v =
     (case v of
        None \<Rightarrow> None
      | Some r \<Rightarrow> if active r then Some \<lparr>vse_address = a, vse_stake = stake r\<rparr> else None)"

definition candidate_of ::
  "address \<Rightarrow> validator option \<Rightarrow> validator_registration option \<Rightarrow> consensus_candidate option" where
  "candidate_of a v r =
     (if v = None \<and> r = None then None
      else Some \<lparr>cand_address = a,
        cand_stake = (case v of None \<Rightarrow> 0 | Some x \<Rightarrow> stake x),
        cand_identity = map_option (\<lambda>x. \<lparr>id_pubkey = reg_bls_pubkey x,
          id_pop_signature = reg_pop_signature x\<rparr>) r\<rparr>)"

definition indexes_sorted :: "externals \<Rightarrow> state \<Rightarrow> bool" where
  "indexes_sorted E s \<longleftrightarrow>
     sorted_keys vse_address (vs_entries (load_validator_set E s))
     \<and> sorted_keys cand_address (cc_entries (load_consensus_candidates E s))
     \<and> sorted_keys id (reg_addresses (load_validator_registrations E s))"

definition records_ok :: "externals \<Rightarrow> state \<Rightarrow> bool" where
  "records_ok E s \<longleftrightarrow>
     (\<forall>a v. load_validator_record E s a = Some v \<longrightarrow> active v = (stake v > 0))
     \<and> (\<forall>a. a \<in> set (reg_addresses (load_validator_registrations E s))
            \<longleftrightarrow> load_validator_registration E s a \<noteq> None)"

definition mirror_at :: "externals \<Rightarrow> state \<Rightarrow> address \<Rightarrow> bool" where
  "mirror_at E s a \<longleftrightarrow>
     index_lookup vse_address (vs_entries (load_validator_set E s)) a
       = seat_of a (load_validator_record E s a)
     \<and> index_lookup cand_address (cc_entries (load_consensus_candidates E s)) a
       = candidate_of a (load_validator_record E s a) (load_validator_registration E s a)"

definition staking_inv :: "externals \<Rightarrow> state \<Rightarrow> bool" where
  "staking_inv E s \<longleftrightarrow> indexes_sorted E s \<and> records_ok E s \<and> (\<forall>a. mirror_at E s a)"

lemma staking_inv_frame:
  assumes frm: "frame W s s'"
    and W: "\<And>a. KValidator a \<notin> W" "\<And>a. KRegistration a \<notin> W"
      "KValidatorSet \<notin> W" "KCandidates \<notin> W" "KRegistrations \<notin> W"
  shows "staking_inv E s' \<longleftrightarrow> staking_inv E s"
proof -
  note loads = frame_loads [OF frm]
  have "load_validator_record E s' = load_validator_record E s"
    "load_validator_registration E s' = load_validator_registration E s"
    by (rule ext, rule loads(2) [OF W(1)]) (rule ext, rule loads(4) [OF W(2)])
  then show ?thesis
    by (simp only: staking_inv_def indexes_sorted_def records_ok_def mirror_at_def
        loads(6) [OF W(3)] loads(7) [OF W(4)] loads(8) [OF W(5)])
qed

context borsh
begin

lemma sync_candidate_lookup:
  assumes "sorted_keys cand_address (cc_entries (load_consensus_candidates E s))"
  shows "sorted_keys cand_address
      (cc_entries (load_consensus_candidates E (sync_consensus_candidate E s a v)))"
    and "index_lookup cand_address
        (cc_entries (load_consensus_candidates E (sync_consensus_candidate E s a v)))
      = (index_lookup cand_address (cc_entries (load_consensus_candidates E s)))
          (a := candidate_of a v (load_validator_registration E s a))"
  using assms candidates.sorted_ins [OF assms] candidates.lookup_ins [OF assms]
    candidates.sorted_del [OF assms, of a] candidates.lookup_del [OF assms, of a]
  by (auto simp: sync_consensus_candidate_def candidate_of_def slot_ops Let_def
      candidates_remove_def index_lookup_miss fun_upd_idem split: prod.splits sum.splits)

lemma commit_validator_inv:
  assumes srt: "indexes_sorted E s" and rec: "records_ok E s"
    and others: "\<And>b. b \<noteq> a \<Longrightarrow> mirror_at E s b"
    and act: "active v = (stake v > 0)"
  shows "staking_inv E (commit_validator E s a v)"
proof -
  have vs: "sorted_keys vse_address (vs_entries (load_validator_set E s))"
    and cs: "sorted_keys cand_address (cc_entries (load_consensus_candidates E s))"
    and rs: "sorted_keys id (reg_addresses (load_validator_registrations E s))"
    using srt by (simp_all add: indexes_sorted_def)
  let ?e = "\<lparr>vse_address = a, vse_stake = stake v\<rparr>"
  have set: "sorted_keys vse_address (vs_entries (load_validator_set E (commit_validator E s a v)))"
    "index_lookup vse_address (vs_entries (load_validator_set E (commit_validator E s a v)))
      = (index_lookup vse_address (vs_entries (load_validator_set E s)))(a := seat_of a (Some v))"
    using validators.sorted_ins [OF vs, of ?e] validators.lookup_ins [OF vs, of ?e]
      validators.sorted_del [OF vs, of a] validators.lookup_del [OF vs, of a]
    by (simp_all add: seat_of_def)
  let ?vset = "if active v then validator_set_upsert a (stake v) (load_validator_set E s)
    else fst (validator_set_remove a (load_validator_set E s))"
  let ?t = "store_validator_set E (store_validator E s a v) ?vset"
  have t: "commit_validator E s a v = sync_consensus_candidate E ?t a (Some v)"
    by (simp add: commit_validator_def Let_def)
  have lt: "load_consensus_candidates E ?t = load_consensus_candidates E s"
    "load_validator_registration E ?t = load_validator_registration E s"
    by (rule ext | simp add: slot_ops)+
  have cand: "sorted_keys cand_address
      (cc_entries (load_consensus_candidates E (commit_validator E s a v)))"
    "index_lookup cand_address (cc_entries (load_consensus_candidates E (commit_validator E s a v)))
      = (index_lookup cand_address (cc_entries (load_consensus_candidates E s)))
          (a := candidate_of a (Some v) (load_validator_registration E s a))"
    using sync_candidate_lookup [of ?t a "Some v"] cs unfolding t lt by simp_all
  show ?thesis
    using set cand rs rec others act
    by (auto simp: staking_inv_def indexes_sorted_def records_ok_def mirror_at_def)
qed

lemma staking_inv_mirror: "staking_inv E s \<Longrightarrow> indexes_sorted E s \<and> records_ok E s \<and> mirror_at E s b"
  by (simp add: staking_inv_def)

lemma store_account_inv [simp]: "staking_inv E (store_account E s a x) \<longleftrightarrow> staking_inv E s"
  by (rule staking_inv_frame [where W = "{KAccount a}"]) (auto simp: slot_ops)

lemma store_queue_inv [simp]: "staking_inv E (store_withdrawal_queue E s a q) \<longleftrightarrow> staking_inv E s"
  by (rule staking_inv_frame [where W = "{KWithdrawal a}"]) (auto simp: slot_ops)

lemma delete_queue_inv [simp]: "staking_inv E (delete s (key_bytes (KWithdrawal a))) \<longleftrightarrow> staking_inv E s"
  by (rule staking_inv_frame [where W = "{KWithdrawal a}"]) (auto simp: slot_ops)

lemma record_bond_inv [simp]: "staking_inv E (record_bond E s a x h) \<longleftrightarrow> staking_inv E s"
  by (rule staking_inv_frame [where W = "{KBonding a}"]) (auto simp: record_bond_def slot_ops Let_def)

lemma commit_validator_keeps_inv:
  "staking_inv E s \<Longrightarrow> active v = (stake v > 0) \<Longrightarrow> staking_inv E (commit_validator E s a v)"
  by (rule commit_validator_inv) (auto simp: staking_inv_def)

lemma unbond_inv: "staking_inv E s \<Longrightarrow> staking_inv E (unbond E s a acc fee v w)"
  by (simp add: unbond_def Let_def commit_validator_keeps_inv)

lemma apply_deduction_inv:
  "staking_inv E s \<Longrightarrow> apply_deduction E s a amount = Inr (burn, s') \<Longrightarrow> staking_inv E s'"
  by (auto simp: apply_deduction_def Let_def commit_validator_keeps_inv split: if_splits)

lemma retire_validator_loads [simp]:
  "load_account E (retire_validator E s a) = load_account E s"
  "load_validator_record E (retire_validator E s a) = (load_validator_record E s)(a := None)"
  "load_withdrawal_queue E (retire_validator E s a) = (load_withdrawal_queue E s)(a := \<lparr>wq_entries = []\<rparr>)"
  "load_validator_set E (retire_validator E s a) = load_validator_set E s"
  "load_runtime_policy E (retire_validator E s a) = load_runtime_policy E s"
  by (auto simp: retire_validator_def Let_def slot_ops fun_eq_iff split: prod.splits)

lemma retire_validator_load_validator [simp]:
  "load_validator E (retire_validator E s a) = (load_validator E s)(a := default_validator)"
  by (auto simp: load_validator_fun)

lemma retire_validator_registrations:
  assumes "staking_inv E s"
  shows "load_validator_registration E (retire_validator E s a) = (load_validator_registration E s)(a := None)"
    and "load_validator_registrations E (retire_validator E s a)
      = fst (registrations_remove a (load_validator_registrations E s))"
proof -
  have srt: "sorted_keys id (reg_addresses (load_validator_registrations E s))"
    and reg: "a \<in> set (reg_addresses (load_validator_registrations E s))
      \<longleftrightarrow> load_validator_registration E s a \<noteq> None"
    using assms by (simp_all add: staking_inv_def indexes_sorted_def records_ok_def)
  have rem: "snd (registrations_remove a (load_validator_registrations E s))
      \<longleftrightarrow> load_validator_registration E s a \<noteq> None"
    using binary_search_found_iff [OF srt, of a] reg
    by (auto simp: registrations_remove_def split: sum.splits)
  have id_rs: "fst (registrations_remove a (load_validator_registrations E s))
      = load_validator_registrations E s"
    if "\<not> snd (registrations_remove a (load_validator_registrations E s))"
    using that by (auto simp: registrations_remove_def split: sum.splits)
  show "load_validator_registration E (retire_validator E s a) = (load_validator_registration E s)(a := None)"
    and "load_validator_registrations E (retire_validator E s a)
      = fst (registrations_remove a (load_validator_registrations E s))"
    using rem id_rs
    by (auto simp: retire_validator_def Let_def slot_ops fun_eq_iff split_beta)
qed

lemma retire_validator_inv:
  assumes inv: "staking_inv E s" and idle: "\<not> active (load_validator E s a)"
  shows "staking_inv E (retire_validator E s a)"
proof -
  note regs = retire_validator_registrations [OF inv, of a]
  have cs: "sorted_keys cand_address (cc_entries (load_consensus_candidates E s))"
    and rs: "sorted_keys id (reg_addresses (load_validator_registrations E s))"
    using inv by (simp_all add: staking_inv_def indexes_sorted_def)
  define t where "t = (let s3 = delete (delete (delete s (validator_key a)) (withdrawal_key a)) (bonding_key a);
      (rs, removed) = registrations_remove a (load_validator_registrations E s3)
    in if removed then store_validator_registrations E (delete s3 (registration_key a)) rs else s3)"
  have t: "retire_validator E s a = sync_consensus_candidate E t a None"
    by (simp add: retire_validator_def t_def Let_def split_beta)
  have lt: "load_consensus_candidates E t = load_consensus_candidates E s"
    by (simp add: t_def Let_def split_beta slot_ops)
  have lr: "load_validator_registration E t a = None"
    using fun_cong [OF regs(1), of a] by (simp add: t)
  note cand = sync_candidate_lookup [of t a None, unfolded lt lr, OF cs, folded t]
  have seat: "seat_of a (load_validator_record E s a) = None"
    using idle by (auto simp: seat_of_def load_validator_def split: option.splits)
  show ?thesis
    using inv cand registrations.sorted_del [OF rs, of a] registrations.set_del [OF rs, of a] seat
    by (auto simp: staking_inv_def indexes_sorted_def records_ok_def mirror_at_def regs
        candidate_of_def seat_of_def)
qed

end

subsection \<open>Shared checks\<close>

lemma require_guards [simp]:
  "require_amount x = Inr u \<longleftrightarrow> x \<noteq> 0"
  "require_amount x = Inl st \<longleftrightarrow> x = 0 \<and> st = InsufficientBalance"
  "require_bonded x m = Inr u \<longleftrightarrow> x = 0 \<or> m \<le> x"
  "require_bonded x m = Inl st \<longleftrightarrow> x \<noteq> 0 \<and> x < m \<and> st = InsufficientBalance"
  "authenticate E a msg sg = Inr u \<longleftrightarrow> verify_signature E a msg sg"
  "authenticate E a msg sg = Inl st \<longleftrightarrow> \<not> verify_signature E a msg sg \<and> st = BadSignature"
  by (auto simp: require_amount_def require_bonded_def authenticate_def)

lemma charged_simps [simp]: "status (charged p st) = st" "payer (charged p st) = Some p"
  by (simp_all add: charged_def)

text \<open>A sender has authorized a transaction once nonce and fee check out.\<close>

definition authorized :: "externals \<Rightarrow> state \<Rightarrow> address \<Rightarrow> u64 \<Rightarrow> u128 \<Rightarrow> bool" where
  "authorized E s p n fee \<longleftrightarrow> nonce (load_account E s p) = n \<and> fee \<le> balance (load_account E s p)"

lemma signer_account_Inr:
  "signer_account E s p n = Inr acc \<longleftrightarrow> acc = load_account E s p \<and> nonce acc = n"
  by (auto simp: signer_account_def Let_def)

lemma authorize_Inr:
  "authorize E s p n fee = Inr acc \<longleftrightarrow> acc = load_account E s p \<and> authorized E s p n fee"
  by (auto simp: authorize_def signer_account_def authorized_def Let_def not_less split: if_splits)

lemma authorize_Inl: "authorize E s p n fee = Inl f \<Longrightarrow> payer f = None"
  by (auto simp: authorize_def signer_account_def Let_def split: if_splits)

lemma check_payer_Inr:
  "check_payer E s p n amt fee = Inr (acc, debit) \<longleftrightarrow>
     acc = load_account E s p \<and> authorized E s p n fee
     \<and> checked_add amt fee = Some debit \<and> debit \<le> balance acc"
  by (auto simp: check_payer_def res_iffs authorize_Inr not_less split: if_splits)

lemma check_payer_Inl:
  "check_payer E s p n amt fee = Inl f \<Longrightarrow> payer f = Some q \<Longrightarrow> q = p \<and> authorized E s p n fee"
  by (auto simp: check_payer_def res_iffs authorize_Inr split: if_splits dest: authorize_Inl)

lemma check_bond_Inr:
  "check_bond E s f a b = Inr (acc, debit, v) \<longleftrightarrow>
     check_payer E s f (bd_nonce b) (bd_amount b) (bd_fee b) = Inr (acc, debit)
     \<and> bd_amount b \<noteq> 0
     \<and> (\<exists>r. load_validator_record E s a = Some r
          \<and> unat (stake r) + unat (bd_amount b) = unat (stake v)
          \<and> (stake v = 0 \<or> bd_min_stake b \<le> stake v) \<and> active v = (stake v > 0))"
  by (cases v) (auto simp: check_bond_def res_iffs checked_add_Some_iff)

lemma check_bond_Inl:
  "check_bond E s p a b = Inl f \<Longrightarrow> payer f = Some q \<Longrightarrow>
     q = p \<and> authorized E s p (bd_nonce b) (bd_fee b)"
  by (auto simp: check_bond_def res_iffs check_payer_Inr dest: check_payer_Inl)

subsection \<open>The contract of a signed handler\<close>

text \<open>Keys of the mandatory phase, which no ordinary transaction writes.\<close>

fun mandatory_key :: "key \<Rightarrow> bool" where
  "mandatory_key KQueue = True"
| "mandatory_key KTotals = True"
| "mandatory_key (KOffence _) = True"
| "mandatory_key (KSlashed _) = True"
| "mandatory_key (KExpiry _) = True"
| "mandatory_key KParticipation = True"
| "mandatory_key (KAbsent _) = True"
| "mandatory_key _ = False"

locale signed_handler =
  fixes E :: externals
    and run :: "state \<Rightarrow> failure + state"
    and sender :: address
    and expected :: u64
    and fee :: u128
  assumes success_nonce: "run s = Inr s' \<Longrightarrow>
      nonce (load_account E s sender) = expected
      \<and> nonce (load_account E s' sender) = saturating_add expected 1"
    and success_others: "run s = Inr s' \<Longrightarrow> a \<noteq> sender \<Longrightarrow>
      nonce (load_account E s' a) = nonce (load_account E s a)"
    and success_funds: "run s = Inr s' \<Longrightarrow> total_funds E s < 2 ^ 128 \<Longrightarrow>
      total_funds E s' + unat fee = total_funds E s"
    and success_inv: "run s = Inr s' \<Longrightarrow> staking_inv E s \<Longrightarrow> staking_inv E s'"
    and success_frame: "run s = Inr s' \<Longrightarrow> frame {k. \<not> mandatory_key k} s s'"
    and failure_payer: "run s = Inl f \<Longrightarrow> payer f = Some p \<Longrightarrow>
      p = sender \<and> authorized E s sender expected fee"
begin

lemma replay_rejected:
  assumes "run s = Inr s'" and "expected \<noteq> - 1"
  shows "\<exists>f. run s' = Inl f \<and> payer f = None"
proof -
  have ne: "nonce (load_account E s' sender) \<noteq> expected"
  proof -
    have "unat (saturating_add expected 1) \<noteq> unat expected"
      using assms(2) unat_max_word [where 'a = 64] unat_lt [of expected]
      by (auto simp: unat_saturating_add word_unat_eq_iff min_def)
    then show ?thesis using success_nonce [OF assms(1)] by auto
  qed
  show ?thesis
  proof (cases "run s'")
    case (Inl f)
    then show ?thesis using failure_payer [OF Inl] ne by (cases "payer f") (auto simp: authorized_def)
  next
    case (Inr s'')
    then show ?thesis using success_nonce [OF Inr] ne by simp
  qed
qed

end

end
