(* ===== verification/Staking_Contract.thy ===== *)
theory Staking_Contract
  imports Staking
begin

text \<open>
  The seven staking handlers meet the contract \<open>signed_handler\<close>: on success the sender's nonce was
  the expected one and moves on by one, nobody else's nonce changes, the ledger total drops by
  exactly the fee, the mirror invariant is kept and no key of the mandatory phase is written; a
  failure that names a payer names the sender, and only after the sender authorized the
  transaction.
\<close>

subsection \<open>Amounts\<close>

lemma matured_amount_filter:
  "matured_amount h es
     = foldl (\<lambda>t e. saturating_add t (wd_amount e)) 0 (filter (\<lambda>e. mature_at_height e \<le> h) es)"
proof -
  have "foldl (\<lambda>m e. if mature_at_height e \<le> h then saturating_add m (wd_amount e) else m) a es
      = foldl (\<lambda>t e. saturating_add t (wd_amount e)) a (filter (\<lambda>e. mature_at_height e \<le> h) es)"
    for a by (induction es arbitrary: a) simp_all
  then show ?thesis by (simp add: matured_amount_def)
qed

definition matured_sum :: "u64 \<Rightarrow> withdrawal list \<Rightarrow> nat" where
  "matured_sum h es = queue_sum \<lparr>wq_entries = filter (\<lambda>e. mature_at_height e \<le> h) es\<rparr>"

lemma unat_matured_amount: "unat (matured_amount h es) = min (2 ^ 128 - 1) (matured_sum h es)"
  unfolding matured_amount_filter matured_sum_def queue_sum_def
  by (subst unat_saturating_foldl) simp

lemma matured_plus_pending:
  "matured_sum h es + queue_sum \<lparr>wq_entries = pending_entries h es\<rparr> = queue_sum \<lparr>wq_entries = es\<rparr>"
  by (induction es) (simp_all add: matured_sum_def pending_entries_def)

lemma burn_queue_zero [simp]: "burn_queue 0 es = es"
  by (induction es) simp_all

lemma burn_queue_sum:
  "queue_sum \<lparr>wq_entries = burn_queue r es\<rparr> = queue_sum \<lparr>wq_entries = es\<rparr> - unat r"
proof (induction r es rule: burn_queue.induct)
  case (2 r e es)
  then show ?case
    by (auto simp: word_le_nat_alt word_less_nat_alt unat_sub_exact not_le)
qed simp

lemma unbond_queue_sum:
  assumes "queue_sum \<lparr>wq_entries = es\<rparr> + unat (wd_amount w) < 2 ^ 128"
  shows "queue_sum \<lparr>wq_entries =
      (if es \<noteq> [] \<and> mature_at_height (last es) = mature_at_height w
       then butlast es @ [(last es)\<lparr>wd_amount := saturating_add (wd_amount (last es)) (wd_amount w)\<rparr>]
       else es @ [w])\<rparr> = queue_sum \<lparr>wq_entries = es\<rparr> + unat (wd_amount w)"
proof (cases "es = []")
  case False
  then obtain xs x where es: "es = xs @ [x]" by (metis append_butlast_last_id)
  then show ?thesis using assms by (simp add: unat_saturating_add)
qed simp

lemma net_balance_exact:
  "Option.bind (checked_add b m) (\<lambda>x. checked_sub x fee) = Some n \<Longrightarrow>
     unat n + unat fee = unat b + unat m"
  by (auto simp: bind_eq_Some_conv checked_add_Some_iff checked_sub_Some_iff)

subsection \<open>Effects\<close>

context borsh
begin

lemma transfer_effect:
  assumes "apply_transfer E s c fee tx = Inr s'"
  shows "authorized E s (tr_from tx) (tr_nonce tx) fee
    \<and> nonce (load_account E s' (tr_from tx)) = saturating_add (tr_nonce tx) 1
    \<and> (\<forall>a. a \<noteq> tr_from tx \<longrightarrow> nonce (load_account E s' a) = nonce (load_account E s a))
    \<and> frame {KAccount (tr_from tx), KAccount (tr_to tx)} s s'"
proof (cases "tr_from tx = tr_to tx")
  case True
  then show ?thesis
    using assms
    by (auto simp: apply_transfer_def check_transfer_def res_iffs check_payer_Inr slot_ops Let_def
        authorized_def)
next
  case False
  then show ?thesis
    using assms
    by (auto simp: apply_transfer_def check_transfer_def res_iffs check_payer_Inr slot_ops Let_def
        authorized_def intro!: frame_upd split: option.splits)
qed

lemma transfer_balance:
  assumes run: "apply_transfer E s c fee tx = Inr s'"
  shows "total_balance E s' + unat fee = total_balance E s"
proof -
  let ?p = "tr_from tx" and ?q = "tr_to tx"
  let ?acc = "load_account E s ?p"
  from run obtain debit where chk: "checked_add (tr_amount tx) fee = Some debit" "debit \<le> balance ?acc"
    by (auto simp: apply_transfer_def check_transfer_def res_iffs check_payer_Inr)
  then have d: "unat debit = unat (tr_amount tx) + unat fee"
    and le: "unat debit \<le> unat (balance ?acc)"
    and sub: "unat (balance ?acc - debit) = unat (balance ?acc) - unat debit"
    by (simp_all add: checked_add_Some_iff word_le_nat_alt unat_sub_exact)
  let ?x = "\<lparr>nonce = saturating_add (nonce ?acc) 1, balance = balance ?acc - debit\<rparr>"
  show ?thesis
  proof (cases "?p = ?q")
    case True
    let ?y = "?x\<lparr>balance := saturating_add (balance ?acc - debit) (tr_amount tx)\<rparr>"
    have "load_account E s' = (load_account E s)(?p := ?y)"
      using run True chk
      by (auto simp: apply_transfer_def check_transfer_def res_iffs check_payer_Inr slot_ops Let_def)
    from total_balance_upd [OF this] show ?thesis
      using d le sub unat_lt [of "balance ?acc"]
      by (simp add: unat_saturating_add min_def split: if_splits)
  next
    case False
    then obtain b where b: "checked_add (balance (load_account E s ?q)) (tr_amount tx) = Some b"
      and s': "s' = store_account E (store_account E s ?p ?x) ?q ((load_account E s ?q)\<lparr>balance := b\<rparr>)"
      using run chk
      by (auto simp: apply_transfer_def check_transfer_def res_iffs check_payer_Inr Let_def
          split: option.splits)
    let ?s1 = "store_account E s ?p ?x"
    have l1: "load_account E ?s1 = (load_account E s)(?p := ?x)"
      and l2: "load_account E s' = (load_account E ?s1)(?q := (load_account E s ?q)\<lparr>balance := b\<rparr>)"
      by (auto simp: s' slot_ops)
    show ?thesis
      using total_balance_upd [OF l1] total_balance_upd [OF l2] d le sub b False
      by (simp add: l1 checked_add_Some_iff)
  qed
qed

text \<open>Stake and deposit share one tail.\<close>

lemma bond_effect:
  assumes chk: "check_bond E s p a b = Inr (acc, debit, v)"
    and s': "s' = record_bond E (commit_validator E (store_account E s p
      \<lparr>nonce = saturating_add (nonce acc) 1, balance = balance acc - debit\<rparr>) a v) a amt h"
  shows "load_account E s' = (load_account E s)
      (p := \<lparr>nonce = saturating_add (nonce acc) 1, balance = balance acc - debit\<rparr>)"
    and "authorized E s p (bd_nonce b) (bd_fee b)" and "nonce acc = bd_nonce b"
    and "total_funds E s' + unat (bd_fee b) = total_funds E s"
    and "staking_inv E s \<Longrightarrow> staking_inv E s'"
    and "frame {KAccount p, KValidator a, KValidatorSet, KCandidates, KBonding a} s s'"
proof -
  let ?x = "\<lparr>nonce = saturating_add (nonce acc) 1, balance = balance acc - debit\<rparr>"
  let ?s1 = "store_account E s p ?x"
  from chk obtain r where pay: "check_payer E s p (bd_nonce b) (bd_amount b) (bd_fee b) = Inr (acc, debit)"
    and r: "load_validator_record E s a = Some r"
    and st: "unat (stake r) + unat (bd_amount b) = unat (stake v)" "active v = (stake v > 0)"
    by (auto simp: check_bond_Inr)
  then show auth: "authorized E s p (bd_nonce b) (bd_fee b)" and "nonce acc = bd_nonce b"
    by (auto simp: check_payer_Inr authorized_def)
  from pay have acc: "acc = load_account E s p"
    and d: "unat (bd_amount b) + unat (bd_fee b) = unat debit"
    and sub: "unat (balance acc - debit) = unat (balance acc) - unat debit" "unat debit \<le> unat (balance acc)"
    by (auto simp: check_payer_Inr checked_add_Some_iff unat_sub_exact word_le_nat_alt)
  show la: "load_account E s' = (load_account E s)(p := ?x)"
    by (auto simp: s' record_bond_def slot_ops Let_def)
  have lv: "load_validator E s' = (load_validator E s)(a := v)"
  proof -
    have "load_validator E s' = load_validator E (commit_validator E ?s1 a v)"
      by (auto simp: s' record_bond_def slot_ops Let_def)
    also have "\<dots> = (load_validator E s)(a := v)" by (auto simp: slot_ops)
    finally show ?thesis .
  qed
  have lq: "load_withdrawal_queue E s' = load_withdrawal_queue E s"
    by (auto simp: s' record_bond_def slot_ops Let_def)
  have "load_validator E s a = r" by (simp add: load_validator_def r)
  then show "total_funds E s' + unat (bd_fee b) = total_funds E s"
    using total_balance_upd [OF la] total_bonded_upd [OF lv] total_same(3) [OF lq] st(1) d sub
      account_le_total(1) [of E s p]
    by (simp add: total_funds_def acc)
  show "staking_inv E s'" if "staking_inv E s"
    using that st(2) by (simp add: s' commit_validator_keeps_inv)
  show "frame {KAccount p, KValidator a, KValidatorSet, KCandidates, KBonding a} s s'"
  proof -
    have "frame ({KAccount p} \<union> {KValidator a, KValidatorSet, KCandidates}) s (commit_validator E ?s1 a v)"
      by (rule frame_trans [OF _ frame_commit_validator]) (auto simp: slot_ops)
    then show ?thesis
      by (auto simp: s' record_bond_def slot_ops Let_def intro!: frame_upd elim: frame_mono)
  qed
qed

text \<open>Unstake and voluntary exit share \<open>unbond\<close>.\<close>

lemma unbond_effect:
  assumes pay: "check_payer E s p n 0 fee = Inr (acc, d)"
    and w: "wd_amount w \<le> stake (load_validator E s p)"
    and s': "s' = unbond E s p acc fee (load_validator E s p) w"
  shows "load_account E s' = (load_account E s)
      (p := \<lparr>nonce = saturating_add (nonce acc) 1, balance = balance acc - fee\<rparr>)"
    and "authorized E s p n fee" and "nonce acc = n"
    and "total_funds E s < 2 ^ 128 \<Longrightarrow> total_funds E s' + unat fee = total_funds E s"
    and "staking_inv E s \<Longrightarrow> staking_inv E s'"
    and "frame {KAccount p, KValidator p, KValidatorSet, KCandidates, KWithdrawal p} s s'"
proof -
  let ?x = "\<lparr>nonce = saturating_add (nonce acc) 1, balance = balance acc - fee\<rparr>"
  let ?s1 = "store_account E s p ?x"
  let ?stk = "stake (load_validator E s p) - wd_amount w"
  let ?v = "\<lparr>stake = ?stk, active = (?stk > 0)\<rparr>"
  let ?es = "wq_entries (load_withdrawal_queue E s p)"
  let ?es' = "if ?es \<noteq> [] \<and> mature_at_height (last ?es) = mature_at_height w
       then butlast ?es @ [(last ?es)\<lparr>wd_amount := saturating_add (wd_amount (last ?es)) (wd_amount w)\<rparr>]
       else ?es @ [w]"
  from pay show auth: "authorized E s p n fee" and "nonce acc = n"
    by (auto simp: check_payer_Inr authorized_def)
  from pay have acc: "acc = load_account E s p" by (simp add: check_payer_Inr)
  have sub: "unat (balance acc - fee) + unat fee = unat (balance acc)"
    "unat ?stk + unat (wd_amount w) = unat (stake (load_validator E s p))"
    using auth w by (simp_all add: acc authorized_def unat_sub_exact word_le_nat_alt)
  have S: "s' = store_withdrawal_queue E (commit_validator E ?s1 p ?v) p \<lparr>wq_entries = ?es'\<rparr>"
    by (simp only: s' unbond_def Let_def)
  show la: "load_account E s' = (load_account E s)(p := ?x)"
    unfolding S by (auto simp: slot_ops)
  have lv: "load_validator E s' = (load_validator E s)(p := ?v)"
  proof -
    have "load_validator E s' = load_validator E (commit_validator E ?s1 p ?v)"
      unfolding S by (rule ext) (simp add: slot_ops)
    also have "\<dots> = (load_validator E s)(p := ?v)" by (auto simp: slot_ops)
    finally show ?thesis .
  qed
  have lq: "load_withdrawal_queue E s' = (load_withdrawal_queue E s)(p := \<lparr>wq_entries = ?es'\<rparr>)"
    unfolding S by (rule ext) (simp add: slot_ops)
  have q: "\<lparr>wq_entries = ?es\<rparr> = load_withdrawal_queue E s p" by simp
  show "total_funds E s' + unat fee = total_funds E s" if bound: "total_funds E s < 2 ^ 128"
  proof -
    have "queue_sum \<lparr>wq_entries = ?es\<rparr> + unat (wd_amount w) < 2 ^ 128"
      using bound sub(2) account_le_total(2,3) [of E s p] unfolding q total_funds_def by linarith
    from unbond_queue_sum [OF this]
    have "queue_sum \<lparr>wq_entries = ?es'\<rparr> = queue_sum (load_withdrawal_queue E s p) + unat (wd_amount w)"
      unfolding q .
    then show ?thesis
      using total_balance_upd [OF la] total_bonded_upd [OF lv] total_queued_upd [OF lq] sub
      unfolding total_funds_def acc by simp
  qed
  show "staking_inv E s'" if "staking_inv E s"
    using that by (simp add: s' unbond_inv)
  have "frame ({KAccount p} \<union> {KValidator p, KValidatorSet, KCandidates}) s (commit_validator E ?s1 p ?v)"
    by (rule frame_trans [OF _ frame_commit_validator]) (auto simp: slot_ops)
  then show "frame {KAccount p, KValidator p, KValidatorSet, KCandidates, KWithdrawal p} s s'"
    unfolding S by (auto intro!: frame_stores elim: frame_mono)
qed

lemma withdraw_run:
  assumes "apply_withdraw E s c h bl fee tx = Inr s'"
  obtains net where
    "nonce (load_account E s (wt_validator tx)) = wt_nonce tx"
    "\<not> holds bl (wt_validator tx)"
    "unat net + unat fee = unat (balance (load_account E s (wt_validator tx)))
       + unat (matured_amount h (wq_entries (load_withdrawal_queue E s (wt_validator tx))))"
    "s' = (let p = wt_validator tx;
               s1 = store_account E s p \<lparr>nonce = saturating_add (wt_nonce tx) 1, balance = net\<rparr>;
               rest = pending_entries h (wq_entries (load_withdrawal_queue E s p))
           in if rest \<noteq> [] then store_withdrawal_queue E s1 p \<lparr>wq_entries = rest\<rparr>
              else if stake (load_validator E s p) = 0 \<and> \<not> active (load_validator E s p)
              then retire_validator E s1 p else delete s1 (withdrawal_key p))"
proof -
  let ?p = "wt_validator tx"
  have lv: "load_validator E (store_account E s ?p x) ?p = load_validator E s ?p" for x
    by (simp add: slot_ops)
  from assms show ?thesis
    by (auto simp: apply_withdraw_def check_withdraw_def res_iffs signer_account_Inr Let_def lv
        split: if_splits option.splits intro!: that net_balance_exact)
qed

lemma withdraw_effect:
  assumes run: "apply_withdraw E s c h bl fee tx = Inr s'"
  shows "nonce (load_account E s (wt_validator tx)) = wt_nonce tx"
    and "nonce (load_account E s' a) =
      (if a = wt_validator tx then saturating_add (wt_nonce tx) 1 else nonce (load_account E s a))"
    and "total_funds E s < 2 ^ 128 \<Longrightarrow> total_funds E s' + unat fee = total_funds E s"
    and "staking_inv E s \<Longrightarrow> staking_inv E s'"
    and "frame {KAccount (wt_validator tx), KWithdrawal (wt_validator tx), KValidator (wt_validator tx),
      KBonding (wt_validator tx), KRegistrations, KRegistration (wt_validator tx), KCandidates} s s'"
proof -
  let ?p = "wt_validator tx"
  let ?es = "wq_entries (load_withdrawal_queue E s ?p)"
  let ?rest = "pending_entries h ?es"
  let ?val = "load_validator E s ?p"
  from run obtain net where nn: "nonce (load_account E s ?p) = wt_nonce tx"
    and net: "unat net + unat fee = unat (balance (load_account E s ?p)) + unat (matured_amount h ?es)"
    and s': "s' = (let s1 = store_account E s ?p \<lparr>nonce = saturating_add (wt_nonce tx) 1, balance = net\<rparr>
      in if ?rest \<noteq> [] then store_withdrawal_queue E s1 ?p \<lparr>wq_entries = ?rest\<rparr>
         else if stake ?val = 0 \<and> \<not> active ?val then retire_validator E s1 ?p
         else delete s1 (withdrawal_key ?p))"
    by (rule withdraw_run) (simp add: Let_def)
  let ?x = "\<lparr>nonce = saturating_add (wt_nonce tx) 1, balance = net\<rparr>"
  let ?s1 = "store_account E s ?p ?x"
  have l1: "load_account E ?s1 = (load_account E s)(?p := ?x)"
    "load_validator E ?s1 = load_validator E s"
    "load_withdrawal_queue E ?s1 = load_withdrawal_queue E s"
    by (auto simp: slot_ops)
  show "nonce (load_account E s ?p) = wt_nonce tx" by (rule nn)
  have la: "load_account E s' = (load_account E s)(?p := ?x)"
    by (auto simp: s' l1 Let_def) (auto simp: slot_ops l1)
  then show "nonce (load_account E s' a) =
      (if a = ?p then saturating_add (wt_nonce tx) 1 else nonce (load_account E s a))"
    by simp
  have lq: "load_withdrawal_queue E s' = (load_withdrawal_queue E s)(?p := \<lparr>wq_entries = ?rest\<rparr>)"
    by (auto simp: s' l1 Let_def) (auto simp: slot_ops l1)
  have lv: "total_bonded E s' = total_bonded E s"
  proof (cases "?rest = [] \<and> stake ?val = 0 \<and> \<not> active ?val")
    case True
    then have "load_validator E s' = (load_validator E s)(?p := default_validator)"
      by (simp add: s' l1 Let_def)
    from total_bonded_upd [OF this] True show ?thesis by (simp add: default_validator_def)
  next
    case False
    then have "load_validator E s' = load_validator E s"
      by (auto simp: s' Let_def slot_ops)
    then show ?thesis by (rule total_same)
  qed
  have q: "\<lparr>wq_entries = ?es\<rparr> = load_withdrawal_queue E s ?p" by simp
  show "total_funds E s' + unat fee = total_funds E s" if bound: "total_funds E s < 2 ^ 128"
  proof -
    have "matured_sum h ?es < 2 ^ 128"
      using bound matured_plus_pending [of h ?es] account_le_total(3) [of E s ?p]
      unfolding q total_funds_def by linarith
    then have "unat (matured_amount h ?es) = matured_sum h ?es"
      by (simp add: unat_matured_amount)
    then show ?thesis
      using total_balance_upd [OF la] total_queued_upd [OF lq] lv net matured_plus_pending [of h ?es]
      unfolding q total_funds_def by simp
  qed
  show "staking_inv E s'" if "staking_inv E s"
    using that by (simp add: s' Let_def retire_validator_inv l1)
  have "frame ({KAccount ?p} \<union> {KValidator ?p, KWithdrawal ?p, KBonding ?p, KRegistrations,
      KRegistration ?p, KCandidates}) s (retire_validator E ?s1 ?p)"
    by (rule frame_trans [OF _ frame_retire_validator]) (auto intro!: frame_stores)
  then show "frame {KAccount ?p, KWithdrawal ?p, KValidator ?p, KBonding ?p, KRegistrations,
      KRegistration ?p, KCandidates} s s'"
    by (auto simp: s' Let_def intro!: frame_stores elim: frame_mono)
qed

lemma register_effect:
  assumes run: "apply_register_validator E s c h fee m tx = Inr s'"
  shows "authorized E s (rv_depositor tx) (rv_nonce tx) fee"
    and "nonce (load_account E s' a) =
      (if a = rv_depositor tx then saturating_add (rv_nonce tx) 1 else nonce (load_account E s a))"
    and "total_funds E s' + unat fee = total_funds E s"
    and "staking_inv E s \<Longrightarrow> staking_inv E s'"
    and "frame {KAccount (rv_depositor tx), KValidator (rv_validator tx), KValidatorSet, KCandidates,
      KRegistrations, KRegistration (rv_validator tx)} s s'"
proof -
  let ?p = "rv_depositor tx" and ?q = "rv_validator tx"
  let ?acc = "load_account E s ?p" and ?rs = "load_validator_registrations E s"
  from run obtain debit where auth: "authorized E s ?p (rv_nonce tx) fee"
    and chk: "checked_add (rv_deposit_amount tx) fee = Some debit" "debit \<le> balance ?acc"
    and amt: "rv_deposit_amount tx \<noteq> 0"
    and fresh: "\<not> registrations_contains ?q ?rs" "stake (load_validator E s ?q) = 0"
    by (auto simp: apply_register_validator_def check_register_validator_def res_iffs Let_def
        check_payer_Inr word_gt_0 split: if_splits)
  let ?x = "\<lparr>nonce = saturating_add (nonce ?acc) 1, balance = balance ?acc - debit\<rparr>"
  let ?v = "\<lparr>stake = rv_deposit_amount tx, active = True\<rparr>"
  let ?r = "\<lparr>reg_address = ?q, reg_bls_pubkey = rv_bls_pubkey tx,
    reg_pop_signature = rv_pop_signature tx, registered_at_height = h\<rparr>"
  let ?rs' = "fst (registrations_insert ?q ?rs)"
  define t where "t = store_validator_registrations E
    (store_account E (store_validator_registration E s ?r) ?p ?x) ?rs'"
  have s': "s' = commit_validator E t ?q ?v"
    using run chk
    by (auto simp: apply_register_validator_def check_register_validator_def res_iffs Let_def
        check_payer_Inr t_def split: if_splits)
  have lt: "load_account E t = (load_account E s)(?p := ?x)"
    "load_validator_record E t = load_validator_record E s"
    "load_withdrawal_queue E t = load_withdrawal_queue E s"
    "load_validator_registration E t = (load_validator_registration E s)(?q \<mapsto> ?r)"
    "load_validator_set E t = load_validator_set E s"
    "load_consensus_candidates E t = load_consensus_candidates E s"
    "load_validator_registrations E t = ?rs'"
    unfolding t_def by (auto simp: registrations_roundtrip) (auto simp: slot_ops)
  show "authorized E s ?p (rv_nonce tx) fee" by (rule auth)
  then show "nonce (load_account E s' a) =
      (if a = ?p then saturating_add (rv_nonce tx) 1 else nonce (load_account E s a))"
    by (simp add: s' lt authorized_def)
  have la: "load_account E s' = (load_account E s)(?p := ?x)" by (simp add: s' lt)
  have lv: "load_validator E s' = (load_validator E s)(?q := ?v)"
    by (auto simp: s' load_validator_fun lt)
  have lq: "load_withdrawal_queue E s' = load_withdrawal_queue E s" by (simp add: s' lt)
  show "total_funds E s' + unat fee = total_funds E s"
    using total_balance_upd [OF la] total_bonded_upd [OF lv] total_same(3) [OF lq] chk fresh(2)
    by (simp add: total_funds_def checked_add_Some_iff unat_sub_exact word_le_nat_alt)
  show "staking_inv E s'" if inv: "staking_inv E s"
  proof -
    have rs: "sorted_keys id (reg_addresses ?rs)"
      using inv by (simp add: staking_inv_def indexes_sorted_def)
    have "indexes_sorted E t"
      using inv registrations.sorted_ins [OF rs, of ?q]
      by (simp add: staking_inv_def indexes_sorted_def lt)
    moreover have "records_ok E t"
      using inv registrations.set_ins [OF rs, of ?q]
      by (auto simp: staking_inv_def records_ok_def lt)
    moreover have "mirror_at E t b" if "b \<noteq> ?q" for b
      using inv that by (simp add: staking_inv_def mirror_at_def lt)
    moreover have "active ?v = (stake ?v > 0)" using amt by (simp add: word_neq_0_conv)
    ultimately show ?thesis unfolding s' by (rule commit_validator_inv)
  qed
  have "frame ({KAccount ?p, KRegistrations, KRegistration ?q} \<union> {KValidator ?q, KValidatorSet, KCandidates})
      s (commit_validator E t ?q ?v)"
    by (rule frame_trans [OF _ frame_commit_validator]) (auto simp: t_def intro!: frame_stores)
  then show "frame {KAccount ?p, KValidator ?q, KValidatorSet, KCandidates, KRegistrations,
      KRegistration ?q} s s'"
    unfolding s' by (rule frame_mono) auto
qed

subsection \<open>The handlers meet the contract\<close>

end

sublocale borsh \<subseteq> transfer: signed_handler E "\<lambda>s. apply_transfer E s c fee tx" "tr_from tx" "tr_nonce tx" fee
  for c fee tx
proof unfold_locales
  fix s s' a f p
  let ?run = "apply_transfer E s c fee tx"
  show "nonce (load_account E s (tr_from tx)) = tr_nonce tx
    \<and> nonce (load_account E s' (tr_from tx)) = saturating_add (tr_nonce tx) 1" if "?run = Inr s'"
    using transfer_effect [OF that] by (simp add: authorized_def)
  show "nonce (load_account E s' a) = nonce (load_account E s a)"
    if "?run = Inr s'" "a \<noteq> tr_from tx" using transfer_effect [OF that(1)] that(2) by blast
  have frm: "frame {KAccount (tr_from tx), KAccount (tr_to tx)} s s'" if "?run = Inr s'"
    using transfer_effect [OF that] by blast
  show "total_funds E s' + unat fee = total_funds E s" if "?run = Inr s'"
  proof -
    note loads = frame_loads [OF frm [OF that]]
    have lv: "load_validator E s' = load_validator E s"
      and lq: "load_withdrawal_queue E s' = load_withdrawal_queue E s"
      by (auto simp: load_validator_fun loads(2,3))
    show ?thesis
      using transfer_balance [OF that] total_same(2) [OF lv] total_same(3) [OF lq]
      by (simp add: total_funds_def)
  qed
  show "staking_inv E s'" if "?run = Inr s'" "staking_inv E s"
    by (subst staking_inv_frame [OF frm [OF that(1)]]) (simp_all add: that(2))
  show "frame {k. \<not> mandatory_key k} s s'" if "?run = Inr s'"
    using frm [OF that] by (rule frame_mono) simp
  show "p = tr_from tx \<and> authorized E s (tr_from tx) (tr_nonce tx) fee"
    if "?run = Inl f" "payer f = Some p"
    using that
    by (auto simp: apply_transfer_def check_transfer_def res_iffs check_payer_Inr Let_def
        dest: check_payer_Inl split: if_splits option.splits)
qed

text \<open>
  The other handlers change exactly one account, the sender's; the contract then follows from
  the effect lemmas.
\<close>

context borsh
begin

lemma contract_intro:
  assumes acc: "\<And>s s' a. run s = Inr s' \<Longrightarrow> nonce (load_account E s p) = n
      \<and> nonce (load_account E s' a) = (if a = p then saturating_add n 1 else nonce (load_account E s a))"
    and funds: "\<And>s s'. run s = Inr s' \<Longrightarrow> total_funds E s < 2 ^ 128 \<Longrightarrow>
      total_funds E s' + unat fee = total_funds E s"
    and inv: "\<And>s s'. run s = Inr s' \<Longrightarrow> staking_inv E s \<Longrightarrow> staking_inv E s'"
    and frm: "\<And>s s'. run s = Inr s' \<Longrightarrow> frame W s s'"
    and W: "W \<subseteq> {k. \<not> mandatory_key k}"
    and fail: "\<And>s f q. run s = Inl f \<Longrightarrow> payer f = Some q \<Longrightarrow> q = p \<and> authorized E s p n fee"
  shows "signed_handler E run p n fee"
proof unfold_locales
  fix s f q
  assume "run s = Inl f" "payer f = Some q"
  then show "q = p \<and> authorized E s p n fee" by (rule fail)
qed (use acc funds inv frame_mono [OF frm W] in auto)

lemma stake_run:
  assumes "apply_stake E s c h fee m tx = Inr s'"
  obtains acc debit v where "check_bond E s (st_validator tx) (st_validator tx)
      \<lparr>bd_amount = st_amount tx, bd_nonce = st_nonce tx, bd_fee = fee, bd_min_stake = m\<rparr> = Inr (acc, debit, v)"
    "s' = record_bond E (commit_validator E (store_account E s (st_validator tx)
      \<lparr>nonce = saturating_add (nonce acc) 1, balance = balance acc - debit\<rparr>) (st_validator tx) v)
      (st_validator tx) (st_amount tx) h"
  using assms by (auto simp: apply_stake_def check_stake_def res_iffs Let_def)

lemma deposit_run:
  assumes "apply_deposit E s c h fee m tx = Inr s'"
  obtains acc debit v where "check_bond E s (dp_depositor tx) (dp_validator tx)
      \<lparr>bd_amount = dp_amount tx, bd_nonce = dp_nonce tx, bd_fee = fee, bd_min_stake = m\<rparr> = Inr (acc, debit, v)"
    "s' = record_bond E (commit_validator E (store_account E s (dp_depositor tx)
      \<lparr>nonce = saturating_add (nonce acc) 1, balance = balance acc - debit\<rparr>) (dp_validator tx) v)
      (dp_validator tx) (dp_amount tx) h"
  using assms by (auto simp: apply_deposit_def check_deposit_def res_iffs Let_def)

lemma unstake_run:
  assumes "apply_unstake E s c h delay fee m tx = Inr s'"
  obtains acc d mature where "check_payer E s (un_validator tx) (un_nonce tx) 0 fee = Inr (acc, d)"
    "un_amount tx \<le> stake (load_validator E s (un_validator tx))"
    "checked_add h delay = Some mature"
    "s' = unbond E s (un_validator tx) acc fee (load_validator E s (un_validator tx))
       \<lparr>wd_amount = un_amount tx, mature_at_height = mature\<rparr>"
  using assms
  by (auto simp: apply_unstake_def check_unstake_def res_iffs Let_def not_less split: if_splits)

lemma voluntary_exit_run:
  assumes "apply_voluntary_exit E s c h delay fee tx = Inr s'"
  obtains acc d mature where "check_payer E s (ve_validator tx) (ve_nonce tx) 0 fee = Inr (acc, d)"
    "checked_add h delay = Some mature"
    "s' = unbond E s (ve_validator tx) acc fee (load_validator E s (ve_validator tx))
       \<lparr>wd_amount = stake (load_validator E s (ve_validator tx)), mature_at_height = mature\<rparr>"
  using assms
  by (auto simp: apply_voluntary_exit_def check_voluntary_exit_def res_iffs Let_def split: if_splits)

end

sublocale borsh \<subseteq> stake: signed_handler E "\<lambda>s. apply_stake E s c h fee m tx" "st_validator tx" "st_nonce tx" fee
  for c h fee m tx
proof (rule contract_intro)
  let ?p = "st_validator tx"
  fix s s'
  assume run: "apply_stake E s c h fee m tx = Inr s'"
  from run obtain acc debit v where chk: "check_bond E s ?p ?p
      \<lparr>bd_amount = st_amount tx, bd_nonce = st_nonce tx, bd_fee = fee, bd_min_stake = m\<rparr> = Inr (acc, debit, v)"
    and s': "s' = record_bond E (commit_validator E (store_account E s ?p
      \<lparr>nonce = saturating_add (nonce acc) 1, balance = balance acc - debit\<rparr>) ?p v) ?p (st_amount tx) h"
    by (rule stake_run)
  note eff = bond_effect [OF chk s']
  show "nonce (load_account E s ?p) = st_nonce tx \<and>
      nonce (load_account E s' a) = (if a = ?p then saturating_add (st_nonce tx) 1 else nonce (load_account E s a))"
    for a using eff(2,3) by (simp add: eff(1) authorized_def)
  show "total_funds E s' + unat fee = total_funds E s" using eff(4) by simp
  show "staking_inv E s'" if "staking_inv E s" using eff(5) that .
  show "frame {KAccount ?p, KValidator ?p, KValidatorSet, KCandidates, KBonding ?p} s s'" by (rule eff(6))
next
  fix s f q
  assume "apply_stake E s c h fee m tx = Inl f" "payer f = Some q"
  then show "q = st_validator tx \<and> authorized E s (st_validator tx) (st_nonce tx) fee"
    by (auto simp: apply_stake_def check_stake_def res_iffs Let_def dest: check_bond_Inl)
qed simp

sublocale borsh \<subseteq> deposit: signed_handler E "\<lambda>s. apply_deposit E s c h fee m tx" "dp_depositor tx" "dp_nonce tx" fee
  for c h fee m tx
proof (rule contract_intro)
  let ?p = "dp_depositor tx" and ?q = "dp_validator tx"
  fix s s'
  assume run: "apply_deposit E s c h fee m tx = Inr s'"
  from run obtain acc debit v where chk: "check_bond E s ?p ?q
      \<lparr>bd_amount = dp_amount tx, bd_nonce = dp_nonce tx, bd_fee = fee, bd_min_stake = m\<rparr> = Inr (acc, debit, v)"
    and s': "s' = record_bond E (commit_validator E (store_account E s ?p
      \<lparr>nonce = saturating_add (nonce acc) 1, balance = balance acc - debit\<rparr>) ?q v) ?q (dp_amount tx) h"
    by (rule deposit_run)
  note eff = bond_effect [OF chk s']
  show "nonce (load_account E s ?p) = dp_nonce tx \<and>
      nonce (load_account E s' a) = (if a = ?p then saturating_add (dp_nonce tx) 1 else nonce (load_account E s a))"
    for a using eff(2,3) by (simp add: eff(1) authorized_def)
  show "total_funds E s' + unat fee = total_funds E s" using eff(4) by simp
  show "staking_inv E s'" if "staking_inv E s" using eff(5) that .
  show "frame {KAccount ?p, KValidator ?q, KValidatorSet, KCandidates, KBonding ?q} s s'" by (rule eff(6))
next
  fix s f q
  assume "apply_deposit E s c h fee m tx = Inl f" "payer f = Some q"
  then show "q = dp_depositor tx \<and> authorized E s (dp_depositor tx) (dp_nonce tx) fee"
    by (auto simp: apply_deposit_def check_deposit_def res_iffs Let_def dest: check_bond_Inl)
qed simp

sublocale borsh \<subseteq> unstake: signed_handler E "\<lambda>s. apply_unstake E s c h delay fee m tx" "un_validator tx" "un_nonce tx" fee
  for c h delay fee m tx
proof (rule contract_intro)
  let ?p = "un_validator tx"
  fix s s'
  assume run: "apply_unstake E s c h delay fee m tx = Inr s'"
  from run obtain acc d mature where pay: "check_payer E s ?p (un_nonce tx) 0 fee = Inr (acc, d)"
    and le: "un_amount tx \<le> stake (load_validator E s ?p)"
    and s': "s' = unbond E s ?p acc fee (load_validator E s ?p)
      \<lparr>wd_amount = un_amount tx, mature_at_height = mature\<rparr>"
    by (rule unstake_run) simp
  note eff = unbond_effect [OF pay _ s', simplified, OF le]
  show "nonce (load_account E s ?p) = un_nonce tx \<and>
      nonce (load_account E s' a) = (if a = ?p then saturating_add (un_nonce tx) 1 else nonce (load_account E s a))"
    for a using eff(2,3) by (simp add: eff(1) authorized_def)
  show "total_funds E s' + unat fee = total_funds E s" if "total_funds E s < 2 ^ 128"
    using eff(4) that by simp
  show "staking_inv E s'" if "staking_inv E s" using eff(5) that .
  show "frame {KAccount ?p, KValidator ?p, KValidatorSet, KCandidates, KWithdrawal ?p} s s'" by (rule eff(6))
next
  fix s f q
  assume "apply_unstake E s c h delay fee m tx = Inl f" "payer f = Some q"
  then show "q = un_validator tx \<and> authorized E s (un_validator tx) (un_nonce tx) fee"
    by (auto simp: apply_unstake_def check_unstake_def res_iffs Let_def check_payer_Inr dest: check_payer_Inl split: if_splits)
qed simp

sublocale borsh \<subseteq> exit: signed_handler E "\<lambda>s. apply_voluntary_exit E s c h delay fee tx" "ve_validator tx" "ve_nonce tx" fee
  for c h delay fee tx
proof (rule contract_intro)
  let ?p = "ve_validator tx"
  fix s s'
  assume run: "apply_voluntary_exit E s c h delay fee tx = Inr s'"
  from run obtain acc d mature where pay: "check_payer E s ?p (ve_nonce tx) 0 fee = Inr (acc, d)"
    and s': "s' = unbond E s ?p acc fee (load_validator E s ?p)
      \<lparr>wd_amount = stake (load_validator E s (ve_validator tx)), mature_at_height = mature\<rparr>"
    by (rule voluntary_exit_run) simp
  note eff = unbond_effect [OF pay _ s', simplified]
  show "nonce (load_account E s ?p) = ve_nonce tx \<and>
      nonce (load_account E s' a) = (if a = ?p then saturating_add (ve_nonce tx) 1 else nonce (load_account E s a))"
    for a using eff(2,3) by (simp add: eff(1) authorized_def)
  show "total_funds E s' + unat fee = total_funds E s" if "total_funds E s < 2 ^ 128"
    using eff(4) that by simp
  show "staking_inv E s'" if "staking_inv E s" using eff(5) that .
  show "frame {KAccount ?p, KValidator ?p, KValidatorSet, KCandidates, KWithdrawal ?p} s s'" by (rule eff(6))
next
  fix s f q
  assume "apply_voluntary_exit E s c h delay fee tx = Inl f" "payer f = Some q"
  then show "q = ve_validator tx \<and> authorized E s (ve_validator tx) (ve_nonce tx) fee"
    by (auto simp: apply_voluntary_exit_def check_voluntary_exit_def res_iffs Let_def check_payer_Inr dest: check_payer_Inl split: if_splits)
qed simp

sublocale borsh \<subseteq> withdraw: signed_handler E "\<lambda>s. apply_withdraw E s c h bl fee tx" "wt_validator tx" "wt_nonce tx" fee
  for c h bl fee tx
proof (rule contract_intro)
  fix s s'
  assume run: "apply_withdraw E s c h bl fee tx = Inr s'"
  note eff = withdraw_effect [OF run]
  show "nonce (load_account E s (wt_validator tx)) = wt_nonce tx \<and>
      nonce (load_account E s' a) =
        (if a = wt_validator tx then saturating_add (wt_nonce tx) 1 else nonce (load_account E s a))"
    for a using eff(1) eff(2) [of a] by simp
  show "total_funds E s' + unat fee = total_funds E s" if "total_funds E s < 2 ^ 128"
    using eff(3) that .
  show "staking_inv E s'" if "staking_inv E s" using eff(4) that .
  show "frame {KAccount (wt_validator tx), KWithdrawal (wt_validator tx), KValidator (wt_validator tx),
    KBonding (wt_validator tx), KRegistrations, KRegistration (wt_validator tx), KCandidates} s s'"
    by (rule eff(5))
next
  fix s f q
  assume "apply_withdraw E s c h bl fee tx = Inl f" "payer f = Some q"
  then show "q = wt_validator tx \<and> authorized E s (wt_validator tx) (wt_nonce tx) fee"
    by (auto simp: apply_withdraw_def check_withdraw_def res_iffs Let_def signer_account_Inr
        authorized_def split: if_splits option.splits)
qed simp

sublocale borsh \<subseteq> register: signed_handler E "\<lambda>s. apply_register_validator E s c h fee m tx"
  "rv_depositor tx" "rv_nonce tx" fee
  for c h fee m tx
proof (rule contract_intro)
  fix s s'
  assume run: "apply_register_validator E s c h fee m tx = Inr s'"
  note eff = register_effect [OF run]
  show "nonce (load_account E s (rv_depositor tx)) = rv_nonce tx \<and>
      nonce (load_account E s' a) =
        (if a = rv_depositor tx then saturating_add (rv_nonce tx) 1 else nonce (load_account E s a))"
    for a using eff(1) eff(2) [of a] by (simp add: authorized_def)
  show "total_funds E s' + unat fee = total_funds E s" by (rule eff(3))
  show "staking_inv E s'" if "staking_inv E s" using eff(4) that .
  show "frame {KAccount (rv_depositor tx), KValidator (rv_validator tx), KValidatorSet, KCandidates,
    KRegistrations, KRegistration (rv_validator tx)} s s'" by (rule eff(5))
next
  fix s f q
  assume "apply_register_validator E s c h fee m tx = Inl f" "payer f = Some q"
  then show "q = rv_depositor tx \<and> authorized E s (rv_depositor tx) (rv_nonce tx) fee"
    by (auto simp: apply_register_validator_def check_register_validator_def res_iffs Let_def
        check_payer_Inr dest: check_payer_Inl split: if_splits)
qed simp

subsection \<open>Mandatory deductions\<close>

text \<open>
  The queue is burned first in, first out: a prefix disappears, at most one entry is reduced (and
  keeps its maturity), the rest is untouched.
\<close>

lemma burn_queue_fifo:
  assumes "unat r \<le> queue_sum \<lparr>wq_entries = es\<rparr>"
  shows "burn_queue r es = [] \<and> unat r = queue_sum \<lparr>wq_entries = es\<rparr>
    \<or> (\<exists>pre e post x. es = pre @ e # post \<and> burn_queue r es = e\<lparr>wd_amount := x\<rparr> # post
         \<and> queue_sum \<lparr>wq_entries = pre\<rparr> + unat (wd_amount e) = unat r + unat x)"
  using assms
proof (induction r es rule: burn_queue.induct)
  case (2 r e es)
  consider "r = 0" | "r \<noteq> 0" "wd_amount e \<le> r" | "r \<noteq> 0" "\<not> wd_amount e \<le> r" by blast
  then show ?case
  proof cases
    case 1
    then show ?thesis
      by (intro disjI2 exI [of _ "[]"] exI [of _ e] exI [of _ es] exI [of _ "wd_amount e"]) simp
  next
    case 2
    have sub: "unat (r - wd_amount e) + unat (wd_amount e) = unat r"
      using 2 by (simp add: unat_sub_exact word_le_nat_alt)
    have le: "unat (r - wd_amount e) \<le> queue_sum \<lparr>wq_entries = es\<rparr>"
      using sub "2.prems" by simp
    from "2.IH"(2) [OF 2 le] show ?thesis
    proof (elim disjE exE conjE, goal_cases)
      case 1
      then show ?case using 2 sub by simp
    next
      case (2 pre x post y)
      then show ?case
        using \<open>r \<noteq> 0\<close> \<open>wd_amount e \<le> r\<close> sub
        by (intro disjI2 exI [of _ "e # pre"] exI [of _ x] exI [of _ post] exI [of _ y]) simp
    qed
  next
    case 3
    then have "unat (wd_amount e - r) + unat r = unat (wd_amount e)"
      by (simp add: unat_sub_exact word_le_nat_alt not_le less_imp_le)
    then show ?thesis
      using 3
      by (intro disjI2 exI [of _ "[]"] exI [of _ e] exI [of _ es] exI [of _ "wd_amount e - r"]) simp
  qed
qed simp

context borsh
begin

lemma deduction_effect:
  assumes run: "apply_deduction E s a amount = Inr (burn, s')"
    and bound: "unat (stake (load_validator E s a)) + queue_sum (load_withdrawal_queue E s a) < 2 ^ 128"
  shows "unat burn = min (unat (stake (load_validator E s a)) + queue_sum (load_withdrawal_queue E s a))
      (unat amount)"
    and "unat (stake (load_validator E s' a)) = unat (stake (load_validator E s a)) - unat burn"
    and "queue_sum (load_withdrawal_queue E s' a) = queue_sum (load_withdrawal_queue E s a)
      - (unat burn - unat (stake (load_validator E s a)))"
    and "load_account E s' = load_account E s"
    and "total_funds E s' + unat burn = total_funds E s"
    and "frame {KValidator a, KValidatorSet, KCandidates, KWithdrawal a} s s'"
proof -
  let ?v = "load_validator E s a" and ?q = "load_withdrawal_queue E s a"
  let ?bs = "min (stake ?v) burn"
  let ?r = "burn - ?bs" and ?stk = "stake ?v - ?bs"
  let ?touched = "?r > 0 \<and> wq_entries ?q \<noteq> []"
  let ?es = "if ?touched then burn_queue ?r (wq_entries ?q) else wq_entries ?q"
  let ?s1 = "commit_validator E s a \<lparr>stake = ?stk, active = (?stk > 0)\<rparr>"
  have burn: "burn = min (saturating_add (stake ?v) (queue_total ?q)) amount"
    and s': "s' = (if ?touched then if ?es = [] then delete ?s1 (withdrawal_key a)
        else store_withdrawal_queue E ?s1 a \<lparr>wq_entries = ?es\<rparr> else ?s1)"
    using run by (auto simp: apply_deduction_def Let_def split: if_splits)
  have tot: "unat (saturating_add (stake ?v) (queue_total ?q)) = unat (stake ?v) + queue_sum ?q"
    using bound by (simp add: unat_saturating_add unat_queue_total min_def)
  show B: "unat burn = min (unat (stake ?v) + queue_sum ?q) (unat amount)"
    by (simp add: burn unat_min tot)
  have bs: "unat ?bs = min (unat (stake ?v)) (unat burn)" by (rule unat_min)
  have r: "unat ?r = unat burn - unat (stake ?v)"
    using bs by (subst unat_sub_exact) (auto simp: word_le_nat_alt)
  have stk: "unat ?stk = unat (stake ?v) - unat burn"
    using bs by (subst unat_sub_exact) (auto simp: word_le_nat_alt)
  have lv: "load_validator E s' = (load_validator E s)(a := \<lparr>stake = ?stk, active = (?stk > 0)\<rparr>)"
    by (auto simp: s') (auto simp: slot_ops)
  then show "unat (stake (load_validator E s' a)) = unat (stake ?v) - unat burn" by (simp add: stk)
  show la: "load_account E s' = load_account E s"
    by (auto simp: s') (auto simp: slot_ops)
  have lq: "load_withdrawal_queue E s' = (load_withdrawal_queue E s)(a := \<lparr>wq_entries = ?es\<rparr>)"
    by (auto simp: s') (auto simp: slot_ops)
  have qs: "queue_sum \<lparr>wq_entries = ?es\<rparr> = queue_sum ?q - (unat burn - unat (stake ?v))"
  proof (cases "?r > 0")
    case True
    then show ?thesis
      using burn_queue_sum [of ?r "wq_entries ?q"] r by (cases "wq_entries ?q = []") (auto simp: queue_sum_def)
  next
    case False
    then have "unat ?r = 0" by (simp add: word_gt_0)
    then show ?thesis using False r by (simp add: queue_sum_def)
  qed
  then show "queue_sum (load_withdrawal_queue E s' a) = queue_sum ?q - (unat burn - unat (stake ?v))"
    by (simp add: lq)
  have stk_le: "unat ?stk + min (unat (stake ?v)) (unat burn) = unat (stake ?v)" using stk by auto
  have q_le: "queue_sum \<lparr>wq_entries = ?es\<rparr> + (unat burn - unat (stake ?v)) = queue_sum ?q"
    using qs B by auto
  have split: "unat burn = min (unat (stake ?v)) (unat burn) + (unat burn - unat (stake ?v))" by auto
  show "total_funds E s' + unat burn = total_funds E s"
    using total_same(1) [OF la] total_bonded_upd [OF lv] total_queued_upd [OF lq] stk_le q_le split
    unfolding total_funds_def by simp
  have "frame {KValidator a, KValidatorSet, KCandidates} s ?s1" by (rule frame_commit_validator)
  then show "frame {KValidator a, KValidatorSet, KCandidates, KWithdrawal a} s s'"
    unfolding s' by (auto intro!: frame_stores elim: frame_mono)
qed

lemma deduction_error:
  "apply_deduction E s a amount = Inl st \<longleftrightarrow>
     st = InsufficientBalance \<and> stake (load_validator E s a) = 0 \<and> queue_sum (load_withdrawal_queue E s a) = 0"
  (is "_ \<longleftrightarrow> ?rhs")
proof -
  let ?v = "load_validator E s a" and ?q = "load_withdrawal_queue E s a"
  have "saturating_add (stake ?v) (queue_total ?q) = 0 \<longleftrightarrow> unat (stake ?v) + queue_sum ?q = 0"
    by (simp add: word_unat_eq_iff unat_saturating_add unat_queue_total min_def)
  also have "\<dots> \<longleftrightarrow> stake ?v = 0 \<and> queue_sum ?q = 0" by (simp add: unat_eq_zero)
  finally show ?thesis by (auto simp: apply_deduction_def Let_def)
qed

end

end
