(* ===== verification/Governance.thy ===== *)
theory Governance
  imports Staking_Contract
begin

text \<open>
  On-chain governance (\<open>governance.rs\<close>): one open proposal at a time, weighted by aged stake, and
  enacted when its voters hold two thirds of the eligible stake. Admission has no block facts
  (\<open>None\<close>), execution has them (\<open>Some\<close>).
\<close>

definition UPGRADE_MIN_LEAD_CHUNKS :: u64 where "UPGRADE_MIN_LEAD_CHUNKS = 1"
definition UPGRADE_MAX_LEAD_CHUNKS :: u64 where "UPGRADE_MAX_LEAD_CHUNKS = 1024"
definition UPGRADE_VOTING_PERIOD_CHUNKS :: u64 where "UPGRADE_VOTING_PERIOD_CHUNKS = 64"
definition UPGRADE_QUORUM :: "u128 \<times> u128" where "UPGRADE_QUORUM = (2, 3)"

subsection \<open>Program sets\<close>

definition execution_programs_is_complete :: "execution_programs \<Rightarrow> bool" where
  "execution_programs_is_complete p \<longleftrightarrow> ep_fact p \<noteq> 0 \<and> ep_evidence p \<noteq> 0 \<and> ep_block p \<noteq> 0"

definition program_set_is_complete :: "program_set \<Rightarrow> bool" where
  "program_set_is_complete p \<longleftrightarrow> execution_programs_is_complete (ps_execution p)"

subsection \<open>Tally\<close>

definition has_voted :: "upgrade_proposal \<Rightarrow> address \<Rightarrow> bool" where
  "has_voted p a \<longleftrightarrow> (case binary_search_by id (up_voters p) a of Inr _ \<Rightarrow> True | Inl _ \<Rightarrow> False)"

definition upgrade_proposal_id :: "externals \<Rightarrow> upgrade_proposal \<Rightarrow> hash" where
  "upgrade_proposal_id E p = proposal_id E (up_proposer p) (up_action p)"

definition voted_stake :: "upgrade_proposal \<Rightarrow> validator_set \<Rightarrow> u128" where
  "voted_stake p vs =
     foldl (\<lambda>total entry. saturating_add total (vse_stake entry)) 0
       (filter (\<lambda>entry. has_voted p (vse_address entry)) (vs_entries vs))"

definition quorum_reached :: "u128 \<Rightarrow> u128 \<Rightarrow> u128 \<times> u128 \<Rightarrow> bool" where
  "quorum_reached stk tot q =
     (case q of (numerator, denominator) \<Rightarrow>
        stk \<ge> tot - mul_div_floor tot (denominator - numerator) denominator)"

definition proposal_quorum_reached :: "upgrade_proposal \<Rightarrow> validator_set \<Rightarrow> bool" where
  "proposal_quorum_reached p vs \<longleftrightarrow>
     (let tot = total_stake vs
      in tot > 0 \<and> quorum_reached (voted_stake p vs) tot UPGRADE_QUORUM)"

definition activation_in_time :: "u64 \<Rightarrow> u64 \<Rightarrow> bool" where
  "activation_in_time activate_at_chunk current_chunk \<longleftrightarrow>
     (case checked_add current_chunk UPGRADE_MIN_LEAD_CHUNKS of
        None \<Rightarrow> False | Some earliest \<Rightarrow> activate_at_chunk \<ge> earliest)"

definition is_live :: "upgrade_proposal \<Rightarrow> u64 \<Rightarrow> bool" where
  "is_live p current_chunk \<longleftrightarrow>
     (case checked_add (up_proposed_at_chunk p) UPGRADE_VOTING_PERIOD_CHUNKS of
        None \<Rightarrow> False | Some deadline \<Rightarrow> current_chunk \<le> deadline)
     \<and> (case up_action p of
          Programs _ _ activate_at_chunk \<Rightarrow> activation_in_time activate_at_chunk current_chunk
        | Policy _ \<Rightarrow> True)"

subsection \<open>Records\<close>

definition load_proposal :: "externals \<Rightarrow> state \<Rightarrow> upgrade_proposal option" where
  "load_proposal E s = read_record (proposal_codec E) s UPGRADE_PROPOSAL_KEY"

definition store_proposal :: "externals \<Rightarrow> state \<Rightarrow> upgrade_proposal \<Rightarrow> state" where
  "store_proposal E s p = write_record (proposal_codec E) s UPGRADE_PROPOSAL_KEY p"

definition load_scheduled :: "externals \<Rightarrow> state \<Rightarrow> scheduled_upgrade option" where
  "load_scheduled E s = read_record (scheduled_codec E) s UPGRADE_KEY"

definition store_scheduled :: "externals \<Rightarrow> state \<Rightarrow> scheduled_upgrade \<Rightarrow> state" where
  "store_scheduled E s u = write_record (scheduled_codec E) s UPGRADE_KEY u"

definition expire :: "externals \<Rightarrow> state \<Rightarrow> u64 \<Rightarrow> state" where
  "expire E s current_chunk =
     (let s1 = (case load_scheduled E s of
                  Some u \<Rightarrow> if su_activate_at_chunk u \<le> current_chunk then delete s UPGRADE_KEY else s
                | None \<Rightarrow> s)
      in (case load_proposal E s1 of
            Some p \<Rightarrow> if \<not> is_live p current_chunk then delete s1 UPGRADE_PROPOSAL_KEY else s1
          | None \<Rightarrow> s1))"

definition proposal_shape_ok :: "propose_upgrade_tx \<Rightarrow> u64 \<Rightarrow> bool" where
  "proposal_shape_ok tx current_chunk \<longleftrightarrow>
     activation_in_time (pu_activate_at_chunk tx) current_chunk
     \<and> (case checked_add current_chunk UPGRADE_MAX_LEAD_CHUNKS of
          None \<Rightarrow> False | Some latest \<Rightarrow> pu_activate_at_chunk tx \<le> latest)"

subsection \<open>Weights\<close>

definition governance_weight :: "externals \<Rightarrow> state \<Rightarrow> address \<Rightarrow> u128 \<Rightarrow> u64 \<Rightarrow> u128" where
  "governance_weight E s addr bonded height =
     (if (case load_validator_registration E s addr of
            None \<Rightarrow> False | Some r \<Rightarrow> \<not> aged (registered_at_height r) height)
      then 0
      else (case unaged_bonding E s addr height of
              None \<Rightarrow> bonded | Some b \<Rightarrow> saturating_sub bonded (bond_amount b)))"

definition governance_set :: "externals \<Rightarrow> state \<Rightarrow> u64 option \<Rightarrow> validator_set" where
  "governance_set E s block_height =
     (let vset = load_validator_set E s
      in (case block_height of
            None \<Rightarrow> vset\<lparr>vs_entries := filter (\<lambda>e. vse_stake e > 0) (vs_entries vset)\<rparr>
          | Some height \<Rightarrow>
              vset\<lparr>vs_entries :=
                filter (\<lambda>e. vse_stake e > 0)
                  (map (\<lambda>e. e\<lparr>vse_stake := governance_weight E s (vse_address e) (vse_stake e) height\<rparr>)
                    (vs_entries vset))\<rparr>))"

record block_context =
  bc_chunk :: u64
  bc_height :: u64
  bc_anchor :: evidence_anchor
  bc_pending_sanctions :: nat

subsection \<open>Checks\<close>

definition authorize_signer ::
  "externals \<Rightarrow> state \<Rightarrow> address \<Rightarrow> u64 \<Rightarrow> u64 option \<Rightarrow> u128 \<Rightarrow> bytes \<Rightarrow> ed25519_signature
     \<Rightarrow> failure + account \<times> validator_set" where
  "authorize_signer E s signer nnc block_height fee message signature =
     (if \<not> verify_signature E signer message signature then Inl (failure_from BadSignature)
      else
        let account = load_account E s signer
        in if nonce account \<noteq> nnc then Inl (failure_from NonceMismatch)
           else if balance account < fee then Inl (failure_from InsufficientBalance)
           else
             let vset = governance_set E s block_height
             in (case binary_search_by vse_address (vs_entries vset) signer of
                   Inl _ \<Rightarrow> Inl (failure_charged Unauthorized signer)
                 | Inr _ \<Rightarrow> Inr (account, vset)))"

definition stake_of :: "validator_set \<Rightarrow> address \<Rightarrow> u128" where
  "stake_of vs a = (case find (\<lambda>e. vse_address e = a) (vs_entries vs) of None \<Rightarrow> 0 | Some e \<Rightarrow> vse_stake e)"

definition check_new_proposal ::
  "externals \<Rightarrow> state \<Rightarrow> block_context option \<Rightarrow> u128 \<Rightarrow> address \<Rightarrow> u64 \<Rightarrow> bytes \<Rightarrow> ed25519_signature
     \<Rightarrow> failure + account \<times> validator_set" where
  "check_new_proposal E s block fee proposer nnc message signature =
     res_bind (authorize_signer E s proposer nnc (map_option bc_height block) fee message signature)
       (\<lambda>(account, vset).
     case block of
       None \<Rightarrow> Inr (account, vset)
     | Some b \<Rightarrow>
         let current = bc_chunk b
         in if (case load_scheduled E s of None \<Rightarrow> False | Some u \<Rightarrow> su_activate_at_chunk u > current)
            then Inl (failure_charged UpgradeConflict proposer)
            else (case load_proposal E s of
                    Some p \<Rightarrow>
                      if is_live p current \<and> stake_of vset proposer \<le> voted_stake p vset
                      then Inl (failure_charged UpgradeConflict proposer)
                      else Inr (account, vset)
                  | None \<Rightarrow> Inr (account, vset)))"

definition check_propose ::
  "externals \<Rightarrow> state \<Rightarrow> u64 \<Rightarrow> block_context option \<Rightarrow> u128 \<Rightarrow> propose_upgrade_tx
     \<Rightarrow> failure + account \<times> validator_set" where
  "check_propose E s chain_id block fee tx =
     res_bind (check_new_proposal E s block fee (pu_proposer tx) (pu_nonce tx)
       (propose_upgrade_sig_message E chain_id tx) (pu_signature tx)) (\<lambda>authorized.
     if \<not> program_set_is_complete (pu_programs tx)
        \<or> (case block of None \<Rightarrow> False | Some b \<Rightarrow> \<not> proposal_shape_ok tx (bc_chunk b))
     then Inl (failure_charged InvalidUpgrade (pu_proposer tx))
     else Inr authorized)"

definition policy_enactable :: "block_context \<Rightarrow> runtime_policy \<Rightarrow> bool" where
  "policy_enactable b policy \<longleftrightarrow> bc_pending_sanctions b \<le> unat (evidence_max_pending policy)"

definition check_propose_policy ::
  "externals \<Rightarrow> state \<Rightarrow> u64 \<Rightarrow> block_context option \<Rightarrow> u128 \<Rightarrow> propose_policy_tx
     \<Rightarrow> failure + account \<times> validator_set" where
  "check_propose_policy E s chain_id block fee tx =
     res_bind (check_new_proposal E s block fee (pp_proposer tx) (pp_nonce tx)
       (propose_policy_sig_message E chain_id tx) (pp_signature tx)) (\<lambda>authorized.
     let valid = (case block of
           None \<Rightarrow> policy_is_well_formed (pp_policy tx)
         | Some b \<Rightarrow> policy_is_valid_for (pp_policy tx) (bc_anchor b) \<and> policy_enactable b (pp_policy tx))
     in if \<not> valid then Inl (failure_charged InvalidUpgrade (pp_proposer tx)) else Inr authorized)"

definition check_vote ::
  "externals \<Rightarrow> state \<Rightarrow> u64 \<Rightarrow> block_context option \<Rightarrow> u128 \<Rightarrow> vote_upgrade_tx
     \<Rightarrow> failure + account \<times> validator_set \<times> upgrade_proposal" where
  "check_vote E s chain_id block fee tx =
     res_bind (authorize_signer E s (vu_voter tx) (vu_nonce tx) (map_option bc_height block) fee
       (vote_upgrade_sig_message chain_id tx) (vu_signature tx)) (\<lambda>(account, vset).
     case load_proposal E s of
       None \<Rightarrow> Inl (failure_charged InvalidUpgrade (vu_voter tx))
     | Some p \<Rightarrow>
         if upgrade_proposal_id E p = vu_proposal_id tx
            \<and> (case block of None \<Rightarrow> True | Some b \<Rightarrow> is_live p (bc_chunk b))
         then if has_voted p (vu_voter tx) then Inl (failure_charged AlreadyVoted (vu_voter tx))
              else Inr (account, vset, p)
         else Inl (failure_charged InvalidUpgrade (vu_voter tx)))"

subsection \<open>Execution\<close>

definition settle :: "externals \<Rightarrow> state \<Rightarrow> upgrade_proposal \<Rightarrow> validator_set \<Rightarrow> state" where
  "settle E s p vs =
     (if \<not> proposal_quorum_reached p vs then store_proposal E s p
      else
        let s1 = (case up_action p of
              Programs programs artifacts activate_at_chunk \<Rightarrow>
                store_scheduled E s
                  \<lparr>su_activate_at_chunk = activate_at_chunk, su_programs = programs, su_artifacts = artifacts\<rparr>
            | Policy policy \<Rightarrow> store_runtime_policy E s policy)
        in delete s1 UPGRADE_PROPOSAL_KEY)"

definition apply_propose ::
  "externals \<Rightarrow> state \<Rightarrow> u64 \<Rightarrow> block_context \<Rightarrow> u128 \<Rightarrow> propose_upgrade_tx \<Rightarrow> failure + state" where
  "apply_propose E s chain_id block fee tx =
     res_bind (check_propose E s chain_id (Some block) fee tx) (\<lambda>(account, vset).
     let s1 = store_account E s (pu_proposer tx)
           \<lparr>nonce = saturating_add (nonce account) 1, balance = balance account - fee\<rparr>;
         proposal = \<lparr>up_proposer = pu_proposer tx, up_action = propose_upgrade_action tx,
           up_proposed_at_chunk = bc_chunk block, up_voters = [pu_proposer tx]\<rparr>
     in Inr (settle E s1 proposal vset))"

definition apply_propose_policy ::
  "externals \<Rightarrow> state \<Rightarrow> u64 \<Rightarrow> block_context \<Rightarrow> u128 \<Rightarrow> propose_policy_tx \<Rightarrow> failure + state" where
  "apply_propose_policy E s chain_id block fee tx =
     res_bind (check_propose_policy E s chain_id (Some block) fee tx) (\<lambda>(account, vset).
     let s1 = store_account E s (pp_proposer tx)
           \<lparr>nonce = saturating_add (nonce account) 1, balance = balance account - fee\<rparr>;
         proposal = \<lparr>up_proposer = pp_proposer tx, up_action = Policy (pp_policy tx),
           up_proposed_at_chunk = bc_chunk block, up_voters = [pp_proposer tx]\<rparr>
     in Inr (settle E s1 proposal vset))"

definition add_voter :: "address \<Rightarrow> upgrade_proposal \<Rightarrow> upgrade_proposal" where
  "add_voter a p =
     (let index = (case binary_search_by id (up_voters p) a of Inr i \<Rightarrow> i | Inl i \<Rightarrow> i)
      in p\<lparr>up_voters := insert_at index a (up_voters p)\<rparr>)"

definition apply_vote ::
  "externals \<Rightarrow> state \<Rightarrow> u64 \<Rightarrow> block_context \<Rightarrow> u128 \<Rightarrow> vote_upgrade_tx \<Rightarrow> failure + state" where
  "apply_vote E s chain_id block fee tx =
     res_bind (check_vote E s chain_id (Some block) fee tx) (\<lambda>(account, vset, p).
     let proposal = add_voter (vu_voter tx) p
     in if (case up_action proposal of
              Policy policy \<Rightarrow> proposal_quorum_reached proposal vset \<and> \<not> policy_enactable block policy
            | Programs _ _ _ \<Rightarrow> False)
        then Inl (failure_charged InvalidUpgrade (vu_voter tx))
        else
          let s1 = store_account E s (vu_voter tx)
                \<lparr>nonce = saturating_add (nonce account) 1, balance = balance account - fee\<rparr>
          in Inr (settle E s1 proposal vset))"

subsection \<open>The two-thirds rule\<close>

text \<open>
  \<open>total - floor(total * (d - n) / d)\<close> is the ceiling of \<open>total * n / d\<close>, so the test is the
  exact fraction comparison and no intermediate value wraps.
\<close>

lemma ceil_compare:
  fixes st T :: nat
  shows "T - T div 3 \<le> st \<longleftrightarrow> T * 2 \<le> st * 3"
  by arith

lemma quorum_reached_exact:
  "quorum_reached stk tot UPGRADE_QUORUM \<longleftrightarrow> unat tot * 2 \<le> unat stk * 3"
proof -
  have m: "unat (mul_div_floor tot 1 3) = unat tot div 3"
    using unat_mul_div_floor [of "3 :: u128" "1 :: u128" tot] by simp
  then have "unat (tot - mul_div_floor tot 1 3) = unat tot - unat tot div 3"
    by (subst unat_sub_exact) (auto simp: word_le_nat_alt)
  then show ?thesis
    using ceil_compare [of "unat tot" "unat stk"]
    by (simp add: quorum_reached_def UPGRADE_QUORUM_def word_le_nat_alt)
qed

lemma unat_voted_stake:
  "unat (voted_stake p vs) = min (2 ^ 128 - 1)
     (sum_list (map (\<lambda>e. unat (vse_stake e)) (filter (\<lambda>e. has_voted p (vse_address e)) (vs_entries vs))))"
  unfolding voted_stake_def by (subst unat_saturating_foldl) simp

lemma has_voted_iff: "sorted_keys id (up_voters p) \<Longrightarrow> has_voted p a \<longleftrightarrow> a \<in> set (up_voters p)"
  using binary_search_found_iff [of id "up_voters p" a]
  by (auto simp: has_voted_def split: sum.splits)

lemma add_voter_correct:
  assumes srt: "sorted_keys id (up_voters p)" and new: "\<not> has_voted p a"
  shows "sorted_keys id (up_voters (add_voter a p))"
    and "set (up_voters (add_voter a p)) = insert a (set (up_voters p))"
    and "up_action (add_voter a p) = up_action p" "up_proposer (add_voter a p) = up_proposer p"
      "up_proposed_at_chunk (add_voter a p) = up_proposed_at_chunk p"
proof -
  obtain i where i: "binary_search_by id (up_voters p) a = Inl i"
    using new by (auto simp: has_voted_def split: sum.splits)
  then show "sorted_keys id (up_voters (add_voter a p))"
    using insert_at_lookup(2) [OF srt, of a i] by (simp add: add_voter_def)
  show "set (up_voters (add_voter a p)) = insert a (set (up_voters p))"
    using i by (simp add: add_voter_def insert_at_def)
      (metis Un_insert_right append_take_drop_id set_append)
qed (simp_all add: add_voter_def Let_def)

subsection \<open>Effects\<close>

lemma governance_upd [slot_ops]:
  "load_proposal E (s(key_bytes k := v)) =
     (if k = KProposal then Option.bind v (dec (proposal_codec E)) else load_proposal E s)"
  "load_scheduled E (s(key_bytes k := v)) =
     (if k = KUpgrade then Option.bind v (dec (scheduled_codec E)) else load_scheduled E s)"
  "store_proposal E s p = s(key_bytes KProposal \<mapsto> enc (proposal_codec E) p)"
  "store_scheduled E s u = s(key_bytes KUpgrade \<mapsto> enc (scheduled_codec E) u)"
  by (simp_all add: load_proposal_def load_scheduled_def store_proposal_def store_scheduled_def
      read_record_upd write_record_def)

lemma frame_governance_loads:
  assumes "frame W s s'"
  shows "KProposal \<notin> W \<Longrightarrow> load_proposal E s' = load_proposal E s"
    and "KUpgrade \<notin> W \<Longrightarrow> load_scheduled E s' = load_scheduled E s"
  using frame_key [OF assms] by (simp_all add: load_proposal_def load_scheduled_def read_record_def)

lemma frame_settle: "frame {KProposal, KUpgrade, KPolicy} s (settle E s p vs)"
  by (auto simp: settle_def slot_ops Let_def intro!: frame_upd split: proposal_action.splits)

lemma frame_expire: "frame {KProposal, KUpgrade} s (expire E s c)"
  by (auto simp: expire_def Let_def slot_ops intro!: frame_upd split: option.splits)

lemma authorize_signer_Inr:
  "authorize_signer E s p n h fee m sg = Inr (acc, vs) \<longleftrightarrow>
     verify_signature E p m sg \<and> acc = load_account E s p \<and> authorized E s p n fee
     \<and> vs = governance_set E s h \<and> (\<exists>i. binary_search_by vse_address (vs_entries vs) p = Inr i)"
  by (auto simp: authorize_signer_def authorized_def Let_def not_less split: if_splits sum.splits)

lemma authorize_signer_Inl:
  "authorize_signer E s p n h fee m sg = Inl f \<Longrightarrow> payer f = Some q \<Longrightarrow> q = p \<and> authorized E s p n fee"
  by (auto simp: authorize_signer_def authorized_def Let_def not_less split: if_splits sum.splits)

context borsh
begin

lemma settle_loads:
  "load_account E (settle E s p vs) = load_account E s"
  "load_validator E (settle E s p vs) = load_validator E s"
  "load_withdrawal_queue E (settle E s p vs) = load_withdrawal_queue E s"
  "load_proposal E (settle E s p vs) = (if proposal_quorum_reached p vs then None else Some p)"
  "load_scheduled E (settle E s p vs) =
     (case up_action p of
        Programs programs artifacts c \<Rightarrow>
          if proposal_quorum_reached p vs
          then Some \<lparr>su_activate_at_chunk = c, su_programs = programs, su_artifacts = artifacts\<rparr>
          else load_scheduled E s
      | Policy _ \<Rightarrow> load_scheduled E s)"
  "load_runtime_policy E (settle E s p vs) =
     (case up_action p of
        Policy policy \<Rightarrow> if proposal_quorum_reached p vs then policy else load_runtime_policy E s
      | Programs _ _ _ \<Rightarrow> load_runtime_policy E s)"
  by (auto simp: settle_def slot_ops Let_def fun_eq_iff split: proposal_action.splits)

lemma govern_effect:
  assumes auth: "authorized E s p n fee"
    and s': "s' = settle E (store_account E s p
      \<lparr>nonce = saturating_add (nonce (load_account E s p)) 1, balance = balance (load_account E s p) - fee\<rparr>) pr vs"
  shows "nonce (load_account E s p) = n \<and> nonce (load_account E s' a) =
      (if a = p then saturating_add n 1 else nonce (load_account E s a))"
    and "total_funds E s' + unat fee = total_funds E s"
    and "staking_inv E s \<Longrightarrow> staking_inv E s'"
    and "frame {KAccount p, KProposal, KUpgrade, KPolicy} s s'"
proof -
  let ?x = "\<lparr>nonce = saturating_add (nonce (load_account E s p)) 1, balance = balance (load_account E s p) - fee\<rparr>"
  let ?s1 = "store_account E s p ?x"
  have la: "load_account E s' = (load_account E s)(p := ?x)"
    by (auto simp: s' settle_loads) (auto simp: slot_ops)
  have lv: "load_validator E s' = load_validator E s"
    and lq: "load_withdrawal_queue E s' = load_withdrawal_queue E s"
    by (auto simp: s' settle_loads) (auto simp: slot_ops)
  show "nonce (load_account E s p) = n \<and> nonce (load_account E s' a) =
      (if a = p then saturating_add n 1 else nonce (load_account E s a))"
    using auth by (simp add: la authorized_def)
  show "total_funds E s' + unat fee = total_funds E s"
  proof -
    have le: "fee \<le> balance (load_account E s p)" using auth by (simp add: authorized_def)
    then have "unat (balance (load_account E s p) - fee) + unat fee = unat (balance (load_account E s p))"
      by (simp add: unat_sub_exact word_le_nat_alt)
    then show ?thesis
      using total_balance_upd [OF la] total_same(2) [OF lv] total_same(3) [OF lq]
      by (simp add: total_funds_def)
  qed
  have "frame ({KAccount p} \<union> {KProposal, KUpgrade, KPolicy}) s s'"
    unfolding s' by (rule frame_trans [OF _ frame_settle]) (auto intro!: frame_stores)
  then show frm: "frame {KAccount p, KProposal, KUpgrade, KPolicy} s s'" by (rule frame_mono) auto
  show "staking_inv E s'" if "staking_inv E s"
    by (subst staking_inv_frame [OF frm]) (simp_all add: that)
qed

lemma propose_run:
  assumes "apply_propose E s c b fee tx = Inr s'"
  shows "authorized E s (pu_proposer tx) (pu_nonce tx) fee"
    and "s' = settle E (store_account E s (pu_proposer tx)
        \<lparr>nonce = saturating_add (nonce (load_account E s (pu_proposer tx))) 1,
         balance = balance (load_account E s (pu_proposer tx)) - fee\<rparr>)
      \<lparr>up_proposer = pu_proposer tx, up_action = propose_upgrade_action tx,
       up_proposed_at_chunk = bc_chunk b, up_voters = [pu_proposer tx]\<rparr>
      (governance_set E s (Some (bc_height b)))"
    and "program_set_is_complete (pu_programs tx) \<and> proposal_shape_ok tx (bc_chunk b)"
  using assms
  by (auto simp: apply_propose_def check_propose_def check_new_proposal_def res_iffs Let_def
      authorize_signer_Inr split: if_splits option.splits)

lemma propose_policy_run:
  assumes "apply_propose_policy E s c b fee tx = Inr s'"
  shows "authorized E s (pp_proposer tx) (pp_nonce tx) fee"
    and "s' = settle E (store_account E s (pp_proposer tx)
        \<lparr>nonce = saturating_add (nonce (load_account E s (pp_proposer tx))) 1,
         balance = balance (load_account E s (pp_proposer tx)) - fee\<rparr>)
      \<lparr>up_proposer = pp_proposer tx, up_action = Policy (pp_policy tx),
       up_proposed_at_chunk = bc_chunk b, up_voters = [pp_proposer tx]\<rparr>
      (governance_set E s (Some (bc_height b)))"
    and "policy_is_valid_for (pp_policy tx) (bc_anchor b) \<and> policy_enactable b (pp_policy tx)"
  using assms
  by (auto simp: apply_propose_policy_def check_propose_policy_def check_new_proposal_def res_iffs Let_def
      authorize_signer_Inr split: if_splits option.splits)

lemma vote_run:
  assumes "apply_vote E s c b fee tx = Inr s'"
  obtains p where "authorized E s (vu_voter tx) (vu_nonce tx) fee"
    "load_proposal E s = Some p" "upgrade_proposal_id E p = vu_proposal_id tx" "is_live p (bc_chunk b)"
    "\<not> has_voted p (vu_voter tx)"
    "case up_action p of
       Policy policy \<Rightarrow> proposal_quorum_reached (add_voter (vu_voter tx) p)
         (governance_set E s (Some (bc_height b))) \<longrightarrow> policy_enactable b policy
     | Programs _ _ _ \<Rightarrow> True"
    "s' = settle E (store_account E s (vu_voter tx)
        \<lparr>nonce = saturating_add (nonce (load_account E s (vu_voter tx))) 1,
         balance = balance (load_account E s (vu_voter tx)) - fee\<rparr>)
      (add_voter (vu_voter tx) p) (governance_set E s (Some (bc_height b)))"
proof -
  have act: "up_action (add_voter (vu_voter tx) p) = up_action p" for p
    by (simp add: add_voter_def Let_def)
  show ?thesis
    using assms
    by (auto simp: apply_vote_def check_vote_def res_iffs Let_def authorize_signer_Inr act
        intro!: that split: if_splits option.splits proposal_action.splits)
qed

end

sublocale borsh \<subseteq> propose: signed_handler E "\<lambda>s. apply_propose E s c b fee tx" "pu_proposer tx" "pu_nonce tx" fee
  for c b fee tx
proof (rule contract_intro)
  fix s s'
  assume run: "apply_propose E s c b fee tx = Inr s'"
  note run' = propose_run [OF run]
  note eff = govern_effect [OF run'(1,2)]
  show "nonce (load_account E s (pu_proposer tx)) = pu_nonce tx \<and> nonce (load_account E s' a) =
      (if a = pu_proposer tx then saturating_add (pu_nonce tx) 1 else nonce (load_account E s a))" for a
    by (rule eff(1))
  show "total_funds E s' + unat fee = total_funds E s" by (rule eff(2))
  show "staking_inv E s'" if "staking_inv E s" using eff(3) that .
  show "frame {KAccount (pu_proposer tx), KProposal, KUpgrade, KPolicy} s s'" by (rule eff(4))
next
  fix s f q
  assume "apply_propose E s c b fee tx = Inl f" "payer f = Some q"
  then show "q = pu_proposer tx \<and> authorized E s (pu_proposer tx) (pu_nonce tx) fee"
    by (auto simp: apply_propose_def check_propose_def check_new_proposal_def res_iffs Let_def
        authorize_signer_Inr dest: authorize_signer_Inl
        split: if_splits option.splits proposal_action.splits)
qed simp

sublocale borsh \<subseteq> policy: signed_handler E "\<lambda>s. apply_propose_policy E s c b fee tx" "pp_proposer tx" "pp_nonce tx" fee
  for c b fee tx
proof (rule contract_intro)
  fix s s'
  assume run: "apply_propose_policy E s c b fee tx = Inr s'"
  note run' = propose_policy_run [OF run]
  note eff = govern_effect [OF run'(1,2)]
  show "nonce (load_account E s (pp_proposer tx)) = pp_nonce tx \<and> nonce (load_account E s' a) =
      (if a = pp_proposer tx then saturating_add (pp_nonce tx) 1 else nonce (load_account E s a))" for a
    by (rule eff(1))
  show "total_funds E s' + unat fee = total_funds E s" by (rule eff(2))
  show "staking_inv E s'" if "staking_inv E s" using eff(3) that .
  show "frame {KAccount (pp_proposer tx), KProposal, KUpgrade, KPolicy} s s'" by (rule eff(4))
next
  fix s f q
  assume "apply_propose_policy E s c b fee tx = Inl f" "payer f = Some q"
  then show "q = pp_proposer tx \<and> authorized E s (pp_proposer tx) (pp_nonce tx) fee"
    by (auto simp: apply_propose_policy_def check_propose_policy_def check_new_proposal_def res_iffs Let_def
        authorize_signer_Inr dest: authorize_signer_Inl
        split: if_splits option.splits proposal_action.splits)
qed simp

sublocale borsh \<subseteq> vote: signed_handler E "\<lambda>s. apply_vote E s c b fee tx" "vu_voter tx" "vu_nonce tx" fee
  for c b fee tx
proof (rule contract_intro)
  fix s s'
  assume run: "apply_vote E s c b fee tx = Inr s'"
  from run obtain p where auth: "authorized E s (vu_voter tx) (vu_nonce tx) fee"
    and s': "s' = settle E (store_account E s (vu_voter tx)
        \<lparr>nonce = saturating_add (nonce (load_account E s (vu_voter tx))) 1,
         balance = balance (load_account E s (vu_voter tx)) - fee\<rparr>)
      (add_voter (vu_voter tx) p) (governance_set E s (Some (bc_height b)))"
    by (rule vote_run)
  note eff = govern_effect [OF auth s']
  show "nonce (load_account E s (vu_voter tx)) = vu_nonce tx \<and> nonce (load_account E s' a) =
      (if a = vu_voter tx then saturating_add (vu_nonce tx) 1 else nonce (load_account E s a))" for a
    by (rule eff(1))
  show "total_funds E s' + unat fee = total_funds E s" by (rule eff(2))
  show "staking_inv E s'" if "staking_inv E s" using eff(3) that .
  show "frame {KAccount (vu_voter tx), KProposal, KUpgrade, KPolicy} s s'" by (rule eff(4))
next
  fix s f q
  assume "apply_vote E s c b fee tx = Inl f" "payer f = Some q"
  then show "q = vu_voter tx \<and> authorized E s (vu_voter tx) (vu_nonce tx) fee"
    by (auto simp: apply_vote_def check_vote_def res_iffs Let_def
        authorize_signer_Inr dest: authorize_signer_Inl
        split: if_splits option.splits proposal_action.splits)
qed simp

subsection \<open>Invariant of the governance records\<close>

text \<open>
  The policy in force, and the policy of an open proposal, are valid for the chain's anchor; a
  proposed program set is complete; the voters of an open proposal are sorted and distinct.
\<close>

definition proposal_ok :: "evidence_anchor \<Rightarrow> upgrade_proposal \<Rightarrow> bool" where
  "proposal_ok anchor p \<longleftrightarrow>
     sorted_keys id (up_voters p)
     \<and> (case up_action p of
          Programs ps _ _ \<Rightarrow> program_set_is_complete ps
        | Policy policy \<Rightarrow> policy_is_valid_for policy anchor)"

definition governance_inv :: "externals \<Rightarrow> evidence_anchor \<Rightarrow> state \<Rightarrow> bool" where
  "governance_inv E anchor s \<longleftrightarrow>
     policy_is_valid_for (load_runtime_policy E s) anchor
     \<and> (\<forall>p. load_proposal E s = Some p \<longrightarrow> proposal_ok anchor p)"

lemma governance_inv_frame:
  assumes "frame W s s'" and "KPolicy \<notin> W" and "KProposal \<notin> W"
  shows "governance_inv E a s' \<longleftrightarrow> governance_inv E a s"
  by (simp add: governance_inv_def frame_loads(9) [OF assms(1,2)] frame_governance_loads(1) [OF assms(1,3)])

context borsh
begin

lemma settle_governance_inv:
  assumes "governance_inv E a s" and "proposal_ok a p"
  shows "governance_inv E a (settle E s p vs)"
  using assms
  by (auto simp: governance_inv_def proposal_ok_def settle_loads split: proposal_action.splits)

lemma store_account_governance_inv [simp]:
  "governance_inv E a (store_account E s x acc) \<longleftrightarrow> governance_inv E a s"
  by (rule governance_inv_frame [where W = "{KAccount x}"]) (auto intro!: frame_stores)

lemma propose_governance_inv:
  assumes "apply_propose E s c b fee tx = Inr s'" and "governance_inv E a s"
  shows "governance_inv E a s'"
  using propose_run [OF assms(1)] assms(2)
  by (auto simp: proposal_ok_def propose_upgrade_action_def intro!: settle_governance_inv)

lemma propose_policy_governance_inv:
  assumes "apply_propose_policy E s c b fee tx = Inr s'" and "governance_inv E (bc_anchor b) s"
  shows "governance_inv E (bc_anchor b) s'"
  using propose_policy_run [OF assms(1)] assms(2)
  by (auto simp: proposal_ok_def intro!: settle_governance_inv)

lemma vote_governance_inv:
  assumes "apply_vote E s c b fee tx = Inr s'" and inv: "governance_inv E a s"
  shows "governance_inv E a s'"
proof -
  from assms(1) obtain p where p: "load_proposal E s = Some p" and new: "\<not> has_voted p (vu_voter tx)"
    and s': "s' = settle E (store_account E s (vu_voter tx)
        \<lparr>nonce = saturating_add (nonce (load_account E s (vu_voter tx))) 1,
         balance = balance (load_account E s (vu_voter tx)) - fee\<rparr>)
      (add_voter (vu_voter tx) p) (governance_set E s (Some (bc_height b)))"
    by (rule vote_run)
  have "proposal_ok a p" using inv p by (simp add: governance_inv_def)
  then have "proposal_ok a (add_voter (vu_voter tx) p)"
    using add_voter_correct [OF _ new] by (simp add: proposal_ok_def)
  then show ?thesis unfolding s' using inv by (intro settle_governance_inv) simp_all
qed

lemma expire_governance_inv:
  assumes "governance_inv E a s"
  shows "governance_inv E a (expire E s c)"
proof -
  have "load_runtime_policy E (expire E s c) = load_runtime_policy E s"
    by (rule frame_loads(9) [OF frame_expire]) simp
  moreover have "load_proposal E (expire E s c) = Some p \<Longrightarrow> load_proposal E s = Some p" for p
    by (auto simp: expire_def Let_def slot_ops split: option.splits if_splits)
  ultimately show ?thesis using assms by (simp add: governance_inv_def)
qed

end

subsection \<open>Weights count aged stake only\<close>

definition weight_sum :: "(address \<Rightarrow> bool) \<Rightarrow> validator_set \<Rightarrow> nat" where
  "weight_sum P vs = sum_list (map (\<lambda>e. unat (vse_stake e)) (filter (\<lambda>e. P (vse_address e)) (vs_entries vs)))"

lemma governance_weight_le: "governance_weight E s a bonded h \<le> bonded"
  by (auto simp: governance_weight_def saturating_sub_def word_le_nat_alt unat_sub_exact
      split: option.splits)

lemma sum_list_governance_le:
  "weight_sum (\<lambda>_. True) (governance_set E s (Some h))
     \<le> sum_list (map (\<lambda>e. unat (vse_stake e)) (vs_entries (load_validator_set E s)))"
proof -
  have "sum_list (map (\<lambda>e. unat (vse_stake e)) (filter (\<lambda>e. vse_stake e > 0)
      (map (\<lambda>e. e\<lparr>vse_stake := governance_weight E s (vse_address e) (vse_stake e) h\<rparr>) es)))
    \<le> sum_list (map (\<lambda>e. unat (vse_stake e)) es)" for es
    using governance_weight_le by (induction es) (auto simp: word_le_nat_alt intro: add_mono le_SucI trans_le_add2)
  then show ?thesis by (simp add: weight_sum_def governance_set_def Let_def)
qed

lemma seated_stake_le_bonded:
  assumes inv: "staking_inv E s"
  shows "sum_list (map (\<lambda>e. unat (vse_stake e)) (vs_entries (load_validator_set E s))) \<le> total_bonded E s"
proof -
  let ?es = "vs_entries (load_validator_set E s)"
  have srt: "sorted_keys vse_address ?es" using inv by (simp add: staking_inv_def indexes_sorted_def)
  have eq: "vse_stake e = stake (load_validator E s (vse_address e))" if "e \<in> set ?es" for e
  proof -
    have "index_lookup vse_address ?es (vse_address e) = Some e"
      using that by (simp add: index_lookup_Some_iff [OF srt])
    then have "seat_of (vse_address e) (load_validator_record E s (vse_address e)) = Some e"
      using inv by (simp add: staking_inv_def mirror_at_def)
    then show ?thesis
      by (cases e) (auto simp: seat_of_def load_validator_def split: option.splits if_splits)
  qed
  have "sum_list (map (\<lambda>e. unat (vse_stake e)) ?es)
      = sum_list (map (\<lambda>a. unat (stake (load_validator E s a))) (map vse_address ?es))"
    by (rule arg_cong [where f = sum_list]) (simp add: eq)
  also have "\<dots> = (\<Sum>a\<in>set (map vse_address ?es). unat (stake (load_validator E s a)))"
    by (rule sum_list_distinct_conv_sum_set [OF sorted_keys_distinct [OF srt]])
  also have "\<dots> \<le> total_bonded E s" unfolding total_bonded_def by (rule sum_mono2) auto
  finally show ?thesis .
qed

lemma tally_exact:
  assumes "staking_inv E s" and "total_funds E s < 2 ^ 128" and "vs = governance_set E s (Some h)"
  shows "proposal_quorum_reached p vs \<longleftrightarrow>
    0 < weight_sum (\<lambda>_. True) vs \<and> 2 * weight_sum (\<lambda>_. True) vs \<le> 3 * weight_sum (has_voted p) vs"
proof -
  have bound: "weight_sum (\<lambda>_. True) vs < 2 ^ 128"
    using sum_list_governance_le [of E s h] seated_stake_le_bonded [OF assms(1)] assms(2,3)
    by (simp add: total_funds_def)
  have sub: "sum_list (map f (filter P xs)) \<le> sum_list (map f xs)" for f :: "validator_set_entry \<Rightarrow> nat" and P xs
    by (induction xs) auto
  have "weight_sum (has_voted p) vs \<le> weight_sum (\<lambda>_. True) vs"
    using sub by (simp add: weight_sum_def)
  then have tot: "unat (total_stake vs) = weight_sum (\<lambda>_. True) vs"
    and vot: "unat (voted_stake p vs) = weight_sum (has_voted p) vs"
    using bound by (simp_all add: unat_total_stake unat_voted_stake weight_sum_def)
  show ?thesis
    unfolding proposal_quorum_reached_def Let_def quorum_reached_exact tot vot
    by (simp add: word_less_nat_alt tot mult.commute)
qed

context borsh
begin

lemma vote_outcome:
  assumes inv: "staking_inv E s" "governance_inv E a s" and bound: "total_funds E s < 2 ^ 128"
    and run: "apply_vote E s c b fee tx = Inr s'"
  defines "vs \<equiv> governance_set E s (Some (bc_height b))"
  shows "\<exists>p. load_proposal E s = Some p \<and> is_live p (bc_chunk b) \<and> vu_voter tx \<notin> set (up_voters p)
    \<and> (if 0 < weight_sum (\<lambda>_. True) vs
          \<and> 2 * weight_sum (\<lambda>_. True) vs \<le> 3 * weight_sum (\<lambda>v. v \<in> insert (vu_voter tx) (set (up_voters p))) vs
       then load_proposal E s' = None \<and>
         (case up_action p of
            Programs ps artifacts ch \<Rightarrow> bc_chunk b < ch \<and> load_runtime_policy E s' = load_runtime_policy E s
              \<and> load_scheduled E s' = Some \<lparr>su_activate_at_chunk = ch, su_programs = ps, su_artifacts = artifacts\<rparr>
          | Policy q \<Rightarrow> load_runtime_policy E s' = q \<and> load_scheduled E s' = load_scheduled E s
              \<and> bc_pending_sanctions b \<le> unat (evidence_max_pending q))
       else load_proposal E s' = Some (add_voter (vu_voter tx) p)
         \<and> load_scheduled E s' = load_scheduled E s \<and> load_runtime_policy E s' = load_runtime_policy E s)"
proof -
  from run obtain p where p: "load_proposal E s = Some p" and live: "is_live p (bc_chunk b)"
    and new: "\<not> has_voted p (vu_voter tx)"
    and ena: "case up_action p of
       Policy policy \<Rightarrow> proposal_quorum_reached (add_voter (vu_voter tx) p) vs \<longrightarrow> policy_enactable b policy
     | Programs _ _ _ \<Rightarrow> True"
    and s': "s' = settle E (store_account E s (vu_voter tx)
        \<lparr>nonce = saturating_add (nonce (load_account E s (vu_voter tx))) 1,
         balance = balance (load_account E s (vu_voter tx)) - fee\<rparr>)
      (add_voter (vu_voter tx) p) vs"
    unfolding vs_def by (rule vote_run)
  have srt: "sorted_keys id (up_voters p)" using inv(2) p by (simp add: governance_inv_def proposal_ok_def)
  note av = add_voter_correct [OF srt new]
  have voters: "has_voted (add_voter (vu_voter tx) p) = (\<lambda>v. v \<in> insert (vu_voter tx) (set (up_voters p)))"
    using has_voted_iff [OF av(1)] av(2) by auto
  note tally = tally_exact [OF inv(1) bound vs_def [THEN meta_eq_to_obj_eq],
      of "add_voter (vu_voter tx) p", unfolded voters]
  have ch: "bc_chunk b < ch" if "up_action p = Programs ps ar ch" for ps ar ch
    using live that
    by (auto simp: is_live_def activation_in_time_def UPGRADE_MIN_LEAD_CHUNKS_def checked_add_Some_iff
        word_less_nat_alt word_le_nat_alt split: option.splits)
  have notin: "vu_voter tx \<notin> set (up_voters p)" using new has_voted_iff [OF srt] by simp
  have L: "load_scheduled E (store_account E s x y) = load_scheduled E s"
    "load_runtime_policy E (store_account E s x y) = load_runtime_policy E s" for x y
    by (simp_all add: slot_ops)
  show ?thesis
    by (rule exI [of _ p])
      (use p live notin ena ch tally in \<open>simp add: s' settle_loads L av policy_enactable_def
        split: proposal_action.splits\<close>)
qed

lemma bond_adds_no_weight:
  assumes run: "check_bond E s p v bd = Inr (acc, debit, w)"
    and s': "s' = record_bond E (commit_validator E (store_account E s p x) v w) v (bd_amount bd) h"
    and h: "h \<le> h'" "unat h' < unat h + 1024"
  shows "governance_weight E s' v (stake (load_validator E s' v)) h'
    \<le> governance_weight E s v (stake (load_validator E s v)) h'"
proof -
  from run obtain r where r: "load_validator_record E s v = Some r"
    and st: "unat (stake r) + unat (bd_amount bd) = unat (stake w)"
    by (auto simp: check_bond_Inr)
  let ?u = "case unaged_bonding E s v h of None \<Rightarrow> 0 | Some b \<Rightarrow> bond_amount b"
  let ?t = "commit_validator E (store_account E s p x) v w"
  have B: "load_bonding E s' v = Some \<lparr>bond_amount = saturating_add ?u (bd_amount bd), since_height = h\<rparr>"
    by (simp add: s' record_bond_def Let_def unaged_bonding_def slot_ops)
  have R: "load_validator_registration E s' v = load_validator_registration E s v"
    by (simp add: s' record_bond_def Let_def slot_ops)
  have V: "load_validator E s' v = w" "load_validator E s v = r"
    by (simp_all add: s' record_bond_def Let_def slot_ops load_validator_def r)
  have fresh: "\<not> aged h h'"
    using h by (auto simp: aged_def UPGRADE_VOTER_MIN_AGE_BLOCKS_def checked_add_Some_iff word_le_nat_alt
        split: option.splits)
  have mono: "aged t h \<Longrightarrow> aged t h'" for t
    using h(1) by (auto simp: aged_def split: option.splits)
  have lim: "unat (stake w) \<le> 2 ^ 128 - 1" using unat_lt [of "stake w"] by simp
  show ?thesis
    using st mono fresh lim
    by (auto simp: governance_weight_def R V unaged_bonding_def B saturating_sub_def word_le_nat_alt
        unat_sub_exact unat_saturating_add min_def split: option.splits if_splits)
qed

end

end
