(* ===== verification/History.thy ===== *)
theory History
  imports Runtime_State
begin

text \<open>
  Counted, append-only history commitments in a fixed 64-level tree
  (\<open>crates/consensus-types/src/history.rs\<close>). \<open>subtree\<close> is the reference: the hash of a whole
  subtree over the list of leaves. The frontier (one peak per set bit of the count), the openings
  and their incremental maintenance are shown to agree with it. The compile-time table of empty
  subtree hashes is the recursion its documentation and unit test state.
\<close>

definition HISTORY_DEPTH :: nat where "HISTORY_DEPTH = 64"
definition DOMAIN_HISTORY_LEAF :: bytes where "DOMAIN_HISTORY_LEAF = ascii ''NEUTRINO_HSTLEAF''"
definition DOMAIN_HISTORY_NODE :: bytes where "DOMAIN_HISTORY_NODE = ascii ''NEUTRINO_HSTNODE''"
definition DOMAIN_HISTORY_ROOT :: bytes where "DOMAIN_HISTORY_ROOT = ascii ''NEUTRINO_HSTROOT''"

definition is_history_index_within :: "u64 \<Rightarrow> u64 \<Rightarrow> u64 \<Rightarrow> bool" where
  "is_history_index_within index count window \<longleftrightarrow> index < count \<and> index \<ge> saturating_sub count window"

definition is_recent_history_index :: "u64 \<Rightarrow> u64 \<Rightarrow> bool" where
  "is_recent_history_index index count = is_history_index_within index count HISTORY_RETENTION_CHUNKS"

definition history_leaf_bytes :: "hash option \<Rightarrow> bytes" where
  "history_leaf_bytes v =
     (case v of
        None \<Rightarrow> DOMAIN_HISTORY_LEAF @ [0]
      | Some h \<Rightarrow> DOMAIN_HISTORY_LEAF @ [1] @ be_bytes 32 h)"

definition history_leaf_hash :: "externals \<Rightarrow> hash option \<Rightarrow> hash" where
  "history_leaf_hash E v = blake3 E (history_leaf_bytes v)"

definition history_node_bytes :: "nat \<Rightarrow> hash \<Rightarrow> hash \<Rightarrow> bytes" where
  "history_node_bytes level left right =
     DOMAIN_HISTORY_NODE @ [of_nat level] @ be_bytes 32 left @ be_bytes 32 right"

definition history_node_hash :: "externals \<Rightarrow> nat \<Rightarrow> hash \<Rightarrow> hash \<Rightarrow> hash" where
  "history_node_hash E level left right = blake3 E (history_node_bytes level left right)"

primrec empty_history_hash :: "externals \<Rightarrow> nat \<Rightarrow> hash" where
  "empty_history_hash E 0 = history_leaf_hash E None"
| "empty_history_hash E (Suc level) =
     history_node_hash E level (empty_history_hash E level) (empty_history_hash E level)"

definition counted_history_bytes :: "u64 \<Rightarrow> hash \<Rightarrow> bytes" where
  "counted_history_bytes count root = DOMAIN_HISTORY_ROOT @ le_bytes 8 count @ be_bytes 32 root"

definition counted_history_root :: "externals \<Rightarrow> u64 \<Rightarrow> hash \<Rightarrow> hash" where
  "counted_history_root E count root = blake3 E (counted_history_bytes count root)"

definition empty_history_root :: "externals \<Rightarrow> hash" where
  "empty_history_root E = counted_history_root E 0 (empty_history_hash E HISTORY_DEPTH)"

subsection \<open>Frontier\<close>

record history_frontier =
  hf_count :: u64
  hf_peaks :: "hash list"

definition count_ones :: "u64 \<Rightarrow> nat" where
  "count_ones c = length (filter (bit c) [0..<64])"

definition trailing_ones :: "u64 \<Rightarrow> nat" where
  "trailing_ones c = length (takeWhile (bit c) [0..<64])"

definition ilog2 :: "u64 \<Rightarrow> nat" where
  "ilog2 c = last (filter (bit c) [0..<64])"

definition frontier_empty :: history_frontier where
  "frontier_empty = \<lparr>hf_count = 0, hf_peaks = []\<rparr>"

text \<open>The \<open>for\<close> loop over levels, \<open>peaks.next()?\<close> on every set bit.\<close>

fun root_loop :: "externals \<Rightarrow> u64 \<Rightarrow> nat \<Rightarrow> nat \<Rightarrow> hash list \<Rightarrow> hash \<Rightarrow> hash option" where
  "root_loop E count level 0 peaks right = Some right"
| "root_loop E count level (Suc n) peaks right =
     (if bit count level
      then (case peaks of
              [] \<Rightarrow> None
            | p # ps \<Rightarrow> root_loop E count (Suc level) n ps (history_node_hash E level p right))
      else root_loop E count (Suc level) n peaks
             (history_node_hash E level right (empty_history_hash E level)))"

definition frontier_root :: "externals \<Rightarrow> history_frontier \<Rightarrow> hash option" where
  "frontier_root E f =
     (if length (hf_peaks f) \<noteq> count_ones (hf_count f) then None
      else map_option (counted_history_root E (hf_count f))
             (root_loop E (hf_count f) 0 HISTORY_DEPTH (hf_peaks f) (empty_history_hash E 0)))"

fun climb :: "externals \<Rightarrow> nat \<Rightarrow> hash list \<Rightarrow> hash \<Rightarrow> hash" where
  "climb E level [] node = node"
| "climb E level (left # peaks) node = climb E (Suc level) peaks (history_node_hash E level left node)"

definition frontier_append ::
  "externals \<Rightarrow> history_frontier \<Rightarrow> hash \<Rightarrow> hash option \<times> history_frontier" where
  "frontier_append E f leaf =
     (case checked_add (hf_count f) 1 of
        None \<Rightarrow> (None, f)
      | Some next \<Rightarrow>
          if length (hf_peaks f) \<noteq> count_ones (hf_count f) then (None, f)
          else
            let consumed = trailing_ones (hf_count f);
                node = climb E 0 (take consumed (hf_peaks f)) (history_leaf_hash E (Some leaf));
                f' = \<lparr>hf_count = next, hf_peaks = node # drop consumed (hf_peaks f)\<rparr>
            in (frontier_root E f', f'))"

fun from_leaves_loop :: "externals \<Rightarrow> history_frontier \<Rightarrow> hash list \<Rightarrow> history_frontier option" where
  "from_leaves_loop E f [] = Some f"
| "from_leaves_loop E f (leaf # leaves) =
     (case frontier_append E f leaf of
        (None, _) \<Rightarrow> None
      | (Some _, f') \<Rightarrow> from_leaves_loop E f' leaves)"

definition from_leaves :: "externals \<Rightarrow> hash list \<Rightarrow> history_frontier option" where
  "from_leaves E leaves = from_leaves_loop E frontier_empty leaves"

subsection \<open>Paths\<close>

fun verify_loop :: "externals \<Rightarrow> u64 \<Rightarrow> nat \<Rightarrow> hash list \<Rightarrow> hash \<Rightarrow> hash" where
  "verify_loop E index level [] node = node"
| "verify_loop E index level (sib # sibs) node =
     verify_loop E index (Suc level) sibs
       (if \<not> bit index level then history_node_hash E level node sib
        else history_node_hash E level sib node)"

definition path_verify :: "externals \<Rightarrow> history_path \<Rightarrow> hash \<Rightarrow> hash \<Rightarrow> bool" where
  "path_verify E p leaf expected \<longleftrightarrow>
     \<not> (hp_index p \<ge> hp_count p \<or> length (hp_siblings p) \<noteq> HISTORY_DEPTH)
     \<and> counted_history_root E (hp_count p)
         (verify_loop E (hp_index p) 0 (hp_siblings p) (history_leaf_hash E (Some leaf))) = expected"

fun append_siblings :: "externals \<Rightarrow> u64 \<Rightarrow> nat \<Rightarrow> nat \<Rightarrow> hash list \<Rightarrow> hash list option" where
  "append_siblings E count level 0 peaks = Some []"
| "append_siblings E count level (Suc n) peaks =
     (if bit count level
      then (case peaks of
              [] \<Rightarrow> None
            | p # ps \<Rightarrow> map_option ((#) p) (append_siblings E count (Suc level) n ps))
      else map_option ((#) (empty_history_hash E level)) (append_siblings E count (Suc level) n peaks))"

definition append_path :: "externals \<Rightarrow> history_frontier \<Rightarrow> hash \<Rightarrow> history_path option" where
  "append_path E f leaf =
     (case checked_add (hf_count f) 1 of
        None \<Rightarrow> None
      | Some count \<Rightarrow>
          if length (hf_peaks f) \<noteq> count_ones (hf_count f) then None
          else
            (case append_siblings E (hf_count f) 0 HISTORY_DEPTH (hf_peaks f) of
               None \<Rightarrow> None
             | Some siblings \<Rightarrow>
                 let path = \<lparr>hp_index = hf_count f, hp_count = count, hp_siblings = siblings\<rparr>
                 in (case fst (frontier_append E f leaf) of
                       None \<Rightarrow> None
                     | Some root \<Rightarrow> if path_verify E path leaf root then Some path else None)))"

fun pair_up :: "externals \<Rightarrow> nat \<Rightarrow> hash list \<Rightarrow> hash list" where
  "pair_up E level [] = []"
| "pair_up E level [a] = [history_node_hash E level a (empty_history_hash E level)]"
| "pair_up E level (a # b # nodes) = history_node_hash E level a b # pair_up E level nodes"

definition sibling_position :: "nat \<Rightarrow> nat" where
  "sibling_position position = (if even position then position + 1 else position - 1)"

fun build_loop :: "externals \<Rightarrow> nat \<Rightarrow> nat \<Rightarrow> hash list \<Rightarrow> nat \<Rightarrow> hash list" where
  "build_loop E level 0 nodes position = []"
| "build_loop E level (Suc n) nodes position =
     (if sibling_position position < length nodes then nodes ! sibling_position position
      else empty_history_hash E level)
     # build_loop E (Suc level) n (pair_up E level nodes) (position div 2)"

definition path_build :: "externals \<Rightarrow> hash list \<Rightarrow> nat \<Rightarrow> history_path option" where
  "path_build E leaves index =
     (if index \<ge> length leaves \<or> length leaves \<ge> 2 ^ 64 then None
      else Some \<lparr>hp_index = of_nat index, hp_count = of_nat (length leaves),
        hp_siblings = build_loop E 0 HISTORY_DEPTH
          (map (\<lambda>leaf. history_leaf_hash E (Some leaf)) leaves) index\<rparr>)"

definition path_advance ::
  "externals \<Rightarrow> history_path \<Rightarrow> hash \<Rightarrow> history_frontier \<Rightarrow> hash \<Rightarrow> (hash \<times> history_path) option" where
  "path_advance E p leaf f appended =
     (case frontier_root E f of
        None \<Rightarrow> None
      | Some before \<Rightarrow>
          if hp_count p \<noteq> hf_count f \<or> \<not> path_verify E p leaf before then None
          else
            (case append_path E f appended of
               None \<Rightarrow> None
             | Some insertion \<Rightarrow>
                 let changed_level = ilog2 (xor (hp_index p) (hf_count f));
                     sibling = verify_loop E (hf_count f) 0 (take changed_level (hp_siblings insertion))
                       (history_leaf_hash E (Some appended))
                 in (case fst (frontier_append E f appended) of
                       None \<Rightarrow> None
                     | Some root \<Rightarrow>
                         let next = p\<lparr>hp_siblings := (hp_siblings p)[changed_level := sibling],
                               hp_count := hp_count insertion\<rparr>
                         in if path_verify E next leaf root then Some (root, next) else None)))"

definition history_root :: "externals \<Rightarrow> hash list \<Rightarrow> hash option" where
  "history_root E leaves = Option.bind (from_leaves E leaves) (frontier_root E)"

subsection \<open>Reference tree\<close>

fun subtree :: "externals \<Rightarrow> hash list \<Rightarrow> nat \<Rightarrow> nat \<Rightarrow> hash" where
  "subtree E xs 0 i = history_leaf_hash E (if i < length xs then Some (xs ! i) else None)"
| "subtree E xs (Suc l) i = history_node_hash E l (subtree E xs l (2 * i)) (subtree E xs l (2 * i + 1))"

lemma subtree_empty: "length xs \<le> i * 2 ^ l \<Longrightarrow> subtree E xs l i = empty_history_hash E l"
proof (induction l arbitrary: i)
  case (Suc l)
  then have "length xs \<le> (2 * i) * 2 ^ l" "length xs \<le> (2 * i + 1) * 2 ^ l"
    by (auto simp: algebra_simps)
  then show ?case using Suc.IH by simp
qed simp

lemma div_pow_Suc: "n div 2 ^ Suc l = n div 2 ^ l div 2" for n :: nat
  by (simp only: power_Suc2 div_mult2_eq)

text \<open>Appending changes exactly the subtrees above the new position.\<close>

lemma subtree_append_other:
  "length xs div 2 ^ l \<noteq> i \<Longrightarrow> subtree E (xs @ [x]) l i = subtree E xs l i"
proof (induction l arbitrary: i)
  case 0
  then show ?case by (auto simp: nth_append)
next
  case (Suc l)
  have "length xs div 2 ^ l div 2 \<noteq> i"
    using Suc.prems by (simp only: div_pow_Suc) simp
  then have "length xs div 2 ^ l \<noteq> 2 * i" "length xs div 2 ^ l \<noteq> 2 * i + 1" by auto
  then show ?case using Suc.IH by simp
qed

lemma bit_div: "bit c l \<longleftrightarrow> odd (unat c div 2 ^ l)" for c :: u64
proof -
  have "bit c l \<longleftrightarrow> bit (unat c) l"
    by (cases "l < 64") (auto simp: bit_unsigned_iff dest: bit_imp_le_length)
  then show ?thesis by (simp add: bit_iff_odd)
qed

lemma subtree_even:
  assumes "even (n div 2 ^ l)"
  shows "subtree E xs (Suc l) (n div 2 ^ Suc l)
    = history_node_hash E l (subtree E xs l (n div 2 ^ l)) (subtree E xs l (n div 2 ^ l + 1))"
proof -
  have "2 * (n div 2 ^ Suc l) = n div 2 ^ l"
    using assms by (simp only: div_pow_Suc) simp
  then show ?thesis by simp
qed

lemma subtree_odd:
  assumes "odd (n div 2 ^ l)"
  shows "subtree E xs (Suc l) (n div 2 ^ Suc l)
    = history_node_hash E l (subtree E xs l (n div 2 ^ l - 1)) (subtree E xs l (n div 2 ^ l))"
proof -
  have "2 * (n div 2 ^ Suc l) = n div 2 ^ l - 1" and "n div 2 ^ l - 1 + 1 = n div 2 ^ l"
    using assms by (simp_all only: div_pow_Suc) (simp_all add: odd_pos)
  then show ?thesis by simp
qed

subsection \<open>The frontier represents the tree\<close>

definition peaks_from :: "externals \<Rightarrow> hash list \<Rightarrow> u64 \<Rightarrow> nat \<Rightarrow> nat \<Rightarrow> hash list" where
  "peaks_from E xs c lo hi = map (\<lambda>l. subtree E xs l (unat c div 2 ^ l - 1)) (filter (bit c) [lo..<hi])"

definition frontier_of :: "externals \<Rightarrow> hash list \<Rightarrow> history_frontier" where
  "frontier_of E xs =
     \<lparr>hf_count = of_nat (length xs), hf_peaks = peaks_from E xs (of_nat (length xs)) 0 64\<rparr>"

abbreviation tree_root :: "externals \<Rightarrow> hash list \<Rightarrow> hash" where
  "tree_root E xs \<equiv> counted_history_root E (of_nat (length xs)) (subtree E xs 64 0)"

lemma peaks_from_step:
  assumes "lo < hi"
  shows "peaks_from E xs c lo hi =
    (if bit c lo then subtree E xs lo (unat c div 2 ^ lo - 1) # peaks_from E xs c (Suc lo) hi
     else peaks_from E xs c (Suc lo) hi)"
  using assms by (simp add: peaks_from_def upt_conv_Cons)

lemma unat_length: "length xs < 2 ^ 64 \<Longrightarrow> unat (of_nat (length xs) :: u64) = length xs"
  by (simp add: unat_of_nat)

lemma root_loop_subtree:
  assumes len: "unat c = length xs"
  shows "root_loop E c l n (peaks_from E xs c l (l + n)) (subtree E xs l (unat c div 2 ^ l))
    = Some (subtree E xs (l + n) (unat c div 2 ^ (l + n)))"
proof (induction n arbitrary: l)
  case (Suc n)
  have e: "subtree E xs l (unat c div 2 ^ l + 1) = empty_history_hash E l"
  proof (rule subtree_empty)
    have "unat c < (unat c div 2 ^ l + 1) * 2 ^ l"
      by (metis add.commute dividend_less_div_times mult.commute plus_1_eq_Suc mult_Suc zero_less_numeral zero_less_power)
    then show "length xs \<le> (unat c div 2 ^ l + 1) * 2 ^ l" using len by simp
  qed
  show ?case
  proof (cases "bit c l")
    case True
    then show ?thesis
      using Suc.IH [of "Suc l"] subtree_odd [of "unat c" l E xs]
      by (simp add: peaks_from_step bit_div)
  next
    case False
    then show ?thesis
      using Suc.IH [of "Suc l"] subtree_even [of "unat c" l E xs] e
      by (simp add: peaks_from_step bit_div)
  qed
qed (simp add: peaks_from_def)

lemma frontier_root_correct:
  assumes "length xs < 2 ^ 64"
  shows "frontier_root E (frontier_of E xs) = Some (tree_root E xs)"
proof -
  let ?c = "of_nat (length xs) :: u64"
  have c: "unat ?c = length xs" using assms by (rule unat_length)
  have "subtree E xs 0 (unat ?c) = empty_history_hash E 0" by (simp add: c)
  then have "root_loop E ?c 0 64 (peaks_from E xs ?c 0 64) (empty_history_hash E 0)
      = Some (subtree E xs 64 0)"
    using root_loop_subtree [OF c, of E 0 64] assms by (simp add: c)
  then show ?thesis
    by (simp add: frontier_root_def frontier_of_def HISTORY_DEPTH_def count_ones_def peaks_from_def
        del: root_loop.simps empty_history_hash.simps)
qed

subsection \<open>Append\<close>

lemma pred_div:
  fixes n :: nat
  assumes "n + 1 = 2 ^ t * k"
  shows "n div 2 ^ t = k - 1"
proof (cases k)
  case (Suc j)
  then have "n = 2 ^ t - 1 + j * 2 ^ t" using assms by (simp add: algebra_simps)
  moreover have "(2 ^ t - 1 + j * 2 ^ t) div 2 ^ t = j + (2 ^ t - 1) div (2 ^ t :: nat)"
    by (rule div_mult_self1) simp
  ultimately show ?thesis using Suc by simp
qed (use assms in simp)

lemma odd_prefix_dvd:
  fixes n :: nat
  shows "(\<And>l. l < t \<Longrightarrow> odd (n div 2 ^ l)) \<Longrightarrow> 2 ^ t dvd n + 1"
proof (induction t)
  case (Suc t)
  have "2 ^ t dvd n + 1" by (rule Suc.IH) (simp add: Suc.prems)
  then obtain k where k: "n + 1 = 2 ^ t * k" by (rule dvdE)
  have "n div 2 ^ t = k - 1" by (rule pred_div [OF k])
  then have "even k" using Suc.prems [of t] by (cases k) auto
  then obtain j where "k = 2 * j" by (rule evenE)
  then have "n + 1 = 2 ^ Suc t * j" using k by simp
  then show ?case by (rule dvdI)
qed simp

lemma succ_div:
  fixes n :: nat
  assumes n: "n + 1 = 2 ^ t * k" and k: "odd k"
  shows "l < t \<Longrightarrow> even ((n + 1) div 2 ^ l)"
    and "(n + 1) div 2 ^ t = k" and "n div 2 ^ t = k - 1"
    and "t < l \<Longrightarrow> (n + 1) div 2 ^ l = n div 2 ^ l"
proof -
  show "even ((n + 1) div 2 ^ l)" if lt: "l < t"
  proof -
    obtain m where m: "t = l + Suc m" using less_imp_Suc_add [OF lt] by auto
    have "n + 1 = 2 ^ l * (2 * 2 ^ m * k)" unfolding n m by (simp add: power_add)
    then have "(n + 1) div 2 ^ l = 2 * 2 ^ m * k" by simp
    then show ?thesis by simp
  qed
  show d: "(n + 1) div 2 ^ t = k" unfolding n by simp
  show d': "n div 2 ^ t = k - 1" by (rule pred_div [OF n])
  show "(n + 1) div 2 ^ l = n div 2 ^ l" if lt: "t < l"
  proof -
    obtain m where m: "l = Suc t + m" using less_imp_Suc_add [OF lt] by auto
    have "x div 2 ^ l = x div 2 ^ t div 2 div 2 ^ m" for x :: nat
      by (simp only: m power_add power_Suc2 div_mult2_eq)
    then have "(n + 1) div 2 ^ l = k div 2 div 2 ^ m" "n div 2 ^ l = (k - 1) div 2 div 2 ^ m"
      using d d' by simp_all
    moreover have "k div 2 = (k - 1) div 2" using k by (auto elim!: oddE)
    ultimately show ?thesis by simp
  qed
qed

lemma trailing_ones_props:
  assumes "unat c + 1 < 2 ^ 64"
  obtains k where "trailing_ones c < 64" "\<And>l. l < trailing_ones c \<Longrightarrow> bit c l"
    "\<not> bit c (trailing_ones c)" "unat c + 1 = 2 ^ trailing_ones c * k" "odd k"
proof -
  let ?t = "trailing_ones c"
  have ones: "bit c l" if "l < ?t" for l
  proof -
    have len: "l < length (takeWhile (bit c) [0..<64])" using that by (simp add: trailing_ones_def)
    then have "takeWhile (bit c) [0..<64] ! l = l"
      using length_takeWhile_le [of "bit c" "[0..<64]"] by (simp add: takeWhile_nth)
    then show ?thesis using set_takeWhileD [OF nth_mem [OF len]] by simp
  qed
  have "2 ^ ?t dvd unat c + 1" using ones odd_prefix_dvd [of ?t "unat c"] by (simp add: bit_div)
  then obtain k where k: "unat c + 1 = 2 ^ ?t * k" by (rule dvdE)
  have t64: "?t < 64"
  proof (rule ccontr)
    assume "\<not> ?t < 64"
    then have "(2 :: nat) ^ 64 \<le> 2 ^ ?t" by (intro power_increasing) auto
    also have "\<dots> \<le> unat c + 1" using k by (cases k) auto
    finally show False using assms by simp
  qed
  then have stop: "\<not> bit c ?t"
    using nth_length_takeWhile [of "bit c" "[0..<64]"] unfolding trailing_ones_def by simp
  have "unat c div 2 ^ ?t = k - 1" by (rule pred_div [OF k])
  then have "odd k" using stop k by (cases k) (auto simp: bit_div)
  then show ?thesis using that t64 ones stop k by blast
qed

lemma climb_subtree:
  assumes len: "unat c = length xs" and bits: "\<And>j. l \<le> j \<Longrightarrow> j < l + n \<Longrightarrow> bit c j"
  shows "climb E l (peaks_from E xs c l (l + n)) (subtree E (xs @ [x]) l (unat c div 2 ^ l))
    = subtree E (xs @ [x]) (l + n) (unat c div 2 ^ (l + n))"
  using bits
proof (induction n arbitrary: l)
  case 0
  then show ?case by (simp add: peaks_from_def)
next
  case (Suc n)
  have b: "bit c l" using Suc.prems [of l] by simp
  then have o: "odd (unat c div 2 ^ l)" by (simp add: bit_div)
  have "subtree E xs l (unat c div 2 ^ l - 1) = subtree E (xs @ [x]) l (unat c div 2 ^ l - 1)"
    using subtree_append_other [of xs l "unat c div 2 ^ l - 1" E x] o len odd_pos [OF o] by simp
  then have node: "history_node_hash E l (subtree E xs l (unat c div 2 ^ l - 1))
        (subtree E (xs @ [x]) l (unat c div 2 ^ l))
      = subtree E (xs @ [x]) (Suc l) (unat c div 2 ^ Suc l)"
    using subtree_odd [OF o, of E "xs @ [x]"] by simp
  have "climb E (Suc l) (peaks_from E xs c (Suc l) (Suc l + n))
        (subtree E (xs @ [x]) (Suc l) (unat c div 2 ^ Suc l))
      = subtree E (xs @ [x]) (Suc l + n) (unat c div 2 ^ (Suc l + n))"
    by (rule Suc.IH) (rule Suc.prems, simp_all)
  then show ?case using b node by (simp add: peaks_from_step)
qed

lemma frontier_append_correct:
  assumes len: "length xs + 1 < 2 ^ 64"
  shows "frontier_append E (frontier_of E xs) x
    = (Some (tree_root E (xs @ [x])), frontier_of E (xs @ [x]))"
proof -
  let ?xs = "xs @ [x]" and ?N = "length xs"
  define w where "w = (of_nat (length xs) :: u64)"
  define w' where "w' = (of_nat (length ?xs) :: u64)"
  have c: "unat w = ?N" and c': "unat w' = ?N + 1"
    using len unat_length [of xs] unat_length [of ?xs] by (simp_all add: w_def w'_def)
  let ?t = "trailing_ones w"
  obtain k where t64: "?t < 64" and ones: "\<And>l. l < ?t \<Longrightarrow> bit w l"
    and stop: "\<not> bit w ?t" and k: "?N + 1 = 2 ^ ?t * k" "odd k"
    using trailing_ones_props [of w] len c by metis
  note sd = succ_div [OF k]
  have old: "peaks_from E xs w 0 64 = peaks_from E xs w 0 ?t @ peaks_from E xs w (Suc ?t) 64"
  proof -
    have "[0..<64] = [0..<?t] @ [?t..<64]" using t64 upt_add_eq_append [of 0 ?t "64 - ?t"] by simp
    then have "peaks_from E xs w 0 64 = peaks_from E xs w 0 ?t @ peaks_from E xs w ?t 64"
      unfolding peaks_from_def by (metis filter_append map_append)
    then show ?thesis using t64 stop by (simp add: peaks_from_step [of ?t])
  qed
  have lent: "length (peaks_from E xs w 0 ?t) = ?t"
    using ones by (simp add: peaks_from_def)
  have node: "climb E 0 (peaks_from E xs w 0 ?t) (history_leaf_hash E (Some x))
      = subtree E ?xs ?t (?N div 2 ^ ?t)"
    using climb_subtree [OF c, of 0 ?t E x] ones by (simp add: c nth_append)
  have new: "peaks_from E ?xs w' 0 64 = subtree E ?xs ?t (?N div 2 ^ ?t) # peaks_from E xs w (Suc ?t) 64"
  proof -
    have "[0..<64] = [0..<?t] @ ?t # [Suc ?t..<64]"
      using t64 upt_add_eq_append [of 0 ?t "64 - ?t"] by (simp add: upt_conv_Cons)
    moreover have "filter (bit w') [0..<?t] = []" using sd(1) by (auto simp: bit_div c')
    moreover have "bit w' ?t" using sd(2) k(2) by (simp add: bit_div c')
    moreover have same: "filter (bit w') [Suc ?t..<64] = filter (bit w) [Suc ?t..<64]"
      using sd(4) by (intro filter_cong) (auto simp: bit_div c c')
    ultimately have "filter (bit w') [0..<64] = ?t # filter (bit w) [Suc ?t..<64]" by simp
    moreover have "subtree E ?xs l ((?N + 1) div 2 ^ l - 1) = subtree E xs l (?N div 2 ^ l - 1)"
      if "bit w l" "?t < l" for l
    proof -
      have "odd (?N div 2 ^ l)" using that(1) by (simp add: bit_div c)
      then have "?N div 2 ^ l > 0" by (rule odd_pos)
      then have "?N div 2 ^ l \<noteq> ?N div 2 ^ l - 1" by linarith
      then have "subtree E ?xs l (?N div 2 ^ l - 1) = subtree E xs l (?N div 2 ^ l - 1)"
        by (rule subtree_append_other)
      then show ?thesis by (simp only: sd(4) [OF that(2)])
    qed
    moreover have "(?N + 1) div 2 ^ ?t - 1 = ?N div 2 ^ ?t" by (simp only: sd(2,3))
    ultimately show ?thesis unfolding peaks_from_def c c' by simp
  qed
  have fo: "frontier_of E xs = \<lparr>hf_count = w, hf_peaks = peaks_from E xs w 0 64\<rparr>"
    and fo': "frontier_of E ?xs = \<lparr>hf_count = w', hf_peaks = peaks_from E ?xs w' 0 64\<rparr>"
    by (simp_all only: frontier_of_def w_def w'_def)
  have shape: "length (peaks_from E xs w 0 64) = count_ones w"
    by (simp add: peaks_from_def count_ones_def)
  have nxt: "checked_add w 1 = Some w'"
    unfolding checked_add_Some_iff using c c' by simp
  have "frontier_append E (frontier_of E xs) x
      = (frontier_root E (frontier_of E ?xs), frontier_of E ?xs)"
    unfolding fo fo' new using old lent node nxt shape
    by (simp add: frontier_append_def Let_def)
  then show ?thesis using frontier_root_correct [of ?xs E] len by simp
qed

lemma from_leaves_loop_correct:
  "length xs + length ys < 2 ^ 64 \<Longrightarrow>
     from_leaves_loop E (frontier_of E xs) ys = Some (frontier_of E (xs @ ys))"
proof (induction ys arbitrary: xs)
  case (Cons y ys)
  then show ?case using Cons.IH [of "xs @ [y]"] frontier_append_correct [of xs E y] by simp
qed simp

lemma frontier_of_Nil: "frontier_of E [] = frontier_empty"
  by (simp add: frontier_of_def frontier_empty_def peaks_from_def)

lemma from_leaves_correct: "length xs < 2 ^ 64 \<Longrightarrow> from_leaves E xs = Some (frontier_of E xs)"
  using from_leaves_loop_correct [of "[]" xs E] by (simp add: from_leaves_def frontier_of_Nil)

subsection \<open>Openings\<close>

definition path_of :: "externals \<Rightarrow> hash list \<Rightarrow> nat \<Rightarrow> history_path" where
  "path_of E xs i =
     \<lparr>hp_index = of_nat i, hp_count = of_nat (length xs),
      hp_siblings = map (\<lambda>l. subtree E xs l (sibling_position (i div 2 ^ l))) [0..<64]\<rparr>"

lemma verify_loop_subtree:
  "verify_loop E w l (map (\<lambda>j. subtree E xs j (sibling_position (unat w div 2 ^ j))) [l..<l + n])
     (subtree E xs l (unat w div 2 ^ l)) = subtree E xs (l + n) (unat w div 2 ^ (l + n))"
proof (induction n arbitrary: l)
  case (Suc n)
  have "[l..<l + Suc n] = l # [Suc l..<Suc l + n]" by (simp add: upt_conv_Cons del: upt_Suc)
  moreover have "(if \<not> bit w l
      then history_node_hash E l (subtree E xs l (unat w div 2 ^ l)) (subtree E xs l (sibling_position (unat w div 2 ^ l)))
      else history_node_hash E l (subtree E xs l (sibling_position (unat w div 2 ^ l))) (subtree E xs l (unat w div 2 ^ l)))
    = subtree E xs (Suc l) (unat w div 2 ^ Suc l)"
    using subtree_even [of "unat w" l E xs] subtree_odd [of "unat w" l E xs]
    by (simp add: bit_div sibling_position_def)
  ultimately show ?case using Suc.IH [of "Suc l"] by (simp only: list.map verify_loop.simps) simp
qed simp

lemma unat_of_nat_64: "i < 2 ^ 64 \<Longrightarrow> unat (of_nat i :: u64) = i"
  by (simp add: unat_of_nat)

lemma path_of_verifies:
  assumes i: "i < length xs" and len: "length xs < 2 ^ 64"
  shows "path_verify E (path_of E xs i) (xs ! i) (tree_root E xs)"
proof -
  define w where "w = (of_nat i :: u64)"
  have w: "unat w = i" using i len unat_of_nat_64 [of i] by (simp add: w_def)
  have c: "unat (of_nat (length xs) :: u64) = length xs" by (rule unat_length [OF len])
  have "verify_loop E w 0 (map (\<lambda>j. subtree E xs j (sibling_position (i div 2 ^ j))) [0..<64])
      (history_leaf_hash E (Some (xs ! i))) = subtree E xs 64 0"
    using verify_loop_subtree [of E w 0 xs 64] i len by (simp add: w)
  then show ?thesis
    using i by (simp add: path_verify_def path_of_def HISTORY_DEPTH_def word_le_nat_alt c flip: w_def)
      (simp add: w)
qed

lemma append_siblings_subtree:
  assumes len: "unat w = length xs"
  shows "append_siblings E w l n (peaks_from E xs w l (l + n))
    = Some (map (\<lambda>j. subtree E (xs @ [x]) j (sibling_position (unat w div 2 ^ j))) [l..<l + n])"
proof (induction n arbitrary: l)
  case (Suc n)
  have up: "[l..<l + Suc n] = l # [Suc l..<Suc l + n]" by (simp add: upt_conv_Cons del: upt_Suc)
  show ?case
  proof (cases "bit w l")
    case True
    then have o: "odd (unat w div 2 ^ l)" by (simp add: bit_div)
    have "subtree E (xs @ [x]) l (unat w div 2 ^ l - 1) = subtree E xs l (unat w div 2 ^ l - 1)"
      using odd_pos [OF o] len by (intro subtree_append_other) simp
    then show ?thesis
      using True o Suc.IH [of "Suc l"] unfolding up by (simp add: peaks_from_step sibling_position_def)
  next
    case False
    then have e: "even (unat w div 2 ^ l)" by (simp add: bit_div)
    have "unat w < (unat w div 2 ^ l + 1) * 2 ^ l"
      by (metis add.commute dividend_less_div_times mult.commute plus_1_eq_Suc mult_Suc
          zero_less_numeral zero_less_power)
    then have "subtree E (xs @ [x]) l (unat w div 2 ^ l + 1) = empty_history_hash E l"
      using len by (intro subtree_empty) simp
    then show ?thesis
      using False e Suc.IH [of "Suc l"] unfolding up by (simp add: peaks_from_step sibling_position_def)
  qed
qed simp

lemma append_path_correct:
  assumes len: "length xs + 1 < 2 ^ 64"
  shows "append_path E (frontier_of E xs) x = Some (path_of E (xs @ [x]) (length xs))"
proof -
  let ?xs = "xs @ [x]" and ?p = "path_of E (xs @ [x]) (length xs)"
  define w where "w = (of_nat (length xs) :: u64)"
  have w: "unat w = length xs" using len unat_length [of xs] by (simp add: w_def)
  have fo: "frontier_of E xs = \<lparr>hf_count = w, hf_peaks = peaks_from E xs w 0 64\<rparr>"
    by (simp only: frontier_of_def w_def)
  have shape: "length (peaks_from E xs w 0 64) = count_ones w"
    by (simp add: peaks_from_def count_ones_def)
  have sibs: "append_siblings E w 0 64 (peaks_from E xs w 0 64) = Some (hp_siblings ?p)"
    using append_siblings_subtree [OF w, of E 0 64 x] by (simp add: path_of_def w)
  have nxt: "checked_add w 1 = Some (hp_count ?p)"
    using len unat_length [of ?xs] w unfolding checked_add_Some_iff by (simp add: path_of_def)
  have p: "\<lparr>hp_index = w, hp_count = hp_count ?p, hp_siblings = hp_siblings ?p\<rparr> = ?p"
    by (simp add: path_of_def w_def)
  have root: "fst (frontier_append E (frontier_of E xs) x) = Some (tree_root E ?xs)"
    using frontier_append_correct [OF len, of E x] by simp
  have "path_verify E ?p x (tree_root E ?xs)"
    using path_of_verifies [of "length xs" ?xs E] len by simp
  then show ?thesis
    using shape sibs nxt root unfolding append_path_def fo by (simp add: p HISTORY_DEPTH_def Let_def)
qed

lemma pair_up_nth:
  "length (pair_up E l ns) = (length ns + 1) div 2"
  "j < (length ns + 1) div 2 \<Longrightarrow> pair_up E l ns ! j = history_node_hash E l (ns ! (2 * j))
     (if 2 * j + 1 < length ns then ns ! (2 * j + 1) else empty_history_hash E l)"
proof (induction E l ns arbitrary: j rule: pair_up.induct)
  case (3 E l a b ns)
  { case 1 then show ?case using 3 by simp }
  { case 2 then show ?case using 3(2) [of "j - 1"] by (cases j) auto }
qed auto

lemma pair_up_subtree:
  assumes "length xs \<le> m * 2 ^ l"
  shows "pair_up E l (map (subtree E xs l) [0..<m]) = map (subtree E xs (Suc l)) [0..<(m + 1) div 2]"
proof (rule nth_equalityI)
  fix j
  assume "j < length (pair_up E l (map (subtree E xs l) [0..<m]))"
  then have j: "j < (m + 1) div 2" by (simp add: pair_up_nth(1))
  have "subtree E xs l (2 * j + 1) = empty_history_hash E l" if "\<not> 2 * j + 1 < m"
  proof (rule subtree_empty)
    have "m * 2 ^ l \<le> (2 * j + 1) * 2 ^ l" using that by (intro mult_le_mono1) simp
    then show "length xs \<le> (2 * j + 1) * 2 ^ l" using assms by (rule le_trans [rotated])
  qed
  then show "pair_up E l (map (subtree E xs l) [0..<m]) ! j = map (subtree E xs (Suc l)) [0..<(m + 1) div 2] ! j"
    using j by (simp add: pair_up_nth(2))
qed (simp add: pair_up_nth(1))

lemma build_loop_subtree:
  assumes "length xs \<le> m * 2 ^ l"
  shows "build_loop E l n (map (subtree E xs l) [0..<m]) (i div 2 ^ l)
    = map (\<lambda>j. subtree E xs j (sibling_position (i div 2 ^ j))) [l..<l + n]"
  using assms
proof (induction n arbitrary: l m)
  case (Suc n)
  let ?p = "sibling_position (i div 2 ^ l)"
  have up: "[l..<l + Suc n] = l # [Suc l..<Suc l + n]" by (simp add: upt_conv_Cons del: upt_Suc)
  have sib: "(if ?p < m then subtree E xs l ?p else empty_history_hash E l) = subtree E xs l ?p"
  proof -
    have "subtree E xs l ?p = empty_history_hash E l" if "\<not> ?p < m"
    proof (rule subtree_empty)
      have "m * 2 ^ l \<le> ?p * 2 ^ l" using that by (intro mult_le_mono1) simp
      then show "length xs \<le> ?p * 2 ^ l" using Suc.prems by (rule le_trans [rotated])
    qed
    then show ?thesis by simp
  qed
  have "m * 2 ^ l \<le> ((m + 1) div 2) * 2 ^ Suc l"
  proof -
    have "m \<le> (m + 1) div 2 * 2" by presburger
    then have "m * 2 ^ l \<le> (m + 1) div 2 * 2 * 2 ^ l" by (rule mult_le_mono1)
    then show ?thesis by (simp add: mult.assoc)
  qed
  then have "length xs \<le> ((m + 1) div 2) * 2 ^ Suc l" using Suc.prems by (rule le_trans [rotated])
  from Suc.IH [OF this] have "build_loop E (Suc l) n (pair_up E l (map (subtree E xs l) [0..<m])) (i div 2 ^ l div 2)
      = map (\<lambda>j. subtree E xs j (sibling_position (i div 2 ^ j))) [Suc l..<Suc l + n]"
    unfolding pair_up_subtree [OF Suc.prems] div_pow_Suc .
  then show ?case using sib unfolding up by (auto split: if_splits simp del: upt_Suc)
qed simp

lemma path_build_correct:
  assumes "i < length xs" and "length xs < 2 ^ 64"
  shows "path_build E xs i = Some (path_of E xs i)"
proof -
  have "map (\<lambda>leaf. history_leaf_hash E (Some leaf)) xs = map (subtree E xs 0) [0..<length xs]"
    by (rule nth_equalityI) simp_all
  then show ?thesis
    using assms build_loop_subtree [of xs "length xs" 0 E 64 i]
    by (simp add: path_build_def path_of_def HISTORY_DEPTH_def)
qed

subsection \<open>Advancing an opening\<close>

lemma div_eq_of_bits:
  fixes a b :: u64
  assumes "\<And>j. l \<le> j \<Longrightarrow> bit a j = bit b j"
  shows "unat a div 2 ^ l = unat b div 2 ^ l"
proof -
  have "drop_bit l a = drop_bit l b" using assms by (intro bit_word_eqI) (simp add: bit_simps)
  then have "unat (drop_bit l a) = unat (drop_bit l b)" by simp
  then have "drop_bit l (unat a) = drop_bit l (unat b)" by (simp only: unat_drop_bit_eq)
  then show ?thesis by (simp only: drop_bit_eq_div)
qed

lemma last_filter_upt:
  assumes "P j" and "j < n"
  shows "last (filter P [0..<n]) < n" and "P (last (filter P [0..<n]))" and "j \<le> last (filter P [0..<n])"
  using assms
proof (induction n)
  case (Suc n)
  { case 1 then show ?case using Suc by (cases "P n") (auto simp: less_Suc_eq) }
  { case 2 then show ?case using Suc by (cases "P n") (auto simp: less_Suc_eq) }
  { case 3 then show ?case using Suc by (cases "P n") (auto simp: less_Suc_eq) }
qed simp_all

lemma ilog2_xor:
  fixes a b :: u64
  assumes "a \<noteq> b"
  shows "ilog2 (xor a b) < 64" and "bit a (ilog2 (xor a b)) \<noteq> bit b (ilog2 (xor a b))"
    and "ilog2 (xor a b) < j \<Longrightarrow> bit a j = bit b j"
proof -
  obtain i where i: "i < 64" "bit (xor a b) i"
    using assms bit_word_eqI [of a b] by (auto simp: bit_simps)
  note l = last_filter_upt [where P = "bit (xor a b)" and n = 64, folded ilog2_def]
  show "ilog2 (xor a b) < 64" using l(1) [OF i(2,1)] .
  show "bit a (ilog2 (xor a b)) \<noteq> bit b (ilog2 (xor a b))" using l(2) [OF i(2,1)] by (simp add: bit_simps)
  show "bit a j = bit b j" if lt: "ilog2 (xor a b) < j"
  proof (rule ccontr)
    assume d: "bit a j \<noteq> bit b j"
    then have "j < 64" using bit_imp_le_length [of a j] bit_imp_le_length [of b j] by auto
    moreover have "bit (xor a b) j" using d by (simp add: bit_simps)
    ultimately show False using l(3) [of j] lt by simp
  qed
qed

lemma sibling_position_iff: "sibling_position p = q \<longleftrightarrow> p div 2 = q div 2 \<and> (even p \<noteq> even q)"
  unfolding sibling_position_def by (cases "even p"; simp; presburger)

text \<open>The appended leaf meets the opened one exactly at the highest bit where their positions differ.\<close>

lemma sibling_meets:
  fixes a b :: u64
  assumes ne: "a \<noteq> b"
  shows "sibling_position (unat a div 2 ^ j) = unat b div 2 ^ j \<longleftrightarrow> j = ilog2 (xor a b)" (is "?l \<longleftrightarrow> j = ?L")
proof
  assume ?l
  then have l: "unat a div 2 ^ j div 2 = unat b div 2 ^ j div 2 \<and> (even (unat a div 2 ^ j) \<noteq> even (unat b div 2 ^ j))"
    unfolding sibling_position_iff .
  have d: "unat a div 2 ^ Suc j = unat b div 2 ^ Suc j" unfolding div_pow_Suc using l by (rule conjunct1)
  have p: "bit a j \<noteq> bit b j" using l unfolding bit_div by blast
  have "\<not> ?L < j" using ilog2_xor(3) [OF ne] p by auto
  moreover have "bit a k = bit b k" if ge: "Suc j \<le> k" for k
  proof -
    obtain m where k: "k = Suc j + m" using le_Suc_ex [OF ge] by blast
    have "unat a div 2 ^ k = unat b div 2 ^ k" unfolding k power_add div_mult2_eq by (simp only: d)
    then show ?thesis by (simp only: bit_div)
  qed
  then have "\<not> Suc j \<le> ?L" using ilog2_xor(2) [OF ne] by blast
  ultimately show "j = ?L" by simp
next
  assume j: "j = ?L"
  have "bit a j \<noteq> bit b j" using ilog2_xor(2) [OF ne] j by simp
  moreover have "unat a div 2 ^ Suc j = unat b div 2 ^ Suc j"
    by (rule div_eq_of_bits) (use ilog2_xor(3) [OF ne] j in auto)
  ultimately show ?l unfolding sibling_position_iff div_pow_Suc bit_div by blast
qed

lemma path_of_simps:
  "hp_index (path_of E xs i) = of_nat i" "hp_count (path_of E xs i) = of_nat (length xs)"
  "length (hp_siblings (path_of E xs i)) = 64"
  "j < 64 \<Longrightarrow> hp_siblings (path_of E xs i) ! j = subtree E xs j (sibling_position (i div 2 ^ j))"
  "l \<le> 64 \<Longrightarrow> take l (hp_siblings (path_of E xs i))
     = map (\<lambda>j. subtree E xs j (sibling_position (i div 2 ^ j))) [0..<l]"
  by (simp_all add: path_of_def take_map del: upt_rec_numeral)

lemma path_advance_correct:
  assumes i: "i < length xs" and len: "length xs + 1 < 2 ^ 64"
  shows "path_advance E (path_of E xs i) (xs ! i) (frontier_of E xs) x
    = Some (tree_root E (xs @ [x]), path_of E (xs @ [x]) i)"
proof -
  define a b where "a = (of_nat i :: u64)" and "b = (of_nat (length xs) :: u64)"
  have u: "unat a = i" "unat b = length xs"
    using i len unat_length [of xs] by (simp_all add: a_def b_def unat_of_nat)
  then have ne: "a \<noteq> b" using i by auto
  let ?L = "ilog2 (xor a b)" and ?ys = "xs @ [x]"
  have L: "?L < 64" by (rule ilog2_xor(1) [OF ne])
  have take: "take ?L (hp_siblings (path_of E ?ys (length xs)))
      = map (\<lambda>j. subtree E ?ys j (sibling_position (unat b div 2 ^ j))) [0..<0 + ?L]"
    using L by (simp add: path_of_simps u)
  have sib: "verify_loop E b 0 (take ?L (hp_siblings (path_of E ?ys (length xs)))) (history_leaf_hash E (Some x))
      = subtree E ?ys ?L (unat b div 2 ^ ?L)"
    unfolding take using verify_loop_subtree [of E b 0 ?ys ?L] by (simp add: u)
  have upd: "(hp_siblings (path_of E xs i))[?L := subtree E ?ys ?L (unat b div 2 ^ ?L)] = hp_siblings (path_of E ?ys i)"
  proof (rule nth_equalityI)
    fix j assume "j < length ((hp_siblings (path_of E xs i))[?L := subtree E ?ys ?L (unat b div 2 ^ ?L)])"
    then have j: "j < 64" by (simp add: path_of_simps)
    show "(hp_siblings (path_of E xs i))[?L := subtree E ?ys ?L (unat b div 2 ^ ?L)] ! j = hp_siblings (path_of E ?ys i) ! j"
    proof (cases "j = ?L")
      case True
      then show ?thesis using j sibling_meets [OF ne, of j] by (simp add: path_of_simps u)
    next
      case False
      then have "length xs div 2 ^ j \<noteq> sibling_position (i div 2 ^ j)" using sibling_meets [OF ne, of j] u by auto
      then show ?thesis using False j subtree_append_other [of xs j _ E x] by (simp add: path_of_simps)
    qed
  qed (simp add: path_of_simps)
  have "path_verify E (path_of E xs i) (xs ! i) (tree_root E xs)"
    using path_of_verifies [OF i, of E] len by simp
  moreover have "path_verify E (path_of E ?ys i) (xs ! i) (tree_root E ?ys)"
    using path_of_verifies [of i ?ys E] i len by (simp add: nth_append)
  moreover have "(path_of E xs i)\<lparr>hp_siblings := hp_siblings (path_of E ?ys i), hp_count := hp_count (path_of E ?ys (length xs))\<rparr>
      = path_of E ?ys i" by (rule history_path.equality) (simp_all add: path_of_simps)
  moreover have "hp_index (path_of E xs i) = a" "hp_count (path_of E xs i) = b" "hf_count (frontier_of E xs) = b"
    by (simp_all add: path_of_simps frontier_of_def a_def b_def)
  moreover have "frontier_root E (frontier_of E xs) = Some (tree_root E xs)" using frontier_root_correct len by simp
  ultimately show ?thesis
    unfolding path_advance_def append_path_correct [OF len] frontier_append_correct [OF len]
    by (simp only: option.case fst_conv Let_def sib upd simp_thms if_True if_False)
qed

end
