(* ===== verification/Accountability.thy ===== *)
theory Accountability
  imports Staking_Contract History
begin

text \<open>
  Mandatory sanctions (\<open>accountability.rs\<close>, \<open>accountability/settlement.rs\<close>) and the bindings of
  an evidence submission (\<open>consensus-types/src/evidence.rs\<close>): admission of proven offences, the
  FIFO of obligations, their execution, reporter rewards, replay markers and settlement totals.
  A panic of the source is \<open>Inl\<close> of its message; a panicking block has no post-state.
\<close>

subsection \<open>Evidence submissions (evidence.rs)\<close>

definition commitment :: "externals \<Rightarrow> 'a codec \<Rightarrow> 'a \<Rightarrow> hash" where
  "commitment E c v = blake3 E (enc c v)"

definition binds :: "externals \<Rightarrow> evidence_submission \<Rightarrow> u64 \<Rightarrow> u64 \<Rightarrow> evidence_anchor \<Rightarrow> bool" where
  "binds E sub chain_id height anchor \<longleftrightarrow>
     (let st = sub_statement sub;
          source = ec_chunk_id (es_context st);
          in_window = (case es_kind st of
              Slash \<Rightarrow> source < ea_chunk_id anchor
            | Inactivity \<Rightarrow> is_recent_history_index source (ea_chunk_id anchor))
      in es_chain_id st = chain_id
         \<and> es_chain_spec_hash st = ea_chain_spec_hash anchor
         \<and> es_block_guest_vk_digest st = ea_block_guest_vk_digest anchor
         \<and> hp_index (sub_history sub) = source
         \<and> hp_count (sub_history sub) = ea_chunk_id anchor
         \<and> in_window
         \<and> path_verify E (sub_history sub) (commitment E (context_codec E) (es_context st))
             (ea_history_root anchor)
         \<and> ec_end_height (es_context st) < height)"

definition within_age :: "evidence_submission \<Rightarrow> u64 \<Rightarrow> u64 \<Rightarrow> bool" where
  "within_age sub height max_age_blocks \<longleftrightarrow>
     (let end_height = ec_end_height (es_context (sub_statement sub))
      in (case es_kind (sub_statement sub) of
            Slash \<Rightarrow> end_height < height
          | Inactivity \<Rightarrow> end_height < height \<and> height - end_height \<le> max_age_blocks))"

subsection \<open>Block input (lib.rs)\<close>

record stf_input =
  si_evidence_anchor :: evidence_anchor
  si_chain_id :: u64
  si_block_height :: u64
  si_block_gas_limit :: u64
  si_proposer_address :: address
  si_participation :: "participation_report option"
  si_transactions :: "transaction list"

subsection \<open>Settlement totals (settlement.rs)\<close>

definition counter_add :: "settlement_counter \<Rightarrow> u128 \<Rightarrow> settlement_counter" where
  "counter_add c amount =
     (case checked_add (sc_value c) amount of
        Some v \<Rightarrow> c\<lparr>sc_value := v\<rparr>
      | None \<Rightarrow> c\<lparr>sc_value := - 1, sc_overflowed := True\<rparr>)"

definition default_counter :: settlement_counter where
  "default_counter = \<lparr>sc_value = 0, sc_overflowed = False\<rparr>"

definition default_kind_totals :: settlement_kind_totals where
  "default_kind_totals =
     \<lparr>kt_admitted = default_counter, kt_executed = default_counter, kt_zero_deductions = default_counter,
      kt_deducted = default_counter, kt_rewarded = default_counter, kt_burned = default_counter\<rparr>"

definition default_totals :: settlement_totals where
  "default_totals = \<lparr>tot_slash = default_kind_totals, tot_inactivity = default_kind_totals\<rparr>"

definition kind_totals :: "sanction_kind \<Rightarrow> settlement_totals \<Rightarrow> settlement_kind_totals" where
  "kind_totals k t = (case k of Slash \<Rightarrow> tot_slash t | Inactivity \<Rightarrow> tot_inactivity t)"

definition kind_mut ::
  "sanction_kind \<Rightarrow> (settlement_kind_totals \<Rightarrow> settlement_kind_totals) \<Rightarrow> settlement_totals \<Rightarrow> settlement_totals" where
  "kind_mut k f t =
     (case k of
        Slash \<Rightarrow> t\<lparr>tot_slash := f (tot_slash t)\<rparr>
      | Inactivity \<Rightarrow> t\<lparr>tot_inactivity := f (tot_inactivity t)\<rparr>)"

definition totals_admitted :: "sanction_kind \<Rightarrow> settlement_totals \<Rightarrow> settlement_totals" where
  "totals_admitted k t = kind_mut k (\<lambda>x. x\<lparr>kt_admitted := counter_add (kt_admitted x) 1\<rparr>) t"

definition totals_executed ::
  "sanction_kind \<Rightarrow> u128 \<Rightarrow> u128 \<Rightarrow> settlement_totals \<Rightarrow> string + settlement_totals" where
  "totals_executed k deducted rewarded t =
     (case checked_sub deducted rewarded of
        None \<Rightarrow> Inl ''reward comes from deduction''
      | Some burned \<Rightarrow>
          Inr (kind_mut k (\<lambda>x. x
            \<lparr>kt_executed := counter_add (kt_executed x) 1,
             kt_zero_deductions := counter_add (kt_zero_deductions x) (if deducted = 0 then 1 else 0),
             kt_deducted := counter_add (kt_deducted x) deducted,
             kt_rewarded := counter_add (kt_rewarded x) rewarded,
             kt_burned := counter_add (kt_burned x) burned\<rparr>) t))"

definition load_totals :: "externals \<Rightarrow> state \<Rightarrow> string + settlement_totals" where
  "load_totals E s =
     res_bind (read_canonical (totals_codec E) s SETTLEMENT_TOTALS_KEY) (\<lambda>t. Inr (unwrap_or t default_totals))"

definition store_totals :: "externals \<Rightarrow> state \<Rightarrow> settlement_totals \<Rightarrow> state" where
  "store_totals E s t = write_record (totals_codec E) s SETTLEMENT_TOTALS_KEY t"

subsection \<open>Replay markers\<close>

definition replay_marker :: "sanction_kind \<Rightarrow> bls_public_key \<Rightarrow> hash \<Rightarrow> bytes" where
  "replay_marker kind pubkey offence_id =
     (case kind of Slash \<Rightarrow> slashed_key pubkey | Inactivity \<Rightarrow> offence_key offence_id)"

definition marker_key :: "evidence_statement \<Rightarrow> bytes" where
  "marker_key st = replay_marker (es_kind st) (cv_pubkey (es_offender st)) (es_offence_id st)"

definition sanction_marker_key :: "sanction \<Rightarrow> bytes" where
  "sanction_marker_key sn = replay_marker (sn_kind sn) (cv_pubkey (sn_offender sn)) (sn_offence_id sn)"

definition sweep_expired_markers :: "externals \<Rightarrow> state \<Rightarrow> u64 \<Rightarrow> u64 \<Rightarrow> string + state" where
  "sweep_expired_markers E s height retention =
     (case Option.bind (checked_sub height retention) (\<lambda>h. checked_sub h 1) of
        None \<Rightarrow> Inr s
      | Some expired \<Rightarrow>
          res_bind (read_canonical (marker_keys_codec E) s (expiry_key expired)) (\<lambda>keys.
            case keys of
              None \<Rightarrow> Inr s
            | Some ks \<Rightarrow> Inr (delete (foldl delete s ks) (expiry_key expired))))"

definition record_expiry_bucket :: "externals \<Rightarrow> state \<Rightarrow> u64 \<Rightarrow> sanction list \<Rightarrow> state" where
  "record_expiry_bucket E s height admitted =
     (let keys = map sanction_marker_key (filter (\<lambda>sn. sn_kind sn = Inactivity) admitted)
      in if keys = [] then s else write_record (marker_keys_codec E) s (expiry_key height) keys)"

definition load_queue :: "externals \<Rightarrow> state \<Rightarrow> string + pending_sanction list" where
  "load_queue E s =
     res_bind (read_canonical (sanction_queue_codec E) s QUEUE_KEY) (\<lambda>q. Inr (unwrap_or q []))"

subsection \<open>Input rules\<close>

datatype input_error = Anchor | Order | Binding | Cap

fun input_error_message :: "input_error \<Rightarrow> string" where
  "input_error_message Anchor = ''invalid accountability anchor''"
| "input_error_message Order = ''evidence admissions must precede ordinary transactions''"
| "input_error_message Binding = ''evidence binding''"
| "input_error_message Cap = ''evidence admission cap''"

fun admissions_loop ::
  "externals \<Rightarrow> u64 \<Rightarrow> u64 \<Rightarrow> evidence_anchor \<Rightarrow> bool \<Rightarrow> u32 \<Rightarrow> transaction list \<Rightarrow> input_error + u32" where
  "admissions_loop E chain_id height anchor ordinary count [] = Inr count"
| "admissions_loop E chain_id height anchor ordinary count (tx # txs) =
     (case tx of
        SubmitEvidence submission \<Rightarrow>
          if ordinary then Inl Order
          else if \<not> binds E submission chain_id height anchor then Inl Binding
          else (case checked_add count 1 of
                  None \<Rightarrow> Inl Cap
                | Some c \<Rightarrow> admissions_loop E chain_id height anchor ordinary c txs)
      | _ \<Rightarrow> admissions_loop E chain_id height anchor True count txs)"

definition check_admissions ::
  "externals \<Rightarrow> u64 \<Rightarrow> u64 \<Rightarrow> evidence_anchor \<Rightarrow> transaction list \<Rightarrow> input_error + unit" where
  "check_admissions E chain_id height anchor txs =
     (if \<not> anchor_is_well_formed anchor then Inl Anchor
      else res_bind (admissions_loop E chain_id height anchor False 0 txs) (\<lambda>count.
        if count > MAX_PENDING then Inl Cap else Inr ()))"

text \<open>A validated input is the input itself, once its checks pass.\<close>

definition try_validate_input :: "externals \<Rightarrow> stf_input \<Rightarrow> input_error + stf_input" where
  "try_validate_input E input =
     res_bind (check_admissions E (si_chain_id input) (si_block_height input)
       (si_evidence_anchor input) (si_transactions input)) (\<lambda>_. Inr input)"

definition validate_input :: "externals \<Rightarrow> stf_input \<Rightarrow> string + stf_input" where
  "validate_input E input = map_err input_error_message (try_validate_input E input)"

text \<open>Integer overflow panics: every build profile enables overflow checks.\<close>

fun policy_loop :: "u64 \<Rightarrow> runtime_policy \<Rightarrow> u32 \<Rightarrow> transaction list \<Rightarrow> string + u32" where
  "policy_loop height policy admissions [] = Inr admissions"
| "policy_loop height policy admissions (tx # txs) =
     (case tx of
        SubmitEvidence submission \<Rightarrow>
          if \<not> within_age submission height (evidence_max_age_blocks policy) then Inl ''evidence window''
          else res_bind (ok_or (checked_add admissions 1) ''attempt to add with overflow'')
            (\<lambda>n. policy_loop height policy n txs)
      | _ \<Rightarrow> Inr admissions)"

definition check_policy :: "stf_input \<Rightarrow> runtime_policy \<Rightarrow> string + unit" where
  "check_policy input policy =
     (if \<not> policy_is_valid_for policy (si_evidence_anchor input) then Inl ''invalid accountability policy''
      else res_bind (policy_loop (si_block_height input) policy 0 (si_transactions input)) (\<lambda>admissions.
        require (admissions \<le> evidence_admissions_per_block policy) ''evidence admission cap''))"

subsection \<open>Admission\<close>

text \<open>
  The loop over the evidence prefix; \<open>slashed\<close> and \<open>offences\<close> are the two \<open>BTreeSet\<close>s that reject
  duplicates within the block.
\<close>

fun collect_loop ::
  "externals \<Rightarrow> state \<Rightarrow> bls_public_key set \<Rightarrow> hash set \<Rightarrow> transaction list \<Rightarrow> string + sanction list" where
  "collect_loop E s slashed offences [] = Inr []"
| "collect_loop E s slashed offences (tx # txs) =
     (case tx of
        SubmitEvidence submission \<Rightarrow>
          let claim = sub_statement submission;
              pubkey = cv_pubkey (es_offender claim)
          in
          res_bind (require (s (marker_key claim) = None) ''offence replay'') (\<lambda>_.
          res_bind (case es_kind claim of
                      Slash \<Rightarrow> Inr True
                    | Inactivity \<Rightarrow> certified_absent E s (ec_chunk_id (es_context claim))
                        (cv_withdrawal_credentials (es_offender claim))) (\<lambda>certified.
          res_bind (require certified ''uncertified inactivity'') (\<lambda>_.
          res_bind (require (case es_kind claim of
                               Slash \<Rightarrow> pubkey \<notin> slashed
                             | Inactivity \<Rightarrow> es_offence_id claim \<notin> offences) ''duplicate offence'') (\<lambda>_.
          res_bind (collect_loop E s
              (case es_kind claim of Slash \<Rightarrow> insert pubkey slashed | Inactivity \<Rightarrow> slashed)
              (insert (es_offence_id claim) offences) txs) (\<lambda>rest.
          Inr (\<lparr>sn_offence_id = es_offence_id claim, sn_offender = es_offender claim,
                sn_kind = es_kind claim\<rparr> # rest))))))
      | _ \<Rightarrow> Inr [])"

definition collect_admissions :: "externals \<Rightarrow> stf_input \<Rightarrow> state \<Rightarrow> string + sanction list" where
  "collect_admissions E input s = collect_loop E s {} {} (si_transactions input)"

definition pending_of :: "runtime_policy \<Rightarrow> sanction \<Rightarrow> evidence_submission \<Rightarrow> pending_sanction" where
  "pending_of policy sn submission =
     \<lparr>pn_sanction = sn,
      pn_amount = (case sn_kind sn of
          Slash \<Rightarrow> slash_amount policy | Inactivity \<Rightarrow> inactivity_leak_amount policy),
      pn_reporter = (if sn_kind sn = Slash then es_reporter (sub_statement submission) else None),
      pn_reporter_reward_bps = (if sn_kind sn = Slash then reporter_reward_bps policy else 0)\<rparr>"

fun enqueue_loop ::
  "runtime_policy \<Rightarrow> (sanction \<times> transaction) list \<Rightarrow> state \<Rightarrow> pending_sanction list
     \<Rightarrow> string + state \<times> pending_sanction list" where
  "enqueue_loop policy [] s queue = Inr (s, queue)"
| "enqueue_loop policy ((sn, tx) # rest) s queue =
     (case tx of
        SubmitEvidence submission \<Rightarrow>
          enqueue_loop policy rest (s(sanction_marker_key sn \<mapsto> [0])) (queue @ [pending_of policy sn submission])
      | _ \<Rightarrow> Inl ''admissions form the transaction prefix'')"

definition enqueue_admissions ::
  "state \<Rightarrow> stf_input \<Rightarrow> runtime_policy \<Rightarrow> sanction list \<Rightarrow> pending_sanction list
     \<Rightarrow> string + state \<times> pending_sanction list" where
  "enqueue_admissions s input policy admitted queue =
     enqueue_loop policy (zip admitted (si_transactions input)) s queue"

definition backlog_of :: "pending_sanction list \<Rightarrow> backlog" where
  "backlog_of queue =
     \<lparr>bl_held = set (map (\<lambda>item. cv_withdrawal_credentials (sn_offender (pn_sanction item))) queue),
      bl_count = length queue\<rparr>"

subsection \<open>Execution\<close>

definition credit_reporter ::
  "externals \<Rightarrow> state \<Rightarrow> address \<Rightarrow> u128 \<Rightarrow> u16 \<Rightarrow> string + u128 \<times> state" where
  "credit_reporter E s reporter deducted basis_points =
     res_bind (require (basis_points \<le> BASIS_POINTS) ''canonical reporter reward share'') (\<lambda>_.
     let reward = mul_div_floor deducted (ucast basis_points) (ucast BASIS_POINTS)
     in if reward = 0 then Inr (0, s)
        else
          let account = load_account E s reporter;
              credited = min reward (- 1 - balance account)
          in Inr (credited, store_account E s reporter (account\<lparr>balance := balance account + credited\<rparr>)))"

definition execute_pending ::
  "externals \<Rightarrow> state \<Rightarrow> pending_sanction \<Rightarrow> settlement_totals
     \<Rightarrow> string + receipt_status \<times> state \<times> settlement_totals" where
  "execute_pending E s item totals =
     (let sn = pn_sanction item in
     res_bind
       (case apply_deduction E s (cv_withdrawal_credentials (sn_offender sn)) (pn_amount item) of
          Inr (deducted, s1) \<Rightarrow>
            (case (sn_kind sn, pn_reporter item) of
               (Slash, Some reporter) \<Rightarrow>
                 res_bind (credit_reporter E s1 reporter deducted (pn_reporter_reward_bps item))
                   (\<lambda>(rewarded, s2). Inr (Success, deducted, rewarded, s2))
             | _ \<Rightarrow> Inr (Success, deducted, 0, s1))
        | Inl InsufficientBalance \<Rightarrow> Inr (InsufficientBalance, 0, 0, s)
        | Inl _ \<Rightarrow> Inl ''unexpected mandatory deduction failure'')
       (\<lambda>(st, deducted, rewarded, s2).
     res_bind (totals_executed (sn_kind sn) deducted rewarded totals) (\<lambda>totals'.
     Inr (st, s2(sanction_marker_key sn \<mapsto> [1]), totals'))))"

definition SANCTION_RECEIPT_KIND :: u8 where "SANCTION_RECEIPT_KIND = 11"

fun execute_loop ::
  "externals \<Rightarrow> pending_sanction list \<Rightarrow> state \<Rightarrow> settlement_totals
     \<Rightarrow> string + receipt list \<times> state \<times> settlement_totals" where
  "execute_loop E [] s totals = Inr ([], s, totals)"
| "execute_loop E (item # items) s totals =
     res_bind (execute_pending E s item totals) (\<lambda>(st, s', totals').
     res_bind (execute_loop E items s' totals') (\<lambda>(receipts, s'', totals'').
     Inr (\<lparr>rc_status_code = receipt_status_as_u32 st, rc_gas_used = GAS_SANCTION,
           rc_kind = SANCTION_RECEIPT_KIND\<rparr> # receipts, s'', totals'')))"

record accountability_output =
  ao_anchor :: evidence_anchor
  ao_admitted :: "sanction list"
  ao_executed :: "sanction list"
  ao_queue_before :: hash
  ao_queue_after :: hash

record mandatory =
  mn_output :: accountability_output
  mn_gas :: u64
  mn_receipts :: "receipt list"
  mn_backlog :: backlog

text \<open>
  \<open>accountability::apply\<close>, cut where the source moves from checking to writing:
  \<open>mandatory_plan\<close> reads and decides (after the sweep, the first write), \<open>mandatory_run\<close> admits,
  executes and stores.
\<close>

definition mandatory_plan ::
  "externals \<Rightarrow> stf_input \<Rightarrow> state \<Rightarrow> runtime_policy
     \<Rightarrow> string + pending_sanction list \<times> state \<times> sanction list \<times> nat \<times> u64" where
  "mandatory_plan E input s policy =
     res_bind (check_policy input policy) (\<lambda>_.
     res_bind (case s QUEUE_KEY of
                 None \<Rightarrow> Inr []
               | Some b \<Rightarrow> ok_or (dec (sanction_queue_codec E) b) ''canonical sanction queue'') (\<lambda>queue.
     res_bind (require (length queue \<le> unat (evidence_max_pending policy)) ''queue bound'') (\<lambda>_.
     res_bind (sweep_expired_markers E s (si_block_height input)
                 (ea_unbonding_delay_blocks (si_evidence_anchor input))) (\<lambda>s1.
     res_bind (collect_admissions E input s1) (\<lambda>admitted.
     let execution_count = min (length queue + length admitted) (unat (evidence_executions_per_block policy)) in
     res_bind (ok_or (checked_mul (of_nat execution_count) GAS_SANCTION) ''bounded execution gas'') (\<lambda>execution_gas.
     res_bind (ok_or (checked_mul (of_nat (length admitted)) GAS_EVIDENCE_ADMISSION) ''bounded admission gas'')
       (\<lambda>admission_gas.
     res_bind (require (case checked_add execution_gas admission_gas of
                          None \<Rightarrow> False | Some gas \<Rightarrow> gas \<le> si_block_gas_limit input)
                 ''mandatory sanction gas'') (\<lambda>_.
     res_bind (require (length queue + length admitted - execution_count \<le> unat (evidence_max_pending policy))
                 ''queue capacity'') (\<lambda>_.
     Inr (queue, s1, admitted, execution_count, execution_gas))))))))))"

definition mandatory_run ::
  "externals \<Rightarrow> stf_input \<Rightarrow> runtime_policy \<Rightarrow> hash \<Rightarrow> pending_sanction list \<Rightarrow> state \<Rightarrow> sanction list
     \<Rightarrow> nat \<Rightarrow> u64 \<Rightarrow> string + mandatory \<times> state" where
  "mandatory_run E input policy before queue s1 admitted execution_count execution_gas =
     res_bind (enqueue_admissions s1 input policy admitted queue) (\<lambda>(s2, queue2).
     let s3 = record_expiry_bucket E s2 (si_block_height input) admitted;
         settles = (admitted \<noteq> [] \<or> execution_count > 0) in
     res_bind (if settles then load_totals E s3 else Inr default_totals) (\<lambda>totals0.
     let totals1 = foldl (\<lambda>t sn. totals_admitted (sn_kind sn) t) totals0 admitted in
     res_bind (execute_loop E (take execution_count queue2) s3 totals1) (\<lambda>(receipts, s4, totals2).
     let s5 = (if settles then store_totals E s4 totals2 else s4);
         rest = drop execution_count queue2;
         residual = enc (sanction_queue_codec E) rest;
         after = blake3 E residual;
         s6 = (if before \<noteq> after then s5(QUEUE_KEY \<mapsto> residual) else s5)
     in Inr (\<lparr>mn_output = \<lparr>ao_anchor = si_evidence_anchor input, ao_admitted = admitted,
                 ao_executed = map pn_sanction (take execution_count queue2),
                 ao_queue_before = before, ao_queue_after = after\<rparr>,
              mn_gas = execution_gas, mn_receipts = receipts, mn_backlog = backlog_of rest\<rparr>, s6))))"

definition accountability_apply ::
  "externals \<Rightarrow> stf_input \<Rightarrow> state \<Rightarrow> runtime_policy \<Rightarrow> string + mandatory \<times> state" where
  "accountability_apply E input s policy =
     res_bind (mandatory_plan E input s policy) (\<lambda>(queue, s1, admitted, execution_count, execution_gas).
     mandatory_run E input policy
       (case s QUEUE_KEY of
          None \<Rightarrow> commitment E (sanction_queue_codec E) queue | Some b \<Rightarrow> blake3 E b)
       queue s1 admitted execution_count execution_gas)"

record settlement_snapshot =
  ss_totals :: settlement_totals
  ss_pending_slash :: u32
  ss_pending_inactivity :: u32

fun snapshot_loop :: "pending_sanction list \<Rightarrow> settlement_snapshot \<Rightarrow> string + settlement_snapshot" where
  "snapshot_loop [] r = Inr r"
| "snapshot_loop (p # ps) r =
     (case sn_kind (pn_sanction p) of
        Slash \<Rightarrow>
          res_bind (ok_or (checked_add (ss_pending_slash r) 1) ''bounded sanction count'')
            (\<lambda>n. snapshot_loop ps (r\<lparr>ss_pending_slash := n\<rparr>))
      | Inactivity \<Rightarrow>
          res_bind (ok_or (checked_add (ss_pending_inactivity r) 1) ''bounded sanction count'')
            (\<lambda>n. snapshot_loop ps (r\<lparr>ss_pending_inactivity := n\<rparr>)))"

definition settlement_snapshot_of :: "externals \<Rightarrow> state \<Rightarrow> string + settlement_snapshot" where
  "settlement_snapshot_of E s =
     res_bind (load_totals E s) (\<lambda>totals.
     res_bind (load_queue E s) (\<lambda>queue.
     res_bind (require (length queue \<le> unat MAX_PENDING) ''canonical sanction queue bound'') (\<lambda>_.
     snapshot_loop queue \<lparr>ss_totals = totals, ss_pending_slash = 0, ss_pending_inactivity = 0\<rparr>)))"

end
