(* ===== verification/Merkle.thy ===== *)
theory Merkle
  imports Runtime_State
begin

text \<open>
  Binary Merkle trees with odd-leaf promotion: the in-place reduction of
  \<open>crates/primitives/src/lib.rs\<close> (\<open>merkle_root_from_hashes\<close>, \<open>da_root_from_lane_roots\<close>), the
  transaction commitments of \<open>core/src/commitments.rs\<close> and the counted openings of
  \<open>consensus-types/src/evidence.rs\<close>. \<open>pair_level\<close> is the level-by-level reference. The borsh
  encoding of the counted root's tuple is the parameter \<open>menc\<close>.
\<close>

definition EMPTY_MERKLE_ROOT :: hash where "EMPTY_MERKLE_ROOT = 0"

definition pair_bytes :: "hash \<Rightarrow> hash \<Rightarrow> bytes" where
  "pair_bytes left right = be_bytes 32 left @ be_bytes 32 right"

definition pair_hash :: "externals \<Rightarrow> hash \<Rightarrow> hash \<Rightarrow> hash" where
  "pair_hash E left right = blake3 E (pair_bytes left right)"

subsection \<open>In-place reduction (primitives)\<close>

fun reduce_loop :: "externals \<Rightarrow> nat \<Rightarrow> nat \<Rightarrow> hash list \<Rightarrow> hash list" where
  "reduce_loop E index 0 leaves = leaves"
| "reduce_loop E index (Suc n) leaves =
     reduce_loop E (Suc index) n
       (leaves[index := pair_hash E (leaves ! (index * 2)) (leaves ! (index * 2 + 1))])"

definition reduce_level :: "externals \<Rightarrow> hash list \<Rightarrow> hash list" where
  "reduce_level E leaves =
     (let len = length leaves;
          paired = reduce_loop E 0 (len div 2) leaves;
          promoted = (if odd len then paired[len div 2 := paired ! (len - 1)] else paired)
      in take ((len + 1) div 2) promoted)"

lemma length_reduce_loop [simp]: "length (reduce_loop E i n xs) = length xs"
  by (induction n arbitrary: i xs) simp_all

lemma length_reduce_level: "length (reduce_level E xs) = (length xs + 1) div 2"
proof -
  have "(length xs + 1) div 2 \<le> length xs" by (cases xs) auto
  then show ?thesis unfolding reduce_level_def Let_def
    by (simp only: length_take length_list_update length_reduce_loop if_distrib [of length] if_cancel min_absorb2)
qed

function merkle_loop :: "externals \<Rightarrow> hash list \<Rightarrow> hash" where
  "merkle_loop E leaves = (if 1 < length leaves then merkle_loop E (reduce_level E leaves) else leaves ! 0)"
  by pat_completeness auto
termination
  by (relation "measure (\<lambda>(E, xs). length xs)") (auto simp: length_reduce_level)

declare merkle_loop.simps [simp del]

definition merkle_root_from_hashes :: "externals \<Rightarrow> hash list \<Rightarrow> hash" where
  "merkle_root_from_hashes E leaves = (if leaves = [] then EMPTY_MERKLE_ROOT else merkle_loop E leaves)"

definition merkle_root_of_hashes :: "externals \<Rightarrow> hash list \<Rightarrow> hash" where
  "merkle_root_of_hashes E leaves = merkle_root_from_hashes E leaves"

text \<open>\<open>u32::try_from(..).expect(..)\<close> panics on a blob of \<open>2 ^ 32\<close> bytes or more.\<close>

definition blob_leaf :: "externals \<Rightarrow> bytes \<Rightarrow> string + hash" where
  "blob_leaf E blob =
     (if length blob < 2 ^ 32
      then Inr (blake3 E (le_bytes 4 (of_nat (length blob) :: u32) @ blob))
      else Inl ''blob length fits u32'')"

fun blob_leaves :: "externals \<Rightarrow> bytes list \<Rightarrow> string + hash list" where
  "blob_leaves E [] = Inr []"
| "blob_leaves E (b # bs) =
     res_bind (blob_leaf E b) (\<lambda>h. res_bind (blob_leaves E bs) (\<lambda>hs. Inr (h # hs)))"

definition merkle_root_of_blobs :: "externals \<Rightarrow> bytes list \<Rightarrow> string + hash" where
  "merkle_root_of_blobs E blobs = res_bind (blob_leaves E blobs) (\<lambda>leaves. Inr (merkle_root_of_hashes E leaves))"

definition DOMAIN_DA_LANE :: bytes where "DOMAIN_DA_LANE = ascii ''NEUTRINO_DA_____''"

definition da_lane_leaf :: "externals \<Rightarrow> u8 \<Rightarrow> u32 \<times> hash \<Rightarrow> hash" where
  "da_lane_leaf E tag lane =
     blake3 E (DOMAIN_DA_LANE @ [tag] @ le_bytes 4 (fst lane) @ be_bytes 32 (snd lane))"

definition da_root_from_lane_roots :: "externals \<Rightarrow> u32 \<times> hash \<Rightarrow> u32 \<times> hash \<Rightarrow> u32 \<times> hash \<Rightarrow> hash" where
  "da_root_from_lane_roots E l0 l1 l2 =
     merkle_root_of_hashes E [da_lane_leaf E 0 l0, da_lane_leaf E 1 l1, da_lane_leaf E 2 l2]"

subsection \<open>Transaction commitments (commitments.rs)\<close>

record transaction_summary =
  ts_transaction_count :: u32

text \<open>
  The loop over the transactions: \<open>bytes\<close> is the one buffer every iteration clears, fills with four
  zero bytes and the encoding, and then patches with the length.
\<close>

fun transaction_leaves :: "externals \<Rightarrow> transaction list \<Rightarrow> bytes \<Rightarrow> hash list \<Rightarrow> string + hash list" where
  "transaction_leaves E [] bytes leaves = Inr leaves"
| "transaction_leaves E (tx # txs) bytes leaves =
     (let cleared = take 0 bytes;
          reserved = cleared @ replicate 4 0;
          filled = reserved @ enc (transaction_codec E) tx
      in res_bind (if length filled - 4 < 2 ^ 32 then Inr (of_nat (length filled - 4) :: u32)
                   else Inl ''transaction length fits borsh'') (\<lambda>len.
         let patched = le_bytes 4 len @ drop 4 filled
         in transaction_leaves E txs patched (leaves @ [blake3 E patched])))"

definition transaction_commitments ::
  "externals \<Rightarrow> transaction list \<Rightarrow> string + hash \<times> transaction_summary" where
  "transaction_commitments E txs =
     res_bind (if length txs < 2 ^ 32 then Inr (of_nat (length txs)) else Inl ''transaction count fits borsh'') (\<lambda>count.
     res_bind (transaction_leaves E txs [] []) (\<lambda>leaves.
     Inr (merkle_root_from_hashes E leaves, \<lparr>ts_transaction_count = count\<rparr>)))"

subsection \<open>Counted openings (evidence.rs)\<close>

record merkle_opening =
  mo_index :: u64
  mo_count :: u64
  mo_siblings :: "hash list"

definition EVIDENCE_MEMBERSHIP_DOMAIN :: bytes where
  "EVIDENCE_MEMBERSHIP_DOMAIN = ascii ''neutrino-evidence-membership''"

definition counted_merkle_root :: "externals \<Rightarrow> (bytes \<times> u64 \<times> hash \<Rightarrow> bytes) \<Rightarrow> u64 \<Rightarrow> hash \<Rightarrow> hash" where
  "counted_merkle_root E menc count root = blake3 E (menc (EVIDENCE_MEMBERSHIP_DOMAIN, count, root))"

fun pair_level :: "externals \<Rightarrow> hash list \<Rightarrow> hash list" where
  "pair_level E [] = []"
| "pair_level E [a] = [a]"
| "pair_level E (a # b # rest) = pair_hash E a b # pair_level E rest"

lemma length_pair_level [simp]: "length (pair_level E xs) = (length xs + 1) div 2"
  by (induction E xs rule: pair_level.induct) simp_all

definition flip_low :: "nat \<Rightarrow> nat" where
  "flip_low position = (if even position then position + 1 else position - 1)"

function opening_loop :: "externals \<Rightarrow> hash list \<Rightarrow> nat \<Rightarrow> hash list" where
  "opening_loop E nodes position =
     (if 1 < length nodes
      then (if flip_low position < length nodes then [nodes ! flip_low position] else [])
           @ opening_loop E (pair_level E nodes) (position div 2)
      else [])"
  by pat_completeness auto
termination by (relation "measure (\<lambda>(E, xs, p). length xs)") auto

declare opening_loop.simps [simp del]

definition opening_build :: "externals \<Rightarrow> hash list \<Rightarrow> nat \<Rightarrow> merkle_opening option" where
  "opening_build E leaves index =
     (if index \<ge> length leaves then None
      else Some \<lparr>mo_index = of_nat index, mo_count = of_nat (length leaves),
             mo_siblings = opening_loop E leaves index\<rparr>)"

text \<open>
  \<open>position ^ 1\<close>, \<open>position / 2\<close> and \<open>width.div_ceil(2)\<close> on the values of the \<open>u64\<close> counters;
  \<open>None\<close> is the early \<open>return false\<close>.
\<close>

function opening_fold :: "externals \<Rightarrow> nat \<Rightarrow> nat \<Rightarrow> hash \<Rightarrow> hash list \<Rightarrow> (hash \<times> hash list) option" where
  "opening_fold E position width h siblings =
     (if 1 < width
      then if flip_low position < width
           then (case siblings of
                   [] \<Rightarrow> None
                 | sib # sibs \<Rightarrow>
                     opening_fold E (position div 2) ((width + 1) div 2)
                       (if even position then pair_hash E h sib else pair_hash E sib h) sibs)
           else opening_fold E (position div 2) ((width + 1) div 2) h siblings
      else Some (h, siblings))"
  by pat_completeness auto
termination by (relation "measure (\<lambda>(E, p, w, h, s). w)") auto

declare opening_fold.simps [simp del]

definition opening_verify :: "externals \<Rightarrow> (bytes \<times> u64 \<times> hash \<Rightarrow> bytes) \<Rightarrow> merkle_opening \<Rightarrow> hash \<Rightarrow> hash \<Rightarrow> bool" where
  "opening_verify E menc p leaf expected_root \<longleftrightarrow>
     \<not> (mo_index p \<ge> mo_count p \<or> mo_count p = 0 \<or> length (mo_siblings p) > 64)
     \<and> (case opening_fold E (unat (mo_index p)) (unat (mo_count p)) leaf (mo_siblings p) of
          None \<Rightarrow> False
        | Some (h, left) \<Rightarrow> left = [] \<and> counted_merkle_root E menc (mo_count p) h = expected_root)"

subsection \<open>The in-place pass is the level-by-level reference\<close>

lemma reduce_loop_nth:
  assumes "j < length xs" and "2 * (i + n) \<le> length xs"
  shows "reduce_loop E i n xs ! j =
    (if i \<le> j \<and> j < i + n then pair_hash E (xs ! (2 * j)) (xs ! (2 * j + 1)) else xs ! j)"
  using assms
proof (induction n arbitrary: i xs)
  case (Suc n)
  let ?ys = "xs[i := pair_hash E (xs ! (i * 2)) (xs ! (i * 2 + 1))]"
  have "reduce_loop E (Suc i) n ?ys ! j =
      (if Suc i \<le> j \<and> j < Suc i + n then pair_hash E (?ys ! (2 * j)) (?ys ! (2 * j + 1)) else ?ys ! j)"
    by (rule Suc.IH) (use Suc.prems in auto)
  then show ?case using Suc.prems by (auto simp: nth_list_update mult.commute)
qed auto

lemma pair_level_nth:
  "j < (length xs + 1) div 2 \<Longrightarrow>
     pair_level E xs ! j = (if 2 * j + 1 < length xs then pair_hash E (xs ! (2 * j)) (xs ! (2 * j + 1)) else xs ! (2 * j))"
proof (induction E xs arbitrary: j rule: pair_level.induct)
  case (3 E a b rest)
  then show ?case by (cases j) simp_all
qed simp_all

lemma reduce_level_pairs: "reduce_level E xs = pair_level E xs"
proof (rule nth_equalityI)
  show "length (reduce_level E xs) = length (pair_level E xs)" by (simp add: length_reduce_level)
next
  fix j
  assume "j < length (reduce_level E xs)"
  then have j: "j < (length xs + 1) div 2" by (simp add: length_reduce_level)
  have at: "reduce_loop E 0 (length xs div 2) xs ! k =
      (if k < length xs div 2 then pair_hash E (xs ! (2 * k)) (xs ! (2 * k + 1)) else xs ! k)" if "k < length xs" for k
    using reduce_loop_nth [of k xs 0 "length xs div 2" E] that by simp
  show "reduce_level E xs ! j = pair_level E xs ! j"
  proof (cases "j < length xs div 2")
    case True
    then show ?thesis using at [of j] j
      by (auto simp: reduce_level_def Let_def pair_level_nth nth_list_update)
  next
    case False
    then have odd: "odd (length xs)" "j = length xs div 2" using j by presburger+
    then have "2 * j = length xs - 1" "0 < length xs" by presburger+
    then show ?thesis using at [of "length xs - 1"] j odd
      by (auto simp: reduce_level_def Let_def pair_level_nth nth_list_update)
  qed
qed

text \<open>The root as the level-by-level recursion of the unit test and of the openings.\<close>

function level_root :: "externals \<Rightarrow> hash list \<Rightarrow> hash" where
  "level_root E nodes = (if 1 < length nodes then level_root E (pair_level E nodes) else nodes ! 0)"
  by pat_completeness auto
termination by (relation "measure (\<lambda>(E, xs). length xs)") auto

declare level_root.simps [simp del]

lemma merkle_loop_levels: "merkle_loop E xs = level_root E xs"
proof (induction E xs rule: level_root.induct)
  case (1 E nodes)
  then show ?case by (simp add: merkle_loop.simps [of E nodes] level_root.simps [of E nodes] reduce_level_pairs)
qed

lemma merkle_root_levels:
  "merkle_root_from_hashes E xs = (if xs = [] then EMPTY_MERKLE_ROOT else level_root E xs)"
  by (simp add: merkle_root_from_hashes_def merkle_loop_levels)

subsection \<open>The streaming commitment\<close>

text \<open>What the buffer holds when a transaction is hashed.\<close>

definition transaction_leaf_bytes :: "externals \<Rightarrow> transaction \<Rightarrow> bytes" where
  "transaction_leaf_bytes E tx =
     (let body = enc (transaction_codec E) tx in le_bytes 4 (of_nat (length body) :: u32) @ body)"

lemma transaction_leaves_map:
  "transaction_leaves E txs bytes leaves =
     (if \<forall>tx \<in> set txs. length (enc (transaction_codec E) tx) < 2 ^ 32
      then Inr (leaves @ map (\<lambda>tx. blake3 E (transaction_leaf_bytes E tx)) txs)
      else Inl ''transaction length fits borsh'')"
  by (induction txs arbitrary: bytes leaves) (auto simp: transaction_leaf_bytes_def Let_def)

lemma blob_leaves_map:
  "\<forall>b \<in> set bs. length b < 2 ^ 32 \<Longrightarrow>
     blob_leaves E bs = Inr (map (\<lambda>b. blake3 E (le_bytes 4 (of_nat (length b) :: u32) @ b)) bs)"
  by (induction bs) (auto simp: blob_leaf_def)

lemma blob_leaves_panic: "b \<in> set bs \<Longrightarrow> \<not> length b < 2 ^ 32 \<Longrightarrow> blob_leaves E bs = Inl ''blob length fits u32''"
  by (induction bs) (auto simp: blob_leaf_def split: if_splits)

subsection \<open>Openings\<close>

lemma flip_low_pair:
  "i < n \<Longrightarrow> \<not> flip_low i < n \<Longrightarrow> even i \<and> i = n - 1"
  "even i \<Longrightarrow> flip_low i = i + 1" "odd i \<Longrightarrow> flip_low i = i - 1"
  by (auto simp: flip_low_def split: if_splits)

text \<open>Folding the siblings of a position climbs the reference levels.\<close>

lemma pair_level_climb:
  assumes "i < length xs"
  shows "pair_level E xs ! (i div 2) =
    (if flip_low i < length xs
     then if even i then pair_hash E (xs ! i) (xs ! flip_low i) else pair_hash E (xs ! flip_low i) (xs ! i)
     else xs ! i)"
proof -
  have "i div 2 < (length xs + 1) div 2" using assms by presburger
  then show ?thesis
    using assms flip_low_pair(1) [OF assms] by (cases "even i") (auto simp: pair_level_nth flip_low_def elim!: evenE oddE)
qed

lemma opening_fold_build:
  "i < length xs \<Longrightarrow>
     opening_fold E i (length xs) (xs ! i) (opening_loop E xs i @ tail) = Some (level_root E xs, tail)"
proof (induction E xs i rule: opening_loop.induct)
  case (1 E nodes position)
  show ?case
  proof (cases "1 < length nodes")
    case True
    have lt: "position div 2 < length (pair_level E nodes)" using "1.prems" by simp
    note IH = "1.IH" [OF True lt]
    show ?thesis
      using IH True "1.prems" pair_level_climb [OF "1.prems", of E]
      by (subst opening_loop.simps, subst opening_fold.simps, subst level_root.simps) (auto split: if_splits)
  next
    case False
    then have "position = 0" using "1.prems" by linarith
    then show ?thesis using False
      by (subst opening_loop.simps, subst opening_fold.simps, subst level_root.simps) simp
  qed
qed

lemma opening_loop_length: "length xs \<le> 2 ^ d \<Longrightarrow> length (opening_loop E xs i) \<le> d"
proof (induction d arbitrary: xs i)
  case 0
  then show ?case by (subst opening_loop.simps) simp
next
  case (Suc d)
  have "length (pair_level E xs) \<le> 2 ^ d" using Suc.prems by simp
  from Suc.IH [OF this, of "i div 2"] show ?case by (subst opening_loop.simps) auto
qed

text \<open>A folded path fixes its leaf unless two different pairs of the two computations collide.\<close>

fun level_pairs :: "hash list \<Rightarrow> (hash \<times> hash) set" where
  "level_pairs (a # b # rest) = insert (a, b) (level_pairs rest)"
| "level_pairs _ = {}"

lemma level_pairs_nth: "2 * j + 1 < length xs \<Longrightarrow> (xs ! (2 * j), xs ! (2 * j + 1)) \<in> level_pairs xs"
proof (induction xs arbitrary: j rule: level_pairs.induct)
  case (1 a b rest)
  then show ?case by (cases j) auto
qed auto

function tree_pairs :: "externals \<Rightarrow> hash list \<Rightarrow> (hash \<times> hash) set" where
  "tree_pairs E nodes =
     (if 1 < length nodes then level_pairs nodes \<union> tree_pairs E (pair_level E nodes) else {})"
  by pat_completeness auto
termination by (relation "measure (\<lambda>(E, xs). length xs)") auto

function fold_pairs :: "externals \<Rightarrow> nat \<Rightarrow> nat \<Rightarrow> hash \<Rightarrow> hash list \<Rightarrow> (hash \<times> hash) set" where
  "fold_pairs E position width h siblings =
     (if 1 < width
      then if flip_low position < width
           then (case siblings of
                   [] \<Rightarrow> {}
                 | sib # sibs \<Rightarrow>
                     insert (if even position then (h, sib) else (sib, h))
                       (fold_pairs E (position div 2) ((width + 1) div 2)
                         (if even position then pair_hash E h sib else pair_hash E sib h) sibs))
           else fold_pairs E (position div 2) ((width + 1) div 2) h siblings
      else {})"
  by pat_completeness auto
termination by (relation "measure (\<lambda>(E, p, w, h, s). w)") auto

declare tree_pairs.simps [simp del] fold_pairs.simps [simp del]

lemma pair_level_inject:
  "pair_level E xs = pair_level E ys \<Longrightarrow> length xs = length ys \<Longrightarrow>
     inj_on (\<lambda>(a, b). pair_hash E a b) (level_pairs xs \<union> level_pairs ys) \<Longrightarrow> xs = ys"
proof (induction E xs arbitrary: ys rule: pair_level.induct)
  case (3 E a b rest)
  obtain c d rest' where ys: "ys = c # d # rest'" using "3.prems"(2)
    by (cases ys; cases "tl ys") auto
  have "(a, b) = (c, d)"
    by (rule inj_onD [OF "3.prems"(3)]) (use "3.prems"(1) in \<open>auto simp: ys\<close>)
  moreover have "rest = rest'"
    by (rule "3.IH") (use "3.prems" in \<open>auto simp: ys intro: inj_on_subset\<close>)
  ultimately show ?case by (simp add: ys)
next
  case (2 E a)
  obtain y where "ys = [y]" using "2.prems"(2) by (cases ys) auto
  with "2.prems"(1) show ?case by simp
qed simp

lemma level_root_inject:
  "level_root E xs = level_root E ys \<Longrightarrow> length xs = length ys \<Longrightarrow> xs \<noteq> [] \<Longrightarrow>
     inj_on (\<lambda>(a, b). pair_hash E a b) (tree_pairs E xs \<union> tree_pairs E ys) \<Longrightarrow> xs = ys"
proof (induction E xs arbitrary: ys rule: level_root.induct)
  case (1 E nodes)
  show ?case
  proof (cases "1 < length nodes")
    case True
    have tp: "tree_pairs E zs = level_pairs zs \<union> tree_pairs E (pair_level E zs)" if "length zs = length nodes" for zs
      using that True by (subst tree_pairs.simps) simp
    have "inj_on (\<lambda>(a, b). pair_hash E a b) (level_pairs nodes \<union> level_pairs ys)"
      and "inj_on (\<lambda>(a, b). pair_hash E a b) (tree_pairs E (pair_level E nodes) \<union> tree_pairs E (pair_level E ys))"
      using "1.prems"(4) tp [of nodes] tp [of ys] "1.prems"(2) by (auto intro: inj_on_subset)
    moreover have "level_root E (pair_level E nodes) = level_root E (pair_level E ys)"
      using "1.prems"(1,2) True by (simp add: level_root.simps [of E nodes] level_root.simps [of E ys])
    moreover have "pair_level E nodes \<noteq> []" using True by (cases nodes; cases "tl nodes") auto
    ultimately have "pair_level E nodes = pair_level E ys" using "1.IH" [OF True] "1.prems"(2) by simp
    then show ?thesis using pair_level_inject "1.prems"(2)
        \<open>inj_on (\<lambda>(a, b). pair_hash E a b) (level_pairs nodes \<union> level_pairs ys)\<close> by blast
  next
    case False
    then obtain x y where "nodes = [x]" "ys = [y]" using "1.prems"(2,3) by (cases nodes; cases ys) auto
    then show ?thesis using "1.prems"(1) by (simp add: level_root.simps)
  qed
qed

lemma opening_fold_sound:
  "opening_fold E i (length xs) h sibs = Some (level_root E xs, tail) \<Longrightarrow> i < length xs \<Longrightarrow>
     inj_on (\<lambda>(a, b). pair_hash E a b) (fold_pairs E i (length xs) h sibs \<union> tree_pairs E xs) \<Longrightarrow> h = xs ! i"
proof (induction E xs i arbitrary: h sibs rule: opening_loop.induct)
  case (1 E nodes i)
  show ?case
  proof (cases "1 < length nodes")
    case True
    let ?ps = "pair_level E nodes" and ?w = "(length nodes + 1) div 2"
    have lt: "i div 2 < length ?ps" using "1.prems"(2) by simp
    note climb = pair_level_climb [OF "1.prems"(2), of E]
    have tp: "tree_pairs E nodes = level_pairs nodes \<union> tree_pairs E ?ps" using True by (subst tree_pairs.simps) simp
    have lr: "level_root E nodes = level_root E ?ps" using True by (subst level_root.simps) simp
    show ?thesis
    proof (cases "flip_low i < length nodes")
      case sib: True
      with "1.prems"(1) True obtain t ts where sibs: "sibs = t # ts"
        by (subst (asm) opening_fold.simps) (auto split: list.splits)
      let ?pr = "if even i then (h, t) else (t, h)"
      let ?tr = "if even i then (nodes ! i, nodes ! flip_low i) else (nodes ! flip_low i, nodes ! i)"
      let ?h = "if even i then pair_hash E h t else pair_hash E t h"
      have fo: "opening_fold E (i div 2) (length ?ps) ?h ts = Some (level_root E ?ps, tail)"
        using "1.prems"(1) True sib sibs lr by (subst (asm) opening_fold.simps) simp
      have fp: "fold_pairs E i (length nodes) h sibs = insert ?pr (fold_pairs E (i div 2) (length ?ps) ?h ts)"
        using True sib sibs by (subst fold_pairs.simps) simp
      have inj: "inj_on (\<lambda>(a, b). pair_hash E a b) (fold_pairs E (i div 2) (length ?ps) ?h ts \<union> tree_pairs E ?ps)"
        by (rule inj_on_subset [OF "1.prems"(3)]) (auto simp: fp tp)
      have "?h = ?ps ! (i div 2)" by (rule "1.IH" [OF True fo lt inj])
      then have eq: "(\<lambda>(a, b). pair_hash E a b) ?pr = (\<lambda>(a, b). pair_hash E a b) ?tr"
        using climb sib by (simp split: if_splits)
      have mem: "?tr \<in> level_pairs nodes"
        using level_pairs_nth [of "i div 2" nodes] "1.prems"(2) sib by (auto simp: flip_low_def elim!: evenE oddE)
      have "?pr = ?tr" by (rule inj_onD [OF "1.prems"(3) eq]) (auto simp: fp tp mem)
      then show ?thesis by (simp split: if_splits)
    next
      case False
      have fo: "opening_fold E (i div 2) (length ?ps) h sibs = Some (level_root E ?ps, tail)"
        using "1.prems"(1) True False lr by (subst (asm) opening_fold.simps) simp
      have inj: "inj_on (\<lambda>(a, b). pair_hash E a b) (fold_pairs E (i div 2) (length ?ps) h sibs \<union> tree_pairs E ?ps)"
        using "1.prems"(3) True False by (subst (asm) fold_pairs.simps) (auto simp: tp elim: inj_on_subset)
      show ?thesis using "1.IH" [OF True fo lt inj] climb False by simp
    qed
  next
    case False
    then have "i = 0" using "1.prems"(2) by linarith
    then show ?thesis using False "1.prems"(1)
      by (subst (asm) opening_fold.simps, subst (asm) level_root.simps) simp
  qed
qed

end
