(* ===== verification/Stf.thy ===== *)
theory Stf
  imports Governance Accountability Merkle
begin

text \<open>
  The state transition function (\<open>core/src/lib.rs\<close>): a block's mandatory phase, its transactions
  under the gas ceiling, fees of failed transactions, the proposer's credit, the public output,
  and transaction admission (\<open>validate_tx\<close>). The backend's trie root is the parameter \<open>root\<close>; the
  state is the map the backend presents, read and written directly.
\<close>

subsection \<open>Receipts\<close>

definition DOMAIN_RECEIPTS_ROOT :: bytes where
  "DOMAIN_RECEIPTS_ROOT = ascii ''NTRO/receipts'' @ [0, 0, 0]"

definition receipt_bytes :: "receipt \<Rightarrow> bytes" where
  "receipt_bytes r = le_bytes 4 (rc_status_code r) @ le_bytes 8 (rc_gas_used r) @ [rc_kind r]"

definition receipts_preimage :: "receipt list \<Rightarrow> bytes" where
  "receipts_preimage receipts =
     DOMAIN_RECEIPTS_ROOT @ le_bytes 8 (of_nat (length receipts) :: u64) @ concat (map receipt_bytes receipts)"

definition compute_receipts_root :: "externals \<Rightarrow> receipt list \<Rightarrow> hash" where
  "compute_receipts_root E receipts = blake3 E (receipts_preimage receipts)"

subsection \<open>Block facts and tally\<close>

record block_facts =
  bf_input :: stf_input
  bf_gas_price :: u128
  bf_min_validator_stake :: u128
  bf_governance :: block_context
  bf_backlog :: backlog

record tally =
  tl_applied :: u32
  tl_failed :: u32
  tl_gas_used :: u64
  tl_proposer_fee :: u128
  tl_receipts :: "receipt list"

record stf_public_output =
  so_accountability :: accountability_output
  so_chain_id :: u64
  so_block_height :: u64
  so_block_gas_limit :: u64
  so_gas_price :: u128
  so_proposer_address :: address
  so_participation :: hash
  so_transactions_root :: hash
  so_transaction_summary :: transaction_summary
  so_pre_state_root :: hash
  so_post_state_root :: hash
  so_applied :: u32
  so_failed :: u32
  so_validator_set_root :: hash
  so_gas_used :: u64
  so_receipts_root :: hash

subsection \<open>Transactions\<close>

fun apply_transaction :: "externals \<Rightarrow> block_facts \<Rightarrow> u128 \<Rightarrow> transaction \<Rightarrow> state \<Rightarrow> failure + state" where
  "apply_transaction E facts fee (Transfer tx) s =
     apply_transfer E s (si_chain_id (bf_input facts)) fee tx"
| "apply_transaction E facts fee (Stake tx) s =
     apply_stake E s (si_chain_id (bf_input facts)) (si_block_height (bf_input facts)) fee
       (bf_min_validator_stake facts) tx"
| "apply_transaction E facts fee (Unstake tx) s =
     apply_unstake E s (si_chain_id (bf_input facts)) (si_block_height (bf_input facts))
       (ea_unbonding_delay_blocks (si_evidence_anchor (bf_input facts))) fee (bf_min_validator_stake facts) tx"
| "apply_transaction E facts fee (SubmitEvidence _) s = Inr s"
| "apply_transaction E facts fee (Deposit tx) s =
     apply_deposit E s (si_chain_id (bf_input facts)) (si_block_height (bf_input facts)) fee
       (bf_min_validator_stake facts) tx"
| "apply_transaction E facts fee (VoluntaryExit tx) s =
     apply_voluntary_exit E s (si_chain_id (bf_input facts)) (si_block_height (bf_input facts))
       (ea_unbonding_delay_blocks (si_evidence_anchor (bf_input facts))) fee tx"
| "apply_transaction E facts fee (Withdraw tx) s =
     apply_withdraw E s (si_chain_id (bf_input facts)) (si_block_height (bf_input facts)) (bf_backlog facts) fee tx"
| "apply_transaction E facts fee (RegisterValidator tx) s =
     apply_register_validator E s (si_chain_id (bf_input facts)) (si_block_height (bf_input facts)) fee
       (bf_min_validator_stake facts) tx"
| "apply_transaction E facts fee (ProposeUpgrade tx) s =
     apply_propose E s (si_chain_id (bf_input facts)) (bf_governance facts) fee tx"
| "apply_transaction E facts fee (VoteUpgrade tx) s =
     apply_vote E s (si_chain_id (bf_input facts)) (bf_governance facts) fee tx"
| "apply_transaction E facts fee (ProposePolicy tx) s =
     apply_propose_policy E s (si_chain_id (bf_input facts)) (bf_governance facts) fee tx"

definition charge_failure :: "externals \<Rightarrow> state \<Rightarrow> address \<Rightarrow> u128 \<Rightarrow> u128 \<times> state" where
  "charge_failure E s payr fee =
     (let account = load_account E s payr;
          chargd = min fee (balance account)
      in (chargd, store_account E s payr
            \<lparr>nonce = saturating_add (nonce account) 1, balance = balance account - chargd\<rparr>))"

definition credit_proposer :: "externals \<Rightarrow> state \<Rightarrow> address \<Rightarrow> u128 \<Rightarrow> state" where
  "credit_proposer E s proposer fee =
     (if fee = 0 then s
      else
        let account = load_account E s proposer
        in store_account E s proposer (account\<lparr>balance := saturating_add (balance account) fee\<rparr>))"

definition tx_fee :: "block_facts \<Rightarrow> transaction \<Rightarrow> u128" where
  "tx_fee facts tx = saturating_mul (ucast (tx_gas tx)) (bf_gas_price facts)"

definition execute_one ::
  "externals \<Rightarrow> block_facts \<Rightarrow> transaction \<Rightarrow> tally \<Rightarrow> state \<Rightarrow> tally \<times> state" where
  "execute_one E facts tx t s =
     (let kind = tx_kind_code tx;
          cost = tx_gas tx;
          fee = tx_fee facts tx
      in if saturating_add (tl_gas_used t) cost > si_block_gas_limit (bf_input facts)
         then (t\<lparr>tl_failed := saturating_add (tl_failed t) 1,
                 tl_receipts := tl_receipts t @
                   [\<lparr>rc_status_code = receipt_status_as_u32 OutOfBlockGas, rc_gas_used = 0, rc_kind = kind\<rparr>]\<rparr>, s)
         else
           (case apply_transaction E facts fee tx s of
              Inr s' \<Rightarrow>
                (t\<lparr>tl_applied := saturating_add (tl_applied t) 1,
                   tl_gas_used := saturating_add (tl_gas_used t) cost,
                   tl_proposer_fee := (if tx_charges_fee tx then saturating_add (tl_proposer_fee t) fee
                                       else tl_proposer_fee t),
                   tl_receipts := tl_receipts t @
                     [\<lparr>rc_status_code = receipt_status_as_u32 Success, rc_gas_used = cost, rc_kind = kind\<rparr>]\<rparr>, s')
            | Inl f \<Rightarrow>
                let (chargd, s') = (case payer f of
                        Some p \<Rightarrow> if tx_charges_fee tx then charge_failure E s p fee else (0, s)
                      | None \<Rightarrow> (0, s))
                in (t\<lparr>tl_failed := saturating_add (tl_failed t) 1,
                      tl_gas_used := saturating_add (tl_gas_used t) cost,
                      tl_proposer_fee := saturating_add (tl_proposer_fee t) chargd,
                      tl_receipts := tl_receipts t @
                        [\<lparr>rc_status_code = receipt_status_as_u32 (status f), rc_gas_used = cost, rc_kind = kind\<rparr>]\<rparr>, s')))"

fun execute_transactions ::
  "externals \<Rightarrow> block_facts \<Rightarrow> transaction list \<Rightarrow> tally \<Rightarrow> state \<Rightarrow> tally \<times> state" where
  "execute_transactions E facts [] t s = (t, s)"
| "execute_transactions E facts (tx # txs) t s =
     (case execute_one E facts tx t s of (t', s') \<Rightarrow> execute_transactions E facts txs t' s')"

subsection \<open>Blocks\<close>

definition block_facts_of :: "stf_input \<Rightarrow> runtime_policy \<Rightarrow> mandatory \<Rightarrow> block_facts" where
  "block_facts_of input policy m =
     \<lparr>bf_input = input, bf_gas_price = gas_price policy, bf_min_validator_stake = min_validator_stake policy,
      bf_governance = \<lparr>bc_chunk = ea_chunk_id (si_evidence_anchor input), bc_height = si_block_height input,
        bc_anchor = si_evidence_anchor input, bc_pending_sanctions = bl_count (mn_backlog m)\<rparr>,
      bf_backlog = mn_backlog m\<rparr>"

definition initial_tally :: "mandatory \<Rightarrow> tally" where
  "initial_tally m = \<lparr>tl_applied = 0, tl_failed = 0, tl_gas_used = mn_gas m, tl_proposer_fee = 0,
     tl_receipts = mn_receipts m\<rparr>"

definition apply_block_validated ::
  "externals \<Rightarrow> (state \<Rightarrow> hash) \<Rightarrow> stf_input \<Rightarrow> state \<Rightarrow> string + stf_public_output \<times> state" where
  "apply_block_validated E root input s =
     (let policy = load_runtime_policy E s;
          (participation, s1) = apply_participation E s (si_participation input)
      in
      res_bind (accountability_apply E input s1 policy) (\<lambda>(m, s2).
      let s3 = expire E s2 (ea_chunk_id (si_evidence_anchor input)) in
      res_bind (transaction_commitments E (si_transactions input)) (\<lambda>(transactions_root, summary).
      let (t, s4) = execute_transactions E (block_facts_of input policy m) (si_transactions input)
            (initial_tally m) s3;
          s5 = credit_proposer E s4 (si_proposer_address input) (tl_proposer_fee t)
      in Inr (\<lparr>so_accountability = mn_output m, so_chain_id = si_chain_id input,
           so_block_height = si_block_height input, so_block_gas_limit = si_block_gas_limit input,
           so_gas_price = gas_price policy, so_proposer_address = si_proposer_address input,
           so_participation = participation, so_transactions_root = transactions_root,
           so_transaction_summary = summary, so_pre_state_root = root s, so_post_state_root = root s5,
           so_applied = tl_applied t, so_failed = tl_failed t,
           so_validator_set_root = candidates_root E (load_consensus_candidates E s5),
           so_gas_used = tl_gas_used t, so_receipts_root = compute_receipts_root E (tl_receipts t)\<rparr>, s5))))"

definition apply_block ::
  "externals \<Rightarrow> (state \<Rightarrow> hash) \<Rightarrow> stf_input \<Rightarrow> state \<Rightarrow> string + stf_public_output \<times> state" where
  "apply_block E root input s =
     res_bind (validate_input E input) (\<lambda>checked. apply_block_validated E root checked s)"

subsection \<open>Admission\<close>

datatype tx_validation_code =
    TxValid
  | TxMalformed
  | TxBadSignature
  | TxNonceMismatch
  | TxInsufficientBalance
  | TxUnauthorized
  | TxUnknownType
  | TxStateReadFailed

record tx_validity =
  tv_code :: tx_validation_code
  tv_priority :: u64

definition tx_valid :: "u64 \<Rightarrow> tx_validity" where
  "tx_valid priority = \<lparr>tv_code = TxValid, tv_priority = priority\<rparr>"

definition tx_invalid :: "tx_validation_code \<Rightarrow> tx_validity" where
  "tx_invalid code = \<lparr>tv_code = code, tv_priority = 0\<rparr>"

fun rejection :: "receipt_status \<Rightarrow> tx_validation_code" where
  "rejection BadSignature = TxBadSignature"
| "rejection NonceMismatch = TxNonceMismatch"
| "rejection InsufficientBalance = TxInsufficientBalance"
| "rejection Overflow = TxInsufficientBalance"
| "rejection Success = TxUnauthorized"
| "rejection OutOfBlockGas = TxUnauthorized"
| "rejection Unauthorized = TxUnauthorized"
| "rejection UpgradeConflict = TxUnauthorized"
| "rejection InvalidUpgrade = TxUnauthorized"
| "rejection AlreadyVoted = TxUnauthorized"

definition admission :: "failure + 'a \<Rightarrow> tx_validity" where
  "admission checked = (case checked of Inl f \<Rightarrow> tx_invalid (rejection (status f)) | Inr _ \<Rightarrow> tx_valid 0)"

definition validate_decoded :: "externals \<Rightarrow> state \<Rightarrow> u64 \<Rightarrow> u128 \<Rightarrow> u128 \<Rightarrow> transaction \<Rightarrow> tx_validity" where
  "validate_decoded E s chain_id fee min_stake tx =
     (case tx of
        Transfer t \<Rightarrow> admission (check_transfer E s chain_id fee t)
      | Stake t \<Rightarrow> admission (check_stake E s chain_id fee min_stake t)
      | Unstake t \<Rightarrow> admission (check_unstake E s chain_id fee min_stake t)
      | Deposit t \<Rightarrow> admission (check_deposit E s chain_id fee min_stake t)
      | VoluntaryExit t \<Rightarrow> admission (check_voluntary_exit E s chain_id fee t)
      | Withdraw t \<Rightarrow> admission (admit_withdraw E s chain_id fee t)
      | RegisterValidator t \<Rightarrow> admission (check_register_validator E s chain_id fee min_stake t)
      | SubmitEvidence _ \<Rightarrow> tx_invalid TxUnauthorized
      | ProposeUpgrade t \<Rightarrow> admission (check_propose E s chain_id None fee t)
      | VoteUpgrade t \<Rightarrow> admission (check_vote E s chain_id None fee t)
      | ProposePolicy t \<Rightarrow> admission (check_propose_policy E s chain_id None fee t))"

definition validate_tx :: "externals \<Rightarrow> bytes \<Rightarrow> state \<Rightarrow> u64 \<Rightarrow> u64 \<Rightarrow> tx_validity" where
  "validate_tx E tx_bytes s chain_id block_gas_limit =
     (case dec (transaction_codec E) tx_bytes of
        None \<Rightarrow> tx_invalid TxMalformed
      | Some tx \<Rightarrow>
          let cost = tx_gas tx
          in if cost > block_gas_limit then tx_invalid TxInsufficientBalance
             else
               let policy = load_runtime_policy E s;
                   fee = (if tx_charges_fee tx then saturating_mul (ucast cost) (gas_price policy) else 0)
               in validate_decoded E s chain_id fee (min_validator_stake policy) tx)"

end
