(* ===== verification/Accountability_Laws.thy ===== *)
theory Accountability_Laws
  imports Accountability
begin

text \<open>
  Laws of the mandatory phase: what an execution moves and burns, what the settlement totals
  record, which markers a block sets and sweeps, and that the phase keeps the staking mirror, the
  canonical form of its own records and the conserved supply (spendable, bonded and queued funds
  plus everything ever burned).
\<close>

subsection \<open>Totals\<close>

definition burned_total :: "settlement_totals \<Rightarrow> nat" where
  "burned_total t = unat (sc_value (kt_burned (tot_slash t))) + unat (sc_value (kt_burned (tot_inactivity t)))"

lemma counter_add_exact:
  "unat (sc_value c) + unat x < 2 ^ 128 \<Longrightarrow>
     unat (sc_value (counter_add c x)) = unat (sc_value c) + unat x \<and> sc_overflowed (counter_add c x) = sc_overflowed c"
  by (auto simp: counter_add_def checked_add_def unat_add_exact)

lemma burned_total_admitted [simp]: "burned_total (totals_admitted k t) = burned_total t"
  by (cases k) (simp_all add: totals_admitted_def kind_mut_def burned_total_def)

lemma burned_total_admissions [simp]:
  "burned_total (foldl (\<lambda>t sn. totals_admitted (sn_kind sn) t) t sns) = burned_total t"
  by (induction sns arbitrary: t) simp_all

lemma totals_executed_burned:
  assumes "totals_executed k d r t = Inr t'" and "burned_total t + (unat d - unat r) < 2 ^ 128"
  shows "r \<le> d" and "burned_total t' = burned_total t + (unat d - unat r)"
proof -
  from assms(1) obtain b where b: "checked_sub d r = Some b" by (auto simp: totals_executed_def split: option.splits)
  then have ub: "unat b = unat d - unat r" and le: "r \<le> d"
    by (auto simp: checked_sub_def unat_sub_exact split: if_splits)
  from le show "r \<le> d" .
  have "unat (sc_value (kt_burned (kind_totals k t))) + unat b < 2 ^ 128"
    using assms(2) ub by (cases k) (simp_all add: burned_total_def kind_totals_def)
  then show "burned_total t' = burned_total t + (unat d - unat r)"
    using assms(1) b ub counter_add_exact [of "kt_burned (kind_totals k t)" b]
    by (cases k) (auto simp: totals_executed_def kind_mut_def burned_total_def kind_totals_def)
qed

text \<open>The six counters of a kind after an execution.\<close>

lemma totals_executed_counters:
  assumes "totals_executed k d r t = Inr t'"
  shows "kind_totals k t' = (kind_totals k t)
      \<lparr>kt_executed := counter_add (kt_executed (kind_totals k t)) 1,
       kt_zero_deductions := counter_add (kt_zero_deductions (kind_totals k t)) (if d = 0 then 1 else 0),
       kt_deducted := counter_add (kt_deducted (kind_totals k t)) d,
       kt_rewarded := counter_add (kt_rewarded (kind_totals k t)) r,
       kt_burned := counter_add (kt_burned (kind_totals k t)) (d - r)\<rparr>"
    and "k' \<noteq> k \<Longrightarrow> kind_totals k' t' = kind_totals k' t"
  using assms
  by (cases k; cases k'; auto simp: totals_executed_def kind_totals_def kind_mut_def checked_sub_def
      split: option.splits if_splits)+

subsection \<open>Markers as keys\<close>

definition marker_of :: "sanction \<Rightarrow> key" where
  "marker_of sn = (case sn_kind sn of
     Slash \<Rightarrow> KSlashed (cv_pubkey (sn_offender sn)) | Inactivity \<Rightarrow> KOffence (sn_offence_id sn))"

lemma sanction_marker_key_eq [slot_ops]: "sanction_marker_key sn = key_bytes (marker_of sn)"
  by (simp add: sanction_marker_key_def replay_marker_def marker_of_def split: sanction_kind.splits)

definition claim_sanction :: "evidence_submission \<Rightarrow> sanction" where
  "claim_sanction sub = \<lparr>sn_offence_id = es_offence_id (sub_statement sub),
     sn_offender = es_offender (sub_statement sub), sn_kind = es_kind (sub_statement sub)\<rparr>"

lemma marker_key_eq [slot_ops]: "marker_key (sub_statement sub) = key_bytes (marker_of (claim_sanction sub))"
  by (simp add: marker_key_def replay_marker_def marker_of_def claim_sanction_def split: sanction_kind.splits)

text \<open>Keys the mandatory phase writes.\<close>

fun settlement_key :: "key \<Rightarrow> bool" where
  "settlement_key KQueue = True"
| "settlement_key KTotals = True"
| "settlement_key (KOffence _) = True"
| "settlement_key (KSlashed _) = True"
| "settlement_key (KExpiry _) = True"
| "settlement_key (KAccount _) = True"
| "settlement_key (KValidator _) = True"
| "settlement_key (KWithdrawal _) = True"
| "settlement_key KValidatorSet = True"
| "settlement_key KCandidates = True"
| "settlement_key _ = False"

fun fund_key :: "key \<Rightarrow> bool" where
  "fund_key (KAccount _) = True"
| "fund_key (KValidator _) = True"
| "fund_key (KWithdrawal _) = True"
| "fund_key KValidatorSet = True"
| "fund_key KCandidates = True"
| "fund_key _ = False"

lemma fund_settlement_key: "fund_key k \<Longrightarrow> settlement_key k"
  by (cases k) simp_all

lemma marker_of_not [simp]:
  "marker_of sn \<noteq> KAccount a" "marker_of sn \<noteq> KValidator a" "marker_of sn \<noteq> KWithdrawal a"
  "marker_of sn \<noteq> KQueue" "marker_of sn \<noteq> KTotals" "marker_of sn \<noteq> KExpiry h" "marker_of sn \<noteq> KValidatorSet"
  "marker_of sn \<noteq> KCandidates" "marker_of sn \<noteq> KRegistrations" "marker_of sn \<noteq> KRegistration a"
  "marker_of sn \<noteq> KPolicy" "marker_of sn \<noteq> KProposal" "marker_of sn \<noteq> KAbsent c" "settlement_key (marker_of sn)" "\<not> fund_key (marker_of sn)"
  by (simp_all add: marker_of_def split: sanction_kind.splits)

lemmas marker_of_not_sym [simp] = marker_of_not(1-13) [THEN not_sym]

subsection \<open>Execution\<close>

lemma unat_ucast_bps: "unat (ucast x :: u128) = unat x" for x :: u16
proof -
  have "unat x < 2 ^ 16" using unat_lt [of x] by simp
  then have "unat x < 2 ^ 128" by (rule less_le_trans) simp
  then show ?thesis by (simp add: unsigned_ucast_eq take_bit_nat_eq_self)
qed

context borsh
begin

lemma credit_reporter_effect:
  assumes run: "credit_reporter E s r d bps = Inr (c, s')"
  shows "load_account E s' = (load_account E s)
      (r := (load_account E s r)\<lparr>balance := balance (load_account E s r) + c\<rparr>)"
    and "unat (balance (load_account E s r)) + unat c < 2 ^ 128"
    and "unat c \<le> unat d * unat bps div 10000" and "c \<le> d"
    and "unat (balance (load_account E s r)) + unat d < 2 ^ 128 \<Longrightarrow> unat c = unat d * unat bps div 10000"
    and "frame {KAccount r} s s'"
proof -
  let ?b = "balance (load_account E s r)"
  have bps: "unat bps \<le> 10000" using run
    by (auto simp: credit_reporter_def res_iffs BASIS_POINTS_def word_le_nat_alt)
  have rw: "unat (mul_div_floor d (ucast bps) (ucast BASIS_POINTS)) = unat d * unat bps div 10000"
    using unat_mul_div_floor [of "ucast BASIS_POINTS" "ucast bps" d] bps
    by (simp add: BASIS_POINTS_def unat_ucast_bps)
  have c: "c = min (mul_div_floor d (ucast bps) (ucast BASIS_POINTS)) (- 1 - ?b)"
    and s': "s' = s \<and> c = 0 \<or> s' = store_account E s r ((load_account E s r)\<lparr>balance := ?b + c\<rparr>)"
    using run by (auto simp: credit_reporter_def res_iffs Let_def split: if_splits)
  have room: "unat (- 1 - ?b) = 2 ^ 128 - 1 - unat ?b"
    by (subst unat_sub_exact) (simp_all add: unat_max_word)
  have uc: "unat c = min (unat d * unat bps div 10000) (2 ^ 128 - 1 - unat ?b)"
    by (simp only: c unat_min rw room)
  show "load_account E s' = (load_account E s)(r := (load_account E s r)\<lparr>balance := ?b + c\<rparr>)"
    using s' by (intro ext, elim disjE conjE) (auto simp: slot_ops)
  show "unat ?b + unat c < 2 ^ 128" using uc unat_lt [of ?b] by (auto simp: min_def)
  show le: "unat c \<le> unat d * unat bps div 10000" using uc by simp
  have part: "unat d * unat bps div 10000 \<le> unat d"
  proof -
    have "unat d * unat bps div 10000 \<le> unat d * 10000 div 10000"
      using bps by (intro div_le_mono mult_le_mono2)
    then show ?thesis by simp
  qed
  then show "c \<le> d" using le by (simp add: word_le_nat_alt)
  show "unat c = unat d * unat bps div 10000" if "unat ?b + unat d < 2 ^ 128"
    using uc part that by (auto simp: min_def)
  show "frame {KAccount r} s s'" using s' by (auto intro!: frame_stores)
qed

lemma credit_reporter_runs: "bps \<le> BASIS_POINTS \<Longrightarrow> \<exists>c s'. credit_reporter E s r d bps = Inr (c, s')"
  by (simp add: credit_reporter_def Let_def)

lemma credit_reporter_funds:
  assumes run: "credit_reporter E s r d bps = Inr (c, s')"
  shows "total_funds E s' = total_funds E s + unat c"
proof -
  note eff = credit_reporter_effect [OF run]
  let ?b = "balance (load_account E s r)"
  have b: "unat (?b + c) = unat ?b + unat c" using eff(2) by (simp add: unat_add_exact)
  have lv: "load_validator E s' = load_validator E s" and lq: "load_withdrawal_queue E s' = load_withdrawal_queue E s"
    by (auto simp: load_validator_fun fun_eq_iff frame_loads [OF eff(6)])
  show ?thesis
    using total_balance_upd [OF eff(1)] total_same(2) [OF lv] total_same(3) [OF lq] b
    by (simp add: total_funds_def)
qed

text \<open>
  One execution: \<open>d\<close> is deducted from the offender, \<open>r\<close> of it is credited to the reporter, the
  rest leaves the supply. The totals record exactly these amounts.
\<close>

lemma execute_pending_run:
  assumes run: "execute_pending E s item t = Inr (st, s', t')"
  obtains d r s1 s2 where
    "apply_deduction E s (cv_withdrawal_credentials (sn_offender (pn_sanction item))) (pn_amount item) = Inr (d, s1)
       \<and> st = Success
     \<or> apply_deduction E s (cv_withdrawal_credentials (sn_offender (pn_sanction item))) (pn_amount item)
         = Inl InsufficientBalance \<and> st = InsufficientBalance \<and> d = 0 \<and> s1 = s"
    "r = 0 \<and> s2 = s1 \<and> (st \<noteq> Success \<or> sn_kind (pn_sanction item) = Inactivity \<or> pn_reporter item = None)
     \<or> (\<exists>p. st = Success \<and> sn_kind (pn_sanction item) = Slash \<and> pn_reporter item = Some p
          \<and> credit_reporter E s1 p d (pn_reporter_reward_bps item) = Inr (r, s2))"
    "totals_executed (sn_kind (pn_sanction item)) d r t = Inr t'"
    "s' = s2(key_bytes (marker_of (pn_sanction item)) \<mapsto> [1])"
  using run
  by (auto simp: execute_pending_def Let_def res_iffs sanction_marker_key_eq
      split: sum.splits receipt_status.splits sanction_kind.splits option.splits)

lemma execute_pending_effect:
  assumes run: "execute_pending E s item t = Inr (st, s', t')"
    and bound: "total_funds E s + burned_total t < 2 ^ 128"
  shows "total_funds E s' + burned_total t' = total_funds E s + burned_total t"
    and "staking_inv E s \<Longrightarrow> staking_inv E s'"
    and "frame ({k. fund_key k} \<union> {marker_of (pn_sanction item)}) s s'"
    and "s' (key_bytes (marker_of (pn_sanction item))) = Some [1]"
proof -
  let ?a = "cv_withdrawal_credentials (sn_offender (pn_sanction item))" and ?m = "marker_of (pn_sanction item)"
  from run obtain d r s1 s2 where
    ded: "apply_deduction E s ?a (pn_amount item) = Inr (d, s1) \<or> d = 0 \<and> s1 = s"
    and rew: "r = 0 \<and> s2 = s1 \<or> (\<exists>p. credit_reporter E s1 p d (pn_reporter_reward_bps item) = Inr (r, s2))"
    and tot: "totals_executed (sn_kind (pn_sanction item)) d r t = Inr t'"
    and s': "s' = s2(key_bytes ?m \<mapsto> [1])"
    by (rule execute_pending_run) blast
  have slashable: "unat (stake (load_validator E s ?a)) + queue_sum (load_withdrawal_queue E s ?a) < 2 ^ 128"
    using account_le_total(2) [of E s ?a] account_le_total(3) [of E s ?a] bound by (simp add: total_funds_def)
  have f1: "total_funds E s1 + unat d = total_funds E s \<and> frame {k. fund_key k} s s1
      \<and> (staking_inv E s \<longrightarrow> staking_inv E s1)"
    using ded
  proof
    assume run1: "apply_deduction E s ?a (pn_amount item) = Inr (d, s1)"
    note eff = deduction_effect(5,6) [OF run1 slashable]
    show ?thesis using eff(1) frame_mono [OF eff(2), of "{k. fund_key k}"] apply_deduction_inv [OF _ run1] by auto
  qed simp
  have f2: "total_funds E s2 = total_funds E s1 + unat r \<and> frame {k. fund_key k} s1 s2 \<and> r \<le> d
      \<and> (staking_inv E s1 \<longrightarrow> staking_inv E s2)"
    using rew
  proof
    assume "\<exists>p. credit_reporter E s1 p d (pn_reporter_reward_bps item) = Inr (r, s2)"
    then obtain p where run2: "credit_reporter E s1 p d (pn_reporter_reward_bps item) = Inr (r, s2)" ..
    note frm = credit_reporter_effect(6) [OF run2]
    show ?thesis
      using credit_reporter_funds [OF run2] credit_reporter_effect(4) [OF run2]
        frame_mono [OF frm, of "{k. fund_key k}"] staking_inv_frame [OF frm] by simp
  qed simp
  have f3: "total_funds E s' = total_funds E s2" "staking_inv E s' = staking_inv E s2"
    by (simp_all add: s' total_funds_def total_balance_def total_bonded_def total_queued_def slot_ops
        staking_inv_def indexes_sorted_def records_ok_def mirror_at_def)
  have "burned_total t + (unat d - unat r) < 2 ^ 128" using conjunct1 [OF f1] bound by linarith
  from totals_executed_burned(2) [OF tot this]
  show "total_funds E s' + burned_total t' = total_funds E s + burned_total t"
    using f1 f2 f3(1) by (simp add: word_le_nat_alt)
  show "staking_inv E s'" if "staking_inv E s" using that f1 f2 f3(2) by simp
  have "frame ({k. fund_key k} \<union> {k. fund_key k}) s s2" using f1 f2 by (intro frame_trans) auto
  then show "frame ({k. fund_key k} \<union> {?m}) s s'" unfolding s' by (auto intro!: frame_upd elim: frame_mono)
  show "s' (key_bytes ?m) = Some [1]" by (simp add: s')
qed

lemma execute_pending_runs:
  assumes "pn_reporter_reward_bps item \<le> BASIS_POINTS"
  shows "\<exists>st s' t'. execute_pending E s item t = Inr (st, s', t')"
proof -
  let ?a = "cv_withdrawal_credentials (sn_offender (pn_sanction item))"
  have tot: "\<exists>t'. totals_executed k d r t = Inr t'" if "r \<le> d" for k d r
    using that by (simp add: totals_executed_def checked_sub_def)
  show ?thesis
  proof (cases "apply_deduction E s ?a (pn_amount item)")
    case (Inl e)
    then have "e = InsufficientBalance" using deduction_error by simp
    then show ?thesis
      using Inl tot [of 0 0 "sn_kind (pn_sanction item)"] by (auto simp: execute_pending_def Let_def)
  next
    case (Inr x)
    obtain d s1 where x: "x = (d, s1)" by (cases x)
    show ?thesis
    proof (cases "\<exists>p. sn_kind (pn_sanction item) = Slash \<and> pn_reporter item = Some p")
      case True
      then obtain p where p: "sn_kind (pn_sanction item) = Slash" "pn_reporter item = Some p" by blast
      obtain c s2 where c: "credit_reporter E s1 p d (pn_reporter_reward_bps item) = Inr (c, s2)"
        using credit_reporter_runs [OF assms] by blast
      show ?thesis using Inr x p c tot [OF credit_reporter_effect(4) [OF c], of Slash]
        by (auto simp: execute_pending_def Let_def)
    next
      case False
      then show ?thesis using Inr x tot [of 0 d Slash] tot [of 0 d Inactivity]
        by (cases "sn_kind (pn_sanction item)"; cases "pn_reporter item") (auto simp: execute_pending_def Let_def)
    qed
  qed
qed

lemma execute_loop_effect:
  assumes "execute_loop E items s t = Inr (rs, s', t')"
    and "total_funds E s + burned_total t < 2 ^ 128"
  shows "total_funds E s' + burned_total t' = total_funds E s + burned_total t
    \<and> (staking_inv E s \<longrightarrow> staking_inv E s')
    \<and> frame ({k. fund_key k} \<union> (\<lambda>i. marker_of (pn_sanction i)) ` set items) s s'
    \<and> (\<forall>i\<in>set items. s' (key_bytes (marker_of (pn_sanction i))) = Some [1])
    \<and> length rs = length items \<and> (\<forall>r\<in>set rs. rc_gas_used r = GAS_SANCTION \<and> rc_kind r = SANCTION_RECEIPT_KIND)"
  using assms
proof (induction items arbitrary: s t rs)
  case (Cons i items)
  let ?M = "(\<lambda>i. marker_of (pn_sanction i)) ` set items"
  from Cons.prems(1) obtain st s1 t1 rs1 where
    one: "execute_pending E s i t = Inr (st, s1, t1)"
    and rest: "execute_loop E items s1 t1 = Inr (rs1, s', t')"
    and rs: "rs = \<lparr>rc_status_code = receipt_status_as_u32 st, rc_gas_used = GAS_SANCTION,
      rc_kind = SANCTION_RECEIPT_KIND\<rparr> # rs1"
    by (auto simp: res_iffs)
  note e = execute_pending_effect [OF one Cons.prems(2)]
  have IH: "total_funds E s' + burned_total t' = total_funds E s1 + burned_total t1"
    "staking_inv E s1 \<longrightarrow> staking_inv E s'" "frame ({k. fund_key k} \<union> ?M) s1 s'"
    "\<forall>i\<in>set items. s' (key_bytes (marker_of (pn_sanction i))) = Some [1]"
    "length rs1 = length items" "\<forall>r\<in>set rs1. rc_gas_used r = GAS_SANCTION \<and> rc_kind r = SANCTION_RECEIPT_KIND"
    using Cons.IH [OF rest] e(1) Cons.prems(2) by simp_all
  have frm: "frame ({k. fund_key k} \<union> insert (marker_of (pn_sanction i)) ?M) s s'"
    using frame_trans [OF e(3) IH(3)] by (rule frame_mono) auto
  have mark: "s' (key_bytes (marker_of (pn_sanction i))) = Some [1]"
  proof (cases "marker_of (pn_sanction i) \<in> ?M")
    case True
    then show ?thesis using IH(4) by auto
  next
    case False
    then show ?thesis using frame_key [OF IH(3), of "marker_of (pn_sanction i)"] e(4) by simp
  qed
  show ?case using IH e(1,2) frm mark rs by simp
qed simp

lemma execute_loop_runs:
  assumes "\<forall>i\<in>set items. pn_reporter_reward_bps i \<le> BASIS_POINTS"
  shows "\<exists>rs s' t'. execute_loop E items s t = Inr (rs, s', t')"
  using assms
proof (induction items arbitrary: s t)
  case (Cons i items)
  then obtain st s1 t1 where "execute_pending E s i t = Inr (st, s1, t1)"
    using execute_pending_runs [of i s t] by auto
  moreover obtain rs s' t' where "execute_loop E items s1 t1 = Inr (rs, s', t')" using Cons by fastforce
  ultimately show ?case by simp
qed simp

end

subsection \<open>Canonical records\<close>

text \<open>
  The records the mandatory phase decodes with \<open>read_canonical\<close> decode, an expiry bucket lists
  liveness markers only, and every queued reward share is at most the whole.
\<close>

definition buckets_ok :: "externals \<Rightarrow> state \<Rightarrow> bool" where
  "buckets_ok E s \<longleftrightarrow> (\<forall>h b. s (key_bytes (KExpiry h)) = Some b \<longrightarrow>
     (\<exists>ks. dec (marker_keys_codec E) b = Some ks \<and> set ks \<subseteq> key_bytes ` range KOffence))"

definition queue_ok :: "externals \<Rightarrow> state \<Rightarrow> bool" where
  "queue_ok E s \<longleftrightarrow> (\<forall>b. s (key_bytes KQueue) = Some b \<longrightarrow>
     (\<exists>q. dec (sanction_queue_codec E) b = Some q \<and> (\<forall>i\<in>set q. pn_reporter_reward_bps i \<le> BASIS_POINTS)))"

definition totals_ok :: "externals \<Rightarrow> state \<Rightarrow> bool" where
  "totals_ok E s \<longleftrightarrow> (\<forall>b. s (key_bytes KTotals) = Some b \<longrightarrow> dec (totals_codec E) b \<noteq> None)"

definition absences_ok :: "externals \<Rightarrow> state \<Rightarrow> bool" where
  "absences_ok E s \<longleftrightarrow> (\<forall>c b. s (key_bytes (KAbsent c)) = Some b \<longrightarrow> dec (addresses_codec E) b \<noteq> None)"

definition mandatory_inv :: "externals \<Rightarrow> state \<Rightarrow> bool" where
  "mandatory_inv E s \<longleftrightarrow> buckets_ok E s \<and> queue_ok E s \<and> totals_ok E s \<and> absences_ok E s"

definition queue_of :: "externals \<Rightarrow> state \<Rightarrow> pending_sanction list" where
  "queue_of E s = unwrap_or (read_record (sanction_queue_codec E) s QUEUE_KEY) []"

definition totals_of :: "externals \<Rightarrow> state \<Rightarrow> settlement_totals" where
  "totals_of E s = unwrap_or (read_record (totals_codec E) s SETTLEMENT_TOTALS_KEY) default_totals"

definition coin_supply :: "externals \<Rightarrow> state \<Rightarrow> nat" where
  "coin_supply E s = total_funds E s + burned_total (totals_of E s)"

lemma queue_upd [slot_ops]:
  "queue_of E (s(key_bytes k := v)) =
     (if k = KQueue then unwrap_or (Option.bind v (dec (sanction_queue_codec E))) [] else queue_of E s)"
  "totals_of E (s(key_bytes k := v)) =
     (if k = KTotals then unwrap_or (Option.bind v (dec (totals_codec E))) default_totals else totals_of E s)"
  by (simp_all add: queue_of_def totals_of_def read_record_upd)

lemma frame_queue_loads:
  assumes "frame W s s'"
  shows "KQueue \<notin> W \<Longrightarrow> queue_of E s' = queue_of E s"
    and "KTotals \<notin> W \<Longrightarrow> totals_of E s' = totals_of E s"
  using frame_key [OF assms] by (simp_all add: queue_of_def totals_of_def read_record_def)

lemma mandatory_inv_frame:
  assumes frm: "frame W s s'"
    and W: "KQueue \<notin> W" "KTotals \<notin> W" "\<And>h. KExpiry h \<notin> W" "\<And>c. KAbsent c \<notin> W"
  shows "mandatory_inv E s' \<longleftrightarrow> mandatory_inv E s"
  by (simp only: mandatory_inv_def buckets_ok_def queue_ok_def totals_ok_def absences_ok_def
      frame_key [OF frm W(1)] frame_key [OF frm W(2)] frame_key [OF frm W(3)] frame_key [OF frm W(4)])

lemma frame_funds:
  assumes frm: "frame W s s'"
    and W: "\<And>a. KAccount a \<notin> W" "\<And>a. KValidator a \<notin> W" "\<And>a. KWithdrawal a \<notin> W"
  shows "total_funds E s' = total_funds E s"
  by (simp only: total_funds_def total_balance_def total_bonded_def total_queued_def load_validator_def
      frame_loads(1) [OF frm W(1)] frame_loads(2) [OF frm W(2)] frame_loads(3) [OF frm W(3)])

lemma coin_supply_frame:
  assumes frm: "frame W s s'"
    and W: "\<And>a. KAccount a \<notin> W" "\<And>a. KValidator a \<notin> W" "\<And>a. KWithdrawal a \<notin> W" "KTotals \<notin> W"
  shows "coin_supply E s' = coin_supply E s"
  by (simp only: coin_supply_def frame_funds [OF frm W(1-3)] frame_queue_loads(2) [OF frm W(4)])

lemma load_totals_ok: "totals_ok E s \<Longrightarrow> load_totals E s = Inr (totals_of E s)"
  by (auto simp: load_totals_def totals_ok_def totals_of_def read_canonical_def read_record_def
      split: option.splits)

lemma load_queue_ok: "queue_ok E s \<Longrightarrow> load_queue E s = Inr (queue_of E s)"
  by (auto simp: load_queue_def queue_ok_def queue_of_def read_canonical_def read_record_def
      split: option.splits)

lemma queue_ok_bps: "queue_ok E s \<Longrightarrow> i \<in> set (queue_of E s) \<Longrightarrow> pn_reporter_reward_bps i \<le> BASIS_POINTS"
  by (cases "s (key_bytes KQueue)") (auto simp: queue_ok_def queue_of_def read_record_def)

lemma certified_absent_ok: "absences_ok E s \<Longrightarrow> \<exists>b. certified_absent E s c a = Inr b"
  by (cases "s (key_bytes (KAbsent c))")
    (fastforce simp: certified_absent_def absences_ok_def read_canonical_def split: option.splits)+

subsection \<open>Sweep\<close>

lemma frame_foldl_delete: "set ks \<subseteq> key_bytes ` W \<Longrightarrow> frame W s (foldl delete s ks)"
proof (induction ks rule: rev_induct)
  case (snoc k ks)
  then obtain w where "k = key_bytes w" "w \<in> W" by auto
  moreover from snoc have "frame W s (foldl delete s ks)" by simp
  ultimately show ?case by (simp add: frame_stores(10))
qed simp

text \<open>The height whose bucket a block sweeps, if any.\<close>

definition swept_height :: "u64 \<Rightarrow> u64 \<Rightarrow> u64 option" where
  "swept_height height retention = Option.bind (checked_sub height retention) (\<lambda>h. checked_sub h 1)"

lemma sweep_effect:
  assumes "buckets_ok E s"
  obtains s' where "sweep_expired_markers E s height retention = Inr s'"
    "frame ({k. \<exists>h. swept_height height retention = Some h \<and> k = KExpiry h} \<union> range KOffence) s s'"
    "\<And>h. s' (key_bytes (KExpiry h)) = (if swept_height height retention = Some h then None else s (key_bytes (KExpiry h)))"
proof (cases "swept_height height retention")
  case None
  then show ?thesis using that by (auto simp: sweep_expired_markers_def swept_height_def)
next
  case (Some h)
  then have sw: "Option.bind (checked_sub height retention) (\<lambda>h. checked_sub h 1) = Some h"
    by (simp add: swept_height_def)
  show ?thesis
  proof (cases "s (key_bytes (KExpiry h))")
    case None
    then have run: "sweep_expired_markers E s height retention = Inr s"
      using sw by (simp add: sweep_expired_markers_def read_canonical_def)
    show ?thesis by (rule that [OF run]) (use None Some in auto)
  next
    case (Some b)
    then obtain ks where ks: "dec (marker_keys_codec E) b = Some ks" "set ks \<subseteq> key_bytes ` range KOffence"
      using assms unfolding buckets_ok_def by blast
    let ?t = "foldl delete s ks"
    have run: "sweep_expired_markers E s height retention = Inr (delete ?t (key_bytes (KExpiry h)))"
      using sw Some ks(1) by (simp add: sweep_expired_markers_def read_canonical_def)
    have frm: "frame (range KOffence) s ?t" by (rule frame_foldl_delete [OF ks(2)])
    have keep: "?t (key_bytes (KExpiry g)) = s (key_bytes (KExpiry g))" for g
      by (rule frame_key [OF frm]) auto
    have sh: "swept_height height retention = Some h" by (simp add: swept_height_def sw)
    show ?thesis
    proof (rule that [OF run])
      show "frame ({k. \<exists>h. swept_height height retention = Some h \<and> k = KExpiry h} \<union> range KOffence) s
          (delete ?t (key_bytes (KExpiry h)))"
        by (rule frame_stores(10) [OF frame_mono [OF frm]]) (auto simp: sh)
    qed (simp add: delete_def keep sh)
  qed
qed

subsection \<open>Admission\<close>

fun evidence_prefix :: "transaction list \<Rightarrow> evidence_submission list" where
  "evidence_prefix [] = []"
| "evidence_prefix (tx # txs) = (case tx of SubmitEvidence sub \<Rightarrow> sub # evidence_prefix txs | _ \<Rightarrow> [])"

definition certified :: "externals \<Rightarrow> state \<Rightarrow> evidence_submission \<Rightarrow> bool" where
  "certified E s sub \<longleftrightarrow> es_kind (sub_statement sub) = Inactivity \<longrightarrow>
     certified_absent E s (ec_chunk_id (es_context (sub_statement sub)))
       (cv_withdrawal_credentials (es_offender (sub_statement sub))) = Inr True"

lemma collect_loop_prefix:
  "collect_loop E s P Q txs = Inr adm \<Longrightarrow>
     adm = map claim_sanction (evidence_prefix txs)
     \<and> (\<forall>sub\<in>set (evidence_prefix txs). s (key_bytes (marker_of (claim_sanction sub))) = None \<and> certified E s sub)"
proof (induction txs arbitrary: P Q adm)
  case (Cons tx txs)
  show ?case
  proof (cases tx)
    case (SubmitEvidence sub)
    then show ?thesis
      using Cons.prems
      by (cases "es_kind (sub_statement sub)")
        (auto simp: Let_def res_iffs marker_key_eq certified_def claim_sanction_def dest!: Cons.IH)
  qed (use Cons.prems in auto)
qed simp

lemma collect_loop_fresh:
  "collect_loop E s P Q txs = Inr adm \<Longrightarrow>
     (\<forall>sn\<in>set adm. case sn_kind sn of
        Slash \<Rightarrow> cv_pubkey (sn_offender sn) \<notin> P | Inactivity \<Rightarrow> sn_offence_id sn \<notin> Q)
     \<and> distinct (map marker_of adm)"
proof (induction txs arbitrary: P Q adm)
  case (Cons tx txs)
  show ?case
  proof (cases tx)
    case (SubmitEvidence sub)
    let ?c = "sub_statement sub"
    let ?P = "case es_kind ?c of Slash \<Rightarrow> insert (cv_pubkey (es_offender ?c)) P | Inactivity \<Rightarrow> P"
    from Cons.prems SubmitEvidence obtain rest where
      rest: "collect_loop E s ?P (insert (es_offence_id ?c) Q) txs = Inr rest"
      and new: "case es_kind ?c of Slash \<Rightarrow> cv_pubkey (es_offender ?c) \<notin> P | Inactivity \<Rightarrow> es_offence_id ?c \<notin> Q"
      and adm: "adm = claim_sanction sub # rest"
      by (auto simp: Let_def res_iffs claim_sanction_def)
    note IH = Cons.IH [OF rest]
    have apart: "marker_of sn \<noteq> marker_of (claim_sanction sub)" if "sn \<in> set rest" for sn
      using bspec [OF conjunct1 [OF IH] that]
      by (auto simp: marker_of_def claim_sanction_def split: sanction_kind.splits)
    have "case sn_kind sn of Slash \<Rightarrow> cv_pubkey (sn_offender sn) \<notin> P | Inactivity \<Rightarrow> sn_offence_id sn \<notin> Q"
      if "sn \<in> set rest" for sn
      using bspec [OF conjunct1 [OF IH] that] by (auto split: sanction_kind.splits)
    moreover have "marker_of (claim_sanction sub) \<notin> set (map marker_of rest)" using apart by force
    moreover have "case sn_kind (claim_sanction sub) of
        Slash \<Rightarrow> cv_pubkey (sn_offender (claim_sanction sub)) \<notin> P
      | Inactivity \<Rightarrow> sn_offence_id (claim_sanction sub) \<notin> Q"
      using new by (auto simp: claim_sanction_def split: sanction_kind.splits)
    ultimately show ?thesis using IH by (simp add: adm)
  qed (use Cons.prems in auto)
qed simp

lemma collect_admissions_effect:
  assumes "collect_admissions E input s = Inr adm"
  shows "adm = map claim_sanction (evidence_prefix (si_transactions input))"
    and "distinct (map marker_of adm)"
    and "\<And>sn. sn \<in> set adm \<Longrightarrow> s (key_bytes (marker_of sn)) = None"
    and "\<And>sub. sub \<in> set (evidence_prefix (si_transactions input)) \<Longrightarrow> certified E s sub"
proof -
  have run: "collect_loop E s {} {} (si_transactions input) = Inr adm"
    using assms by (simp add: collect_admissions_def)
  have iff: "adm = map claim_sanction (evidence_prefix (si_transactions input))
      \<and> (\<forall>sub\<in>set (evidence_prefix (si_transactions input)).
           s (key_bytes (marker_of (claim_sanction sub))) = None \<and> certified E s sub)"
    by (rule collect_loop_prefix [OF run])
  from iff show "adm = map claim_sanction (evidence_prefix (si_transactions input))" by simp
  from iff show "\<And>sn. sn \<in> set adm \<Longrightarrow> s (key_bytes (marker_of sn)) = None" by auto
  from iff show "\<And>sub. sub \<in> set (evidence_prefix (si_transactions input)) \<Longrightarrow> certified E s sub" by simp
  show "distinct (map marker_of adm)" using collect_loop_fresh [OF run] by simp
qed

definition obligations :: "runtime_policy \<Rightarrow> evidence_submission list \<Rightarrow> pending_sanction list" where
  "obligations policy subs = map (\<lambda>sub. pending_of policy (claim_sanction sub) sub) subs"

definition mark_admitted :: "state \<Rightarrow> sanction list \<Rightarrow> state" where
  "mark_admitted s sns = foldl (\<lambda>t sn. t(key_bytes (marker_of sn) \<mapsto> [0])) s sns"

lemma enqueue_loop_effect:
  "enqueue_loop policy (zip (map claim_sanction (evidence_prefix txs)) txs) s queue
     = Inr (mark_admitted s (map claim_sanction (evidence_prefix txs)), queue @ obligations policy (evidence_prefix txs))"
proof (induction txs arbitrary: s queue)
  case (Cons tx txs)
  then show ?case
    by (cases tx) (simp_all add: mark_admitted_def obligations_def sanction_marker_key_eq)
qed (simp add: mark_admitted_def obligations_def)

lemma frame_mark_admitted: "frame (marker_of ` set sns) s (mark_admitted s sns)"
proof (induction sns rule: rev_induct)
  case (snoc sn sns)
  have "frame (marker_of ` set (sns @ [sn])) s (mark_admitted s sns)" by (rule frame_mono [OF snoc]) auto
  from frame_upd [OF this, of "marker_of sn" "Some [0]"] show ?case by (simp add: mark_admitted_def fun_upd_def)
qed (simp add: mark_admitted_def)

lemma mark_admitted_marks: "sn \<in> set sns \<Longrightarrow> mark_admitted s sns (key_bytes (marker_of sn)) = Some [0]"
  by (induction sns rule: rev_induct) (auto simp: mark_admitted_def)

lemma frame_record_expiry: "frame {KExpiry h} s (record_expiry_bucket E s h sns)"
  by (auto simp: record_expiry_bucket_def Let_def write_record_def intro!: frame_upd)

lemma obligations_bps:
  "policy_is_well_formed policy \<Longrightarrow> i \<in> set (obligations policy subs) \<Longrightarrow> pn_reporter_reward_bps i \<le> BASIS_POINTS"
  by (auto simp: obligations_def pending_of_def policy_is_well_formed_def)

subsection \<open>The phase\<close>

lemma policy_loop_count:
  "policy_loop h p n txs = Inr m \<Longrightarrow> unat m = unat n + length (evidence_prefix txs)
     \<and> (\<forall>sub\<in>set (evidence_prefix txs). within_age sub h (evidence_max_age_blocks p))"
proof (induction txs arbitrary: n)
  case (Cons tx txs)
  show ?case
  proof (cases tx)
    case (SubmitEvidence sub)
    with Cons.prems obtain n' where "within_age sub h (evidence_max_age_blocks p)" "checked_add n 1 = Some n'"
      "policy_loop h p n' txs = Inr m"
      by (auto simp: res_iffs split: if_splits)
    then show ?thesis using Cons.IH [of n'] SubmitEvidence by (simp add: checked_add_Some_iff)
  qed (use Cons.prems in auto)
qed simp

lemma checked_mul_of_nat:
  fixes v w :: u64
  assumes "checked_mul (of_nat n) w = Some v" and "n < 2 ^ 64"
  shows "unat v = n * unat w"
  using assms by (auto simp: checked_mul_def unat_of_nat unat_mult_exact split: if_splits)

lemma mandatory_plan_effect:
  assumes run: "mandatory_plan E input s policy = Inr (queue, s1, adm, n, g)"
  shows "policy_is_valid_for policy (si_evidence_anchor input)"
    and "queue = queue_of E s" and "length queue \<le> unat (evidence_max_pending policy)"
    and "sweep_expired_markers E s (si_block_height input)
      (ea_unbonding_delay_blocks (si_evidence_anchor input)) = Inr s1"
    and "collect_admissions E input s1 = Inr adm"
    and "n = min (length queue + length adm) (unat (evidence_executions_per_block policy))"
    and "unat g = 5000 * n" and "unat g + 10000 * length adm \<le> unat (si_block_gas_limit input)"
    and "length queue + length adm - n \<le> unat (evidence_max_pending policy)"
    and "\<And>sub. sub \<in> set (evidence_prefix (si_transactions input)) \<Longrightarrow>
      within_age sub (si_block_height input) (evidence_max_age_blocks policy)"
    and "length adm \<le> unat (evidence_admissions_per_block policy)"
proof -
  from run obtain m ga gas where
    valid: "policy_is_valid_for policy (si_evidence_anchor input)"
    and pl: "policy_loop (si_block_height input) policy 0 (si_transactions input) = Inr m"
    and mle: "m \<le> evidence_admissions_per_block policy"
    and q: "(case s QUEUE_KEY of None \<Rightarrow> Inr []
      | Some b \<Rightarrow> ok_or (dec (sanction_queue_codec E) b) ''canonical sanction queue'') = Inr queue"
    and ql: "length queue \<le> unat (evidence_max_pending policy)"
    and sw: "sweep_expired_markers E s (si_block_height input)
      (ea_unbonding_delay_blocks (si_evidence_anchor input)) = Inr s1"
    and ca: "collect_admissions E input s1 = Inr adm"
    and n: "n = min (length queue + length adm) (unat (evidence_executions_per_block policy))"
    and g: "checked_mul (of_nat n) GAS_SANCTION = Some g"
    and ga: "checked_mul (of_nat (length adm)) GAS_EVIDENCE_ADMISSION = Some ga"
    and gas: "checked_add g ga = Some gas" "gas \<le> si_block_gas_limit input"
    and cap: "length queue + length adm - n \<le> unat (evidence_max_pending policy)"
    unfolding mandatory_plan_def check_policy_def
    by (auto simp: res_iffs Let_def split: if_splits option.splits)
  note pc = policy_loop_count [OF pl]
  have len: "length adm = unat m" using collect_admissions_effect(1) [OF ca] pc by simp
  have n64: "n < 2 ^ 64" using n unat_lt [of "evidence_executions_per_block policy"] by (simp add: min_def)
  have a64: "length adm < 2 ^ 64" using len unat_lt [of m] by simp
  show "unat g = 5000 * n" using checked_mul_of_nat [OF g n64] by (simp add: GAS_SANCTION_def)
  have "unat ga = 10000 * length adm"
    using checked_mul_of_nat [OF ga a64] by (simp add: GAS_EVIDENCE_ADMISSION_def)
  then show "unat g + 10000 * length adm \<le> unat (si_block_gas_limit input)"
    using gas by (simp add: checked_add_Some_iff word_le_nat_alt)
  show "length adm \<le> unat (evidence_admissions_per_block policy)" using len mle by (simp add: word_le_nat_alt)
  show "queue = queue_of E s" using q by (auto simp: queue_of_def read_record_def split: option.splits)
  show "\<And>sub. sub \<in> set (evidence_prefix (si_transactions input)) \<Longrightarrow>
      within_age sub (si_block_height input) (evidence_max_age_blocks policy)" using pc by simp
  show "policy_is_valid_for policy (si_evidence_anchor input)"
    and "length queue \<le> unat (evidence_max_pending policy)"
    and "sweep_expired_markers E s (si_block_height input)
      (ea_unbonding_delay_blocks (si_evidence_anchor input)) = Inr s1"
    and "collect_admissions E input s1 = Inr adm"
    and "n = min (length queue + length adm) (unat (evidence_executions_per_block policy))"
    and "length queue + length adm - n \<le> unat (evidence_max_pending policy)"
    by (fact valid ql sw ca n cap)+
qed

definition obligation_list :: "stf_input \<Rightarrow> runtime_policy \<Rightarrow> pending_sanction list \<Rightarrow> pending_sanction list" where
  "obligation_list input policy queue = queue @ obligations policy (evidence_prefix (si_transactions input))"

text \<open>The states a run of the phase passes through.\<close>

lemma mandatory_run_split:
  assumes run: "mandatory_run E input policy before queue s1 adm n g = Inr (m, s')"
    and adm: "adm = map claim_sanction (evidence_prefix (si_transactions input))"
    and n: "n \<le> length (obligation_list input policy queue)"
    and ex: "ex = take n (obligation_list input policy queue)"
    and res: "residual = enc (sanction_queue_codec E) (drop n (obligation_list input policy queue))"
  obtains rs s3 s4 t0 t2 where
    "s3 = record_expiry_bucket E (mark_admitted s1 adm) (si_block_height input) adm"
    "(if adm \<noteq> [] \<or> ex \<noteq> [] then load_totals E s3 else Inr default_totals) = Inr t0"
    "execute_loop E ex s3 (foldl (\<lambda>t sn. totals_admitted (sn_kind sn) t) t0 adm) = Inr (rs, s4, t2)"
    "s' = (let s5 = (if adm \<noteq> [] \<or> ex \<noteq> [] then store_totals E s4 t2 else s4)
           in if before \<noteq> blake3 E residual then s5(key_bytes KQueue \<mapsto> residual) else s5)"
    "m = \<lparr>mn_output = \<lparr>ao_anchor = si_evidence_anchor input, ao_admitted = adm,
                 ao_executed = map pn_sanction ex, ao_queue_before = before, ao_queue_after = blake3 E residual\<rparr>,
          mn_gas = g, mn_receipts = rs, mn_backlog = backlog_of (drop n (obligation_list input policy queue))\<rparr>"
proof -
  have nz: "n > 0 \<longleftrightarrow> ex \<noteq> []" using n ex by auto
  show ?thesis
    using run that
    unfolding mandatory_run_def enqueue_admissions_def adm enqueue_loop_effect nz
      obligation_list_def [symmetric] res [symmetric] ex [symmetric] res_bind_simps(2) prod.case Let_def
    by (auto simp: res_bind_Inr_iff)
qed

context borsh
begin

lemma record_expiry_inv:
  assumes "mandatory_inv E s"
  shows "mandatory_inv E (record_expiry_bucket E s h sns)"
proof -
  have "set (map sanction_marker_key (filter (\<lambda>sn. sn_kind sn = Inactivity) sns)) \<subseteq> key_bytes ` range KOffence"
    by (auto simp: sanction_marker_key_eq marker_of_def)
  then show ?thesis
    using assms
    by (auto simp: mandatory_inv_def record_expiry_bucket_def Let_def write_record_def buckets_ok_def
        queue_ok_def totals_ok_def absences_ok_def)
qed

lemma admission_effect:
  assumes s3: "s3 = record_expiry_bucket E (mark_admitted s1 adm) h adm"
  shows "frame (marker_of ` set adm \<union> {KExpiry h}) s1 s3"
    and "coin_supply E s3 = coin_supply E s1" and "totals_of E s3 = totals_of E s1" "queue_of E s3 = queue_of E s1"
    and "staking_inv E s3 = staking_inv E s1"
    and "mandatory_inv E s1 \<Longrightarrow> mandatory_inv E s3"
    and "\<And>sn. sn \<in> set adm \<Longrightarrow> s3 (key_bytes (marker_of sn)) = Some [0]"
proof -
  have m: "KAccount a \<notin> marker_of ` set adm" "KValidator a \<notin> marker_of ` set adm" "KWithdrawal a \<notin> marker_of ` set adm"
    "KTotals \<notin> marker_of ` set adm" "KQueue \<notin> marker_of ` set adm" "KRegistration a \<notin> marker_of ` set adm"
    "KValidatorSet \<notin> marker_of ` set adm" "KCandidates \<notin> marker_of ` set adm" "KRegistrations \<notin> marker_of ` set adm"
    "KExpiry e \<notin> marker_of ` set adm" "KAbsent c \<notin> marker_of ` set adm"
    for a e c by (auto simp: image_iff)
  note mark = frame_mark_admitted [of adm s1]
  show frm: "frame (marker_of ` set adm \<union> {KExpiry h}) s1 s3"
    unfolding s3 by (rule frame_trans [OF mark frame_record_expiry])
  show "coin_supply E s3 = coin_supply E s1" by (rule coin_supply_frame [OF frm]) (use m in auto)
  show "totals_of E s3 = totals_of E s1" "queue_of E s3 = queue_of E s1"
    by (rule frame_queue_loads [OF frm], use m in auto)+
  show "staking_inv E s3 = staking_inv E s1" by (rule staking_inv_frame [OF frm]) (use m in auto)
  show "mandatory_inv E s3" if "mandatory_inv E s1"
  proof -
    have "mandatory_inv E (mark_admitted s1 adm)"
      using that by (subst mandatory_inv_frame [OF mark]) (use m in auto)
    then show ?thesis unfolding s3 by (rule record_expiry_inv)
  qed
  show "s3 (key_bytes (marker_of sn)) = Some [0]" if "sn \<in> set adm" for sn
    using frame_key [OF frame_record_expiry, of "marker_of sn" h E "mark_admitted s1 adm" adm] mark_admitted_marks [OF that]
    by (simp add: s3)
qed

text \<open>From the swept state to the state after the last execution.\<close>

lemma execution_effect:
  assumes s3: "s3 = record_expiry_bucket E (mark_admitted s1 adm) h adm"
    and t0: "(if adm \<noteq> [] \<or> ex \<noteq> [] then load_totals E s3 else Inr default_totals) = Inr t0"
    and run: "execute_loop E ex s3 (foldl (\<lambda>t sn. totals_admitted (sn_kind sn) t) t0 adm) = Inr (rs, s4, t2)"
    and inv: "mandatory_inv E s1" and bound: "coin_supply E s1 < 2 ^ 128"
  defines "M \<equiv> (\<lambda>i. marker_of (pn_sanction i)) ` set ex"
  shows "total_funds E s4 + burned_total (if adm \<noteq> [] \<or> ex \<noteq> [] then t2 else totals_of E s4) = coin_supply E s1"
    and "staking_inv E s1 \<Longrightarrow> staking_inv E s4"
    and "frame (marker_of ` set adm \<union> {KExpiry h} \<union> ({k. fund_key k} \<union> M)) s1 s4"
    and "mandatory_inv E s4" and "length rs = length ex"
    and "\<And>sn. sn \<in> set adm \<or> s1 (key_bytes (marker_of sn)) \<noteq> None \<Longrightarrow> s4 (key_bytes (marker_of sn)) \<noteq> None"
proof -
  let ?set = "adm \<noteq> [] \<or> ex \<noteq> []"
  note a = admission_effect [OF s3]
  have t0': "t0 = totals_of E s1" if "?set"
    using t0 a(3) load_totals_ok [of E s3] a(6) [OF inv] that by (simp add: mandatory_inv_def)
  have lim: "total_funds E s3 + burned_total t0 < 2 ^ 128" if "?set"
    using t0' [OF that] a(2,3) bound by (simp add: coin_supply_def)
  have none: "s4 = s3 \<and> rs = []" if "\<not> ?set" using run that by simp
  have eff: "total_funds E s4 + burned_total t2 = total_funds E s3 + burned_total t0
      \<and> (staking_inv E s3 \<longrightarrow> staking_inv E s4) \<and> frame ({k. fund_key k} \<union> M) s3 s4
      \<and> (\<forall>i\<in>set ex. s4 (key_bytes (marker_of (pn_sanction i))) = Some [1]) \<and> length rs = length ex" if "?set"
    using execute_loop_effect [OF run] lim [OF that] by (simp add: M_def)
  have f34: "frame ({k. fund_key k} \<union> M) s3 s4"
    using eff none by (cases ?set) (simp_all del: Un_iff)
  show "total_funds E s4 + burned_total (if ?set then t2 else totals_of E s4) = coin_supply E s1"
  proof (cases ?set)
    case True
    then show ?thesis using eff t0' a(2,3) by (simp add: coin_supply_def)
  next
    case False
    then show ?thesis using none a(2) by (simp add: coin_supply_def)
  qed
  show "staking_inv E s4" if "staking_inv E s1" using that eff none a(5) by (cases ?set) simp_all
  show "length rs = length ex" using eff none by (cases ?set) simp_all
  show "frame (marker_of ` set adm \<union> {KExpiry h} \<union> ({k. fund_key k} \<union> M)) s1 s4"
    by (rule frame_trans [OF a(1) f34])
  show "mandatory_inv E s4"
    using a(6) [OF inv] by (subst mandatory_inv_frame [OF f34]) (auto simp: M_def)
  show "s4 (key_bytes (marker_of sn)) \<noteq> None" if "sn \<in> set adm \<or> s1 (key_bytes (marker_of sn)) \<noteq> None" for sn
  proof -
    have m3: "s3 (key_bytes (marker_of sn)) \<noteq> None"
      using that a(7) frame_key [OF a(1), of "marker_of sn"] by (cases "marker_of sn \<in> marker_of ` set adm") auto
    show ?thesis
    proof (cases "marker_of sn \<in> M")
      case True
      then have "ex \<noteq> []" by (auto simp: M_def)
      then show ?thesis using True eff by (auto simp: M_def)
    next
      case False
      then show ?thesis using frame_key [OF f34, of "marker_of sn"] m3 by simp
    qed
  qed
qed

lemma mandatory_run_effect:
  assumes run: "mandatory_run E input policy before queue s1 adm n g = Inr (m, s')"
    and adm: "adm = map claim_sanction (evidence_prefix (si_transactions input))"
    and inv: "mandatory_inv E s1" and bound: "coin_supply E s1 < 2 ^ 128"
    and bps: "\<And>i. i \<in> set (obligation_list input policy queue) \<Longrightarrow> pn_reporter_reward_bps i \<le> BASIS_POINTS"
    and n: "n \<le> length (obligation_list input policy queue)"
  defines "rest \<equiv> drop n (obligation_list input policy queue)"
  shows "coin_supply E s' = coin_supply E s1"
    and "staking_inv E s1 \<Longrightarrow> staking_inv E s'"
    and "mandatory_inv E s'"
    and "frame {k. settlement_key k} s1 s'"
    and "s' (key_bytes KQueue) = (if before = blake3 E (enc (sanction_queue_codec E) rest)
      then s1 (key_bytes KQueue) else Some (enc (sanction_queue_codec E) rest))"
    and "\<And>sn. sn \<in> set adm \<or> s1 (key_bytes (marker_of sn)) \<noteq> None \<Longrightarrow> s' (key_bytes (marker_of sn)) \<noteq> None"
    and "length (mn_receipts m) = n"
proof -
  let ?ex = "take n (obligation_list input policy queue)"
  let ?set = "adm \<noteq> [] \<or> ?ex \<noteq> []" and ?res = "enc (sanction_queue_codec E) rest"
  obtain rs s3 s4 t0 t2 where
    s3: "s3 = record_expiry_bucket E (mark_admitted s1 adm) (si_block_height input) adm"
    and t0: "(if ?set then load_totals E s3 else Inr default_totals) = Inr t0"
    and ex: "execute_loop E ?ex s3 (foldl (\<lambda>t sn. totals_admitted (sn_kind sn) t) t0 adm) = Inr (rs, s4, t2)"
    and s': "s' = (let s5 = (if ?set then store_totals E s4 t2 else s4)
      in if before \<noteq> blake3 E ?res then s5(key_bytes KQueue \<mapsto> ?res) else s5)"
    and m: "mn_receipts m = rs"
    by (rule mandatory_run_split [OF run adm n refl refl, folded rest_def]) simp
  note e = execution_effect [OF s3 t0 ex inv bound]
  define W where "W = marker_of ` set adm \<union> {KExpiry (si_block_height input)}
      \<union> ({k. fund_key k} \<union> (\<lambda>i. marker_of (pn_sanction i)) ` set ?ex)"
  have fW: "frame W s1 s4" unfolding W_def by (rule e(3))
  have f4: "frame {KTotals, KQueue} s4 s'"
    by (simp add: s' Let_def store_totals_def write_record_def frame_upd)
  have t: "totals_of E s' = (if ?set then t2 else totals_of E s4)"
    unfolding s' Let_def store_totals_def write_record_def key_bytes_sym
    by (simp only: queue_upd if_distrib [of "totals_of E"]) simp
  have funds: "total_funds E s' = total_funds E s4" by (rule frame_funds [OF f4]) simp_all
  show "coin_supply E s' = coin_supply E s1" using e(1) unfolding coin_supply_def t funds .
  show "staking_inv E s'" if "staking_inv E s1"
    using e(2) [OF that] by (subst staking_inv_frame [OF f4]) simp_all
  have k4: "s' (key_bytes (KExpiry h)) = s4 (key_bytes (KExpiry h))" "s' (key_bytes (KAbsent c)) = s4 (key_bytes (KAbsent c))"
    for h c by (rule frame_key [OF f4], simp)+
  have rest_bps: "\<forall>i\<in>set rest. pn_reporter_reward_bps i \<le> BASIS_POINTS"
    using bps by (auto simp: rest_def dest!: in_set_dropD)
  have "totals_ok E s'" "queue_ok E s'"
    using e(4) rest_bps
    by (simp_all add: s' Let_def store_totals_def write_record_def mandatory_inv_def queue_ok_def totals_ok_def)
  then show "mandatory_inv E s'"
    using e(4) unfolding mandatory_inv_def buckets_ok_def absences_ok_def k4 by simp
  have "frame (W \<union> {KTotals, KQueue}) s1 s'" by (rule frame_trans [OF fW f4])
  then show "frame {k. settlement_key k} s1 s'" by (rule frame_mono) (auto simp: W_def fund_settlement_key)
  have "KQueue \<notin> W" by (auto simp: W_def)
  then have "s4 (key_bytes KQueue) = s1 (key_bytes KQueue)" by (rule frame_key [OF fW])
  then show "s' (key_bytes KQueue) = (if before = blake3 E ?res then s1 (key_bytes KQueue) else Some ?res)"
    by (simp add: s' Let_def store_totals_def write_record_def)
  show "length (mn_receipts m) = n" using e(5) n m by simp
  show "s' (key_bytes (marker_of sn)) \<noteq> None" if "sn \<in> set adm \<or> s1 (key_bytes (marker_of sn)) \<noteq> None" for sn
    using e(6) [OF that] frame_key [OF f4, of "marker_of sn"] by simp
qed

text \<open>The sweep touches liveness markers and one expired bucket only.\<close>

lemma sweep_keeps:
  assumes inv: "mandatory_inv E s" and run: "sweep_expired_markers E s h r = Inr s1"
  shows "mandatory_inv E s1" and "frame {k. settlement_key k} s s1" and "coin_supply E s1 = coin_supply E s"
    and "staking_inv E s1 = staking_inv E s" and "s1 (key_bytes KQueue) = s (key_bytes KQueue)"
    and "\<And>p. s1 (key_bytes (KSlashed p)) = s (key_bytes (KSlashed p))"
proof -
  let ?W = "{k. \<exists>g. swept_height h r = Some g \<and> k = KExpiry g} \<union> range KOffence"
  have "buckets_ok E s" using inv by (simp add: mandatory_inv_def)
  then obtain s1' where run': "sweep_expired_markers E s h r = Inr s1'" and frm': "frame ?W s s1'"
    and ex': "\<And>g. s1' (key_bytes (KExpiry g)) = (if swept_height h r = Some g then None else s (key_bytes (KExpiry g)))"
    by (rule sweep_effect) blast
  from run run' have eq: "s1' = s1" by simp
  note frm = frm' [unfolded eq] and ex = ex' [unfolded eq]
  have keep: "s1 (key_bytes k) = s (key_bytes k)" if "k \<notin> ?W" for k by (rule frame_key [OF frm that])
  have ab: "s1 (key_bytes (KAbsent c)) = s (key_bytes (KAbsent c))" for c by (rule keep) auto
  show q: "s1 (key_bytes KQueue) = s (key_bytes KQueue)" by (rule keep) auto
  have tt: "s1 (key_bytes KTotals) = s (key_bytes KTotals)" by (rule keep) auto
  show "\<And>p. s1 (key_bytes (KSlashed p)) = s (key_bytes (KSlashed p))" by (rule keep) auto
  have "buckets_ok E s1" using inv by (simp add: mandatory_inv_def buckets_ok_def ex)
  then show "mandatory_inv E s1"
    using inv by (simp add: mandatory_inv_def queue_ok_def totals_ok_def absences_ok_def q tt ab)
  show "frame {k. settlement_key k} s s1" by (rule frame_mono [OF frm]) auto
  show "coin_supply E s1 = coin_supply E s" by (rule coin_supply_frame [OF frm]) auto
  show "staking_inv E s1 = staking_inv E s" by (rule staking_inv_frame [OF frm]) auto
qed

lemma phase_split:
  assumes run: "accountability_apply E input s policy = Inr (m, s')"
  obtains s1 adm n g where "mandatory_plan E input s policy = Inr (queue_of E s, s1, adm, n, g)"
    "adm = map claim_sanction (evidence_prefix (si_transactions input))"
    "n \<le> length (obligation_list input policy (queue_of E s))"
    "mandatory_run E input policy
       (case s (key_bytes KQueue) of
          None \<Rightarrow> commitment E (sanction_queue_codec E) (queue_of E s) | Some b \<Rightarrow> blake3 E b)
       (queue_of E s) s1 adm n g = Inr (m, s')"
proof -
  from run obtain queue s1 adm n g where plan: "mandatory_plan E input s policy = Inr (queue, s1, adm, n, g)"
    and rest: "mandatory_run E input policy (case s QUEUE_KEY of
        None \<Rightarrow> commitment E (sanction_queue_codec E) queue | Some b \<Rightarrow> blake3 E b) queue s1 adm n g = Inr (m, s')"
    by (auto simp: accountability_apply_def res_bind_Inr_iff)
  note pl = mandatory_plan_effect [OF plan]
  have adm: "adm = map claim_sanction (evidence_prefix (si_transactions input))"
    by (rule collect_admissions_effect(1) [OF pl(5)])
  have "n \<le> length (obligation_list input policy queue)"
    using pl(6) by (simp add: obligation_list_def obligations_def adm)
  then show ?thesis using that plan rest adm unfolding pl(2) key_bytes_sym by blast
qed

lemma phase_bps:
  assumes "mandatory_inv E s" and "policy_is_well_formed policy" and "i \<in> set (obligation_list input policy (queue_of E s))"
  shows "pn_reporter_reward_bps i \<le> BASIS_POINTS"
  using assms queue_ok_bps obligations_bps by (auto simp: obligation_list_def mandatory_inv_def)

lemma phase_keeps:
  assumes run: "accountability_apply E input s policy = Inr (m, s')"
    and inv: "mandatory_inv E s" and bound: "coin_supply E s < 2 ^ 128"
  shows "coin_supply E s' = coin_supply E s"
    and "staking_inv E s \<Longrightarrow> staking_inv E s'"
    and "mandatory_inv E s'"
    and "frame {k. settlement_key k} s s'"
    and "\<And>p. s (key_bytes (KSlashed p)) \<noteq> None \<Longrightarrow> s' (key_bytes (KSlashed p)) \<noteq> None"
    and "\<And>sn. sn \<in> set (ao_admitted (mn_output m)) \<Longrightarrow> s' (key_bytes (marker_of sn)) \<noteq> None"
    and "\<And>sn. sn \<in> set (ao_admitted (mn_output m)) \<Longrightarrow> sn_kind sn = Slash \<Longrightarrow> s (key_bytes (marker_of sn)) = None"
    and "distinct (map marker_of (ao_admitted (mn_output m)))"
proof -
  obtain s1 adm n g where plan: "mandatory_plan E input s policy = Inr (queue_of E s, s1, adm, n, g)"
    and adm: "adm = map claim_sanction (evidence_prefix (si_transactions input))"
    and n: "n \<le> length (obligation_list input policy (queue_of E s))"
    and mrun: "mandatory_run E input policy (case s (key_bytes KQueue) of
        None \<Rightarrow> commitment E (sanction_queue_codec E) (queue_of E s) | Some b \<Rightarrow> blake3 E b)
      (queue_of E s) s1 adm n g = Inr (m, s')"
    by (rule phase_split [OF run])
  note pl = mandatory_plan_effect [OF plan]
  note sw = sweep_keeps [OF inv pl(4)]
  have wf: "policy_is_well_formed policy" using pl(1) by (simp add: policy_is_valid_for_def)
  have bound1: "coin_supply E s1 < 2 ^ 128" using sw(3) bound by simp
  note r = mandatory_run_effect [OF mrun adm sw(1) bound1 phase_bps [OF inv wf, where input = input] n]
  have out: "ao_admitted (mn_output m) = adm"
    by (rule mandatory_run_split [OF mrun adm n refl refl]) simp
  show "coin_supply E s' = coin_supply E s" using r(1) sw(3) by simp
  show "staking_inv E s'" if "staking_inv E s" using r(2) sw(4) that by simp
  show "mandatory_inv E s'" by (rule r(3))
  show "frame {k. settlement_key k} s s'" using frame_trans [OF sw(2) r(4)] by simp
  show "s' (key_bytes (KSlashed p)) \<noteq> None" if "s (key_bytes (KSlashed p)) \<noteq> None" for p
  proof -
    let ?sn = "\<lparr>sn_offence_id = 0, sn_offender = undefined\<lparr>cv_pubkey := p\<rparr>, sn_kind = Slash\<rparr>"
    have "marker_of ?sn = KSlashed p" by (simp add: marker_of_def)
    then show ?thesis using r(6) [where sn = ?sn] sw(6) [of p] that by simp
  qed
  show "s' (key_bytes (marker_of sn)) \<noteq> None" if "sn \<in> set (ao_admitted (mn_output m))" for sn
    using r(6) [where sn = sn] that out by simp
  show "s (key_bytes (marker_of sn)) = None" if "sn \<in> set (ao_admitted (mn_output m))" "sn_kind sn = Slash" for sn
    using collect_admissions_effect(3) [OF pl(5), of sn] sw(6) that out by (simp add: marker_of_def)
  show "distinct (map marker_of (ao_admitted (mn_output m)))"
    using collect_admissions_effect(2) [OF pl(5)] out by simp
qed

end

text \<open>
  The block commits to its queue by digest and rewrites it only when the digest changes. The
  digest is assumed not to collide on the two encodings at hand.
\<close>

definition queue_digest_exact :: "externals \<Rightarrow> state \<Rightarrow> pending_sanction list \<Rightarrow> bool" where
  "queue_digest_exact E s rest \<longleftrightarrow>
     (let b = (case s (key_bytes KQueue) of None \<Rightarrow> enc (sanction_queue_codec E) (queue_of E s) | Some b \<Rightarrow> b);
          r = enc (sanction_queue_codec E) rest
      in blake3 E b = blake3 E r \<longrightarrow> b = r)"

context borsh
begin

lemma phase_queue:
  assumes run: "accountability_apply E input s policy = Inr (m, s')"
    and inv: "mandatory_inv E s" and bound: "coin_supply E s < 2 ^ 128"
  defines "all \<equiv> obligation_list input policy (queue_of E s)"
  defines "n \<equiv> min (length all) (unat (evidence_executions_per_block policy))"
  shows "ao_admitted (mn_output m) = map claim_sanction (evidence_prefix (si_transactions input))"
    and "ao_executed (mn_output m) = map pn_sanction (take n all)"
    and "mn_backlog m = backlog_of (drop n all)"
    and "length (drop n all) \<le> unat (evidence_max_pending policy)"
    and "queue_digest_exact E s (drop n all) \<Longrightarrow> queue_of E s' = drop n all"
    and "s' (key_bytes KQueue) =
      (if (case s (key_bytes KQueue) of None \<Rightarrow> commitment E (sanction_queue_codec E) (queue_of E s) | Some b \<Rightarrow> blake3 E b)
          = blake3 E (enc (sanction_queue_codec E) (drop n all))
       then s (key_bytes KQueue) else Some (enc (sanction_queue_codec E) (drop n all)))"
    and "unat (mn_gas m) = 5000 * n"
    and "unat (mn_gas m) + 10000 * length (ao_admitted (mn_output m)) \<le> unat (si_block_gas_limit input)"
    and "length (mn_receipts m) = n"
proof -
  obtain s1 adm n' g where plan: "mandatory_plan E input s policy = Inr (queue_of E s, s1, adm, n', g)"
    and adm: "adm = map claim_sanction (evidence_prefix (si_transactions input))"
    and n'_le: "n' \<le> length (obligation_list input policy (queue_of E s))"
    and mrun: "mandatory_run E input policy (case s (key_bytes KQueue) of
        None \<Rightarrow> commitment E (sanction_queue_codec E) (queue_of E s) | Some b \<Rightarrow> blake3 E b)
      (queue_of E s) s1 adm n' g = Inr (m, s')"
    by (rule phase_split [OF run])
  note pl = mandatory_plan_effect [OF plan]
  note sw = sweep_keeps [OF inv pl(4)]
  have len: "length all = length (queue_of E s) + length adm"
    by (simp add: all_def obligation_list_def obligations_def adm)
  have n': "n' = n" using pl(6) by (simp add: n_def len)
  have wf: "policy_is_well_formed policy" using pl(1) by (simp add: policy_is_valid_for_def)
  have bound1: "coin_supply E s1 < 2 ^ 128" using sw(3) bound by simp
  note r = mandatory_run_effect [OF mrun adm sw(1) bound1 phase_bps [OF inv wf, where input = input] n'_le, folded all_def, unfolded n']
  obtain rs where m: "ao_admitted (mn_output m) = adm" "ao_executed (mn_output m) = map pn_sanction (take n all)"
    "mn_gas m = g" "mn_backlog m = backlog_of (drop n all)"
    by (rule mandatory_run_split [OF mrun adm n'_le refl refl, folded all_def, unfolded n']) simp
  show "ao_admitted (mn_output m) = map claim_sanction (evidence_prefix (si_transactions input))"
    and "ao_executed (mn_output m) = map pn_sanction (take n all)"
    and "mn_backlog m = backlog_of (drop n all)" using m adm by simp_all
  show "length (drop n all) \<le> unat (evidence_max_pending policy)" using pl(9) n' by (simp add: len)
  show "unat (mn_gas m) = 5000 * n"
    and "unat (mn_gas m) + 10000 * length (ao_admitted (mn_output m)) \<le> unat (si_block_gas_limit input)"
    using pl(7,8) m n' by simp_all
  show "length (mn_receipts m) = n" by (rule r(7))
  show stored: "s' (key_bytes KQueue) =
      (if (case s (key_bytes KQueue) of None \<Rightarrow> commitment E (sanction_queue_codec E) (queue_of E s) | Some b \<Rightarrow> blake3 E b)
          = blake3 E (enc (sanction_queue_codec E) (drop n all))
       then s (key_bytes KQueue) else Some (enc (sanction_queue_codec E) (drop n all)))"
    using r(5) sw(5) by simp
  show "queue_of E s' = drop n all" if dig: "queue_digest_exact E s (drop n all)"
  proof (cases "(case s (key_bytes KQueue) of None \<Rightarrow> commitment E (sanction_queue_codec E) (queue_of E s)
      | Some b \<Rightarrow> blake3 E b) = blake3 E (enc (sanction_queue_codec E) (drop n all))")
    case False
    then show ?thesis using stored by (simp add: queue_of_def read_record_def)
  next
    case True
    then have same: "s' (key_bytes KQueue) = s (key_bytes KQueue)" using stored by simp
    have "(case s (key_bytes KQueue) of None \<Rightarrow> enc (sanction_queue_codec E) (queue_of E s) | Some b \<Rightarrow> b)
        = enc (sanction_queue_codec E) (drop n all)"
      using dig True by (auto simp: queue_digest_exact_def commitment_def split: option.splits)
    then have "queue_of E s = drop n all"
      by (cases "s (key_bytes KQueue)")
        (auto simp: queue_of_def read_record_def dest: arg_cong [of _ _ "dec (sanction_queue_codec E)"])
    then show ?thesis using same by (simp add: queue_of_def read_record_def)
  qed
qed

subsection \<open>Nonces\<close>

text \<open>Sanctions and rewards spend no nonce.\<close>

lemma execute_pending_nonce:
  assumes "execute_pending E s item t = Inr (st, s', t')"
  shows "nonce (load_account E s' a) = nonce (load_account E s a)"
proof -
  from assms obtain d r s1 s2 where
    ded: "(\<exists>x. apply_deduction E s (cv_withdrawal_credentials (sn_offender (pn_sanction item))) x = Inr (d, s1)) \<or> s1 = s"
    and rew: "s2 = s1 \<or> (\<exists>p. credit_reporter E s1 p d (pn_reporter_reward_bps item) = Inr (r, s2))"
    and s': "s' = s2(key_bytes (marker_of (pn_sanction item)) \<mapsto> [1])"
    by (rule execute_pending_run) blast
  have "load_account E s1 = load_account E s"
    using ded by (auto simp: apply_deduction_def Let_def slot_ops split: if_splits)
  moreover have "nonce (load_account E s2 a) = nonce (load_account E s1 a)"
    using rew by (auto dest!: credit_reporter_effect(1))
  ultimately show ?thesis by (simp add: s' slot_ops)
qed

lemma execute_loop_nonce:
  "execute_loop E items s t = Inr (rs, s', t') \<Longrightarrow> nonce (load_account E s' a) = nonce (load_account E s a)"
  by (induction items arbitrary: s t rs) (auto simp: res_bind_Inr_iff dest!: execute_pending_nonce [where a = a])

lemma phase_nonce:
  assumes run: "accountability_apply E input s policy = Inr (m, s')" and inv: "mandatory_inv E s"
  shows "nonce (load_account E s' a) = nonce (load_account E s a)"
proof -
  obtain s1 adm n g where plan: "mandatory_plan E input s policy = Inr (queue_of E s, s1, adm, n, g)"
    and adm: "adm = map claim_sanction (evidence_prefix (si_transactions input))"
    and n: "n \<le> length (obligation_list input policy (queue_of E s))"
    and mrun: "mandatory_run E input policy (case s (key_bytes KQueue) of
        None \<Rightarrow> commitment E (sanction_queue_codec E) (queue_of E s) | Some b \<Rightarrow> blake3 E b)
      (queue_of E s) s1 adm n g = Inr (m, s')"
    by (rule phase_split [OF run])
  obtain rs s3 s4 t0 t2 where
    s3: "s3 = record_expiry_bucket E (mark_admitted s1 adm) (si_block_height input) adm"
    and ex: "execute_loop E (take n (obligation_list input policy (queue_of E s))) s3
      (foldl (\<lambda>t sn. totals_admitted (sn_kind sn) t) t0 adm) = Inr (rs, s4, t2)"
    and s'_eq: "s' = (let s5 = (if adm \<noteq> [] \<or> take n (obligation_list input policy (queue_of E s)) \<noteq> []
          then store_totals E s4 t2 else s4);
        residual = enc (sanction_queue_codec E) (drop n (obligation_list input policy (queue_of E s)))
      in if (case s (key_bytes KQueue) of None \<Rightarrow> commitment E (sanction_queue_codec E) (queue_of E s)
          | Some b \<Rightarrow> blake3 E b) \<noteq> blake3 E residual
        then s5(key_bytes KQueue \<mapsto> residual) else s5)"
    unfolding Let_def by (rule mandatory_run_split [OF mrun adm n refl refl, unfolded Let_def])
  have s': "frame {KTotals, KQueue} s4 s'"
    by (simp add: s'_eq Let_def store_totals_def write_record_def frame_upd)
  have "buckets_ok E s" using inv by (simp add: mandatory_inv_def)
  then obtain s1' where "sweep_expired_markers E s (si_block_height input)
      (ea_unbonding_delay_blocks (si_evidence_anchor input)) = Inr s1'"
    and "frame ({k. \<exists>h. swept_height (si_block_height input)
      (ea_unbonding_delay_blocks (si_evidence_anchor input)) = Some h \<and> k = KExpiry h} \<union> range KOffence) s s1'"
    by (rule sweep_effect) blast
  then have "load_account E s1 a = load_account E s a"
    using mandatory_plan_effect(4) [OF plan] by (auto intro!: frame_loads(1))
  moreover have "load_account E s3 a = load_account E s1 a"
    by (rule frame_loads(1) [OF admission_effect(1) [OF s3]]) auto
  moreover have "load_account E s' a = load_account E s4 a" by (rule frame_loads(1) [OF s']) simp
  ultimately show ?thesis using execute_loop_nonce [OF ex, of a] by simp
qed

end

end
