(* ===== verification/Stf_Laws.thy ===== *)
theory Stf_Laws
  imports Stf Accountability_Laws
begin

text \<open>
  Laws of block execution. Every signed transaction satisfies the handler contract
  (\<open>transaction_contract\<close>); one step of the transaction loop conserves funds plus collected fees,
  keeps the invariants and respects the gas ceiling; a block is the composition of its phases.
\<close>

subsection \<open>Transactions under one contract\<close>

fun tx_sender :: "transaction \<Rightarrow> address option" where
  "tx_sender (Transfer tx) = Some (tr_from tx)"
| "tx_sender (Stake tx) = Some (st_validator tx)"
| "tx_sender (Unstake tx) = Some (un_validator tx)"
| "tx_sender (Deposit tx) = Some (dp_depositor tx)"
| "tx_sender (VoluntaryExit tx) = Some (ve_validator tx)"
| "tx_sender (Withdraw tx) = Some (wt_validator tx)"
| "tx_sender (RegisterValidator tx) = Some (rv_depositor tx)"
| "tx_sender (SubmitEvidence _) = None"
| "tx_sender (ProposeUpgrade tx) = Some (pu_proposer tx)"
| "tx_sender (VoteUpgrade tx) = Some (vu_voter tx)"
| "tx_sender (ProposePolicy tx) = Some (pp_proposer tx)"

fun tx_nonce :: "transaction \<Rightarrow> u64" where
  "tx_nonce (Transfer tx) = tr_nonce tx"
| "tx_nonce (Stake tx) = st_nonce tx"
| "tx_nonce (Unstake tx) = un_nonce tx"
| "tx_nonce (Deposit tx) = dp_nonce tx"
| "tx_nonce (VoluntaryExit tx) = ve_nonce tx"
| "tx_nonce (Withdraw tx) = wt_nonce tx"
| "tx_nonce (RegisterValidator tx) = rv_nonce tx"
| "tx_nonce (SubmitEvidence _) = 0"
| "tx_nonce (ProposeUpgrade tx) = pu_nonce tx"
| "tx_nonce (VoteUpgrade tx) = vu_nonce tx"
| "tx_nonce (ProposePolicy tx) = pp_nonce tx"

lemma charges_fee_iff: "tx_charges_fee tx \<longleftrightarrow> tx_sender tx \<noteq> None"
  by (cases tx) simp_all

lemma unsigned_applies: "tx_sender tx = None \<Longrightarrow> apply_transaction E facts fee tx s = Inr s"
  by (cases tx) simp_all

fun governance_key :: "key \<Rightarrow> bool" where
  "governance_key KPolicy = True"
| "governance_key KProposal = True"
| "governance_key KUpgrade = True"
| "governance_key _ = False"

fun governance_tx :: "transaction \<Rightarrow> bool" where
  "governance_tx (ProposeUpgrade _) = True"
| "governance_tx (VoteUpgrade _) = True"
| "governance_tx (ProposePolicy _) = True"
| "governance_tx _ = False"

definition charge_of :: "externals \<Rightarrow> transaction \<Rightarrow> u128 \<Rightarrow> failure \<Rightarrow> state \<Rightarrow> u128 \<times> state" where
  "charge_of E tx fee f s = (case payer f of
     Some p \<Rightarrow> if tx_charges_fee tx then charge_failure E s p fee else (0, s) | None \<Rightarrow> (0, s))"

lemma execute_one_cases:
  assumes "execute_one E facts tx t s = (t', s')"
  obtains (skipped) "saturating_add (tl_gas_used t) (tx_gas tx) > si_block_gas_limit (bf_input facts)"
      "t' = t\<lparr>tl_failed := saturating_add (tl_failed t) 1, tl_receipts := tl_receipts t @
        [\<lparr>rc_status_code = receipt_status_as_u32 OutOfBlockGas, rc_gas_used = 0, rc_kind = tx_kind_code tx\<rparr>]\<rparr>" "s' = s"
  | (applied) "saturating_add (tl_gas_used t) (tx_gas tx) \<le> si_block_gas_limit (bf_input facts)"
      "apply_transaction E facts (tx_fee facts tx) tx s = Inr s'"
      "t' = t\<lparr>tl_applied := saturating_add (tl_applied t) 1,
         tl_gas_used := saturating_add (tl_gas_used t) (tx_gas tx),
         tl_proposer_fee := (if tx_charges_fee tx then saturating_add (tl_proposer_fee t) (tx_fee facts tx)
                             else tl_proposer_fee t),
         tl_receipts := tl_receipts t @
           [\<lparr>rc_status_code = receipt_status_as_u32 Success, rc_gas_used = tx_gas tx, rc_kind = tx_kind_code tx\<rparr>]\<rparr>"
  | (failed) f chargd where "saturating_add (tl_gas_used t) (tx_gas tx) \<le> si_block_gas_limit (bf_input facts)"
      "apply_transaction E facts (tx_fee facts tx) tx s = Inl f" "charge_of E tx (tx_fee facts tx) f s = (chargd, s')"
      "t' = t\<lparr>tl_failed := saturating_add (tl_failed t) 1,
         tl_gas_used := saturating_add (tl_gas_used t) (tx_gas tx),
         tl_proposer_fee := saturating_add (tl_proposer_fee t) chargd,
         tl_receipts := tl_receipts t @
           [\<lparr>rc_status_code = receipt_status_as_u32 (status f), rc_gas_used = tx_gas tx, rc_kind = tx_kind_code tx\<rparr>]\<rparr>"
  using assms unfolding execute_one_def Let_def charge_of_def [symmetric]
  by (auto simp: not_less split: if_splits sum.splits prod.splits)

context borsh
begin

lemma transaction_contract:
  "tx_sender tx = Some p \<Longrightarrow>
     signed_handler E (\<lambda>s. apply_transaction E facts fee tx s) p (tx_nonce tx) fee"
  by (cases tx)
    (auto intro: transfer.signed_handler_axioms stake.signed_handler_axioms unstake.signed_handler_axioms
      deposit.signed_handler_axioms exit.signed_handler_axioms withdraw.signed_handler_axioms
      register.signed_handler_axioms propose.signed_handler_axioms vote.signed_handler_axioms
      policy.signed_handler_axioms)

text \<open>Staking transactions leave the governance records alone.\<close>

lemma staking_frame:
  assumes run: "apply_transaction E facts fee tx s = Inr s'" and st: "\<not> governance_tx tx"
  shows "frame {k. \<not> governance_key k} s s'"
proof (cases tx)
  case (Transfer t)
  then have "apply_transfer E s (si_chain_id (bf_input facts)) fee t = Inr s'" using run by simp
  from transfer_effect [OF this] show ?thesis by (auto elim: frame_mono)
next
  case (Stake t)
  then have "apply_stake E s (si_chain_id (bf_input facts)) (si_block_height (bf_input facts)) fee
      (bf_min_validator_stake facts) t = Inr s'" using run by simp
  then show ?thesis by (rule stake_run) (auto intro: frame_mono [OF bond_effect(6)])
next
  case (Deposit t)
  then have "apply_deposit E s (si_chain_id (bf_input facts)) (si_block_height (bf_input facts)) fee
      (bf_min_validator_stake facts) t = Inr s'" using run by simp
  then show ?thesis by (rule deposit_run) (auto intro: frame_mono [OF bond_effect(6)])
next
  case (Unstake t)
  then have "apply_unstake E s (si_chain_id (bf_input facts)) (si_block_height (bf_input facts))
      (ea_unbonding_delay_blocks (si_evidence_anchor (bf_input facts))) fee (bf_min_validator_stake facts) t = Inr s'"
    using run by simp
  then show ?thesis by (rule unstake_run) (rule frame_mono [OF unbond_effect(6)]; auto)
next
  case (VoluntaryExit t)
  then have "apply_voluntary_exit E s (si_chain_id (bf_input facts)) (si_block_height (bf_input facts))
      (ea_unbonding_delay_blocks (si_evidence_anchor (bf_input facts))) fee t = Inr s'"
    using run by simp
  then show ?thesis by (rule voluntary_exit_run) (rule frame_mono [OF unbond_effect(6)]; auto)
next
  case (Withdraw t)
  then have "apply_withdraw E s (si_chain_id (bf_input facts)) (si_block_height (bf_input facts))
      (bf_backlog facts) fee t = Inr s'" using run by simp
  then show ?thesis by (rule frame_mono [OF withdraw_effect(5)]) auto
next
  case (RegisterValidator t)
  then have "apply_register_validator E s (si_chain_id (bf_input facts)) (si_block_height (bf_input facts)) fee
      (bf_min_validator_stake facts) t = Inr s'" using run by simp
  then show ?thesis by (rule frame_mono [OF register_effect(5)]) auto
qed (use run st in auto)

lemma transaction_governance:
  assumes run: "apply_transaction E facts fee tx s = Inr s'"
    and inv: "governance_inv E (bc_anchor (bf_governance facts)) s"
  shows "governance_inv E (bc_anchor (bf_governance facts)) s'"
proof (cases "governance_tx tx")
  case True
  then show ?thesis
    using run inv propose_governance_inv propose_policy_governance_inv vote_governance_inv
    by (cases tx) auto
next
  case False
  then show ?thesis
    using inv governance_inv_frame [OF staking_frame [OF run False]] by simp
qed

end

text \<open>The obligations left by the mandatory phase fit the queue bound of the policy in force.\<close>

definition queue_fits :: "externals \<Rightarrow> block_facts \<Rightarrow> state \<Rightarrow> bool" where
  "queue_fits E facts s \<longleftrightarrow>
     bc_pending_sanctions (bf_governance facts) \<le> unat (evidence_max_pending (load_runtime_policy E s))"

definition block_inv :: "externals \<Rightarrow> block_facts \<Rightarrow> state \<Rightarrow> bool" where
  "block_inv E facts s \<longleftrightarrow>
     staking_inv E s \<and> mandatory_inv E s \<and> governance_inv E (bc_anchor (bf_governance facts)) s
     \<and> queue_fits E facts s"

context borsh
begin

lemma settle_queue_fits:
  assumes "queue_fits E facts s"
    and "\<And>q. up_action p = Policy q \<Longrightarrow> proposal_quorum_reached p vs \<Longrightarrow> policy_enactable (bf_governance facts) q"
  shows "queue_fits E facts (settle E s p vs)"
  using assms by (auto simp: queue_fits_def settle_loads policy_enactable_def split: proposal_action.splits)

lemma store_account_queue_fits [simp]: "queue_fits E facts (store_account E s a x) = queue_fits E facts s"
  by (simp add: queue_fits_def slot_ops)

lemma transaction_queue_fits:
  assumes run: "apply_transaction E facts fee tx s = Inr s'" and fits: "queue_fits E facts s"
  shows "queue_fits E facts s'"
proof (cases "governance_tx tx")
  case False
  have "load_runtime_policy E s' = load_runtime_policy E s"
    by (rule frame_loads(9) [OF staking_frame [OF run False]]) simp
  then show ?thesis using fits by (simp add: queue_fits_def)
next
  case True
  then consider (p) t where "tx = ProposeUpgrade t" | (v) t where "tx = VoteUpgrade t" | (q) t where "tx = ProposePolicy t"
    by (cases tx) auto
  then show ?thesis
  proof cases
    case p
    then have "apply_propose E s (si_chain_id (bf_input facts)) (bf_governance facts) fee t = Inr s'"
      using run by simp
    note s' = propose_run(2) [OF this]
    show ?thesis unfolding s' using fits by (intro settle_queue_fits) (simp_all add: propose_upgrade_action_def)
  next
    case q
    then have "apply_propose_policy E s (si_chain_id (bf_input facts)) (bf_governance facts) fee t = Inr s'"
      using run by simp
    note s' = propose_policy_run(2) [OF this] and ena = propose_policy_run(3) [OF this]
    show ?thesis unfolding s' using fits ena by (intro settle_queue_fits) simp_all
  next
    case v
    have run': "apply_vote E s (si_chain_id (bf_input facts)) (bf_governance facts) fee t = Inr s'"
      using run v by simp
    then show ?thesis
    proof (rule vote_run)
      fix p
      let ?vs = "governance_set E s (Some (bc_height (bf_governance facts)))"
      assume ena: "case up_action p of
          Policy policy \<Rightarrow> proposal_quorum_reached (add_voter (vu_voter t) p) ?vs
            \<longrightarrow> policy_enactable (bf_governance facts) policy
        | Programs _ _ _ \<Rightarrow> True"
        and s': "s' = settle E (store_account E s (vu_voter t)
            \<lparr>nonce = saturating_add (nonce (load_account E s (vu_voter t))) 1,
             balance = balance (load_account E s (vu_voter t)) - fee\<rparr>) (add_voter (vu_voter t) p) ?vs"
      have "up_action (add_voter (vu_voter t) p) = up_action p" by (simp add: add_voter_def Let_def)
      then show ?thesis unfolding s' using fits ena by (intro settle_queue_fits) (auto split: proposal_action.splits)
    qed
  qed
qed

lemma mandatory_frame_inv:
  assumes "frame {k. \<not> mandatory_key k} s s'"
  shows "mandatory_inv E s' = mandatory_inv E s"
  by (rule mandatory_inv_frame [OF assms]) simp_all

text \<open>An account update moves no invariant.\<close>

lemma account_frame_inv:
  assumes frm: "frame {KAccount p} s s'" and inv: "block_inv E facts s"
  shows "block_inv E facts s'"
proof -
  have "load_runtime_policy E s' = load_runtime_policy E s" by (rule frame_loads(9) [OF frm]) simp
  then show ?thesis
    using inv staking_inv_frame [OF frm] mandatory_inv_frame [OF frm] governance_inv_frame [OF frm]
    by (simp add: block_inv_def queue_fits_def)
qed

lemma frame_charge_failure: "frame {KAccount p} s (snd (charge_failure E s p fee))"
  by (auto simp: charge_failure_def Let_def intro!: frame_stores)

lemma charge_failure_effect:
  assumes "fee \<le> balance (load_account E s p)"
  shows "fst (charge_failure E s p fee) = fee"
    and "total_funds E (snd (charge_failure E s p fee)) + unat fee = total_funds E s"
    and "nonce (load_account E (snd (charge_failure E s p fee)) p) = saturating_add (nonce (load_account E s p)) 1"
proof -
  let ?s' = "snd (charge_failure E s p fee)"
  let ?x = "\<lparr>nonce = saturating_add (nonce (load_account E s p)) 1, balance = balance (load_account E s p) - fee\<rparr>"
  have mn: "min fee (balance (load_account E s p)) = fee" using assms by (simp add: min_def)
  then show "fst (charge_failure E s p fee) = fee" by (simp add: charge_failure_def Let_def)
  have la: "load_account E ?s' = (load_account E s)(p := ?x)"
    by (rule ext) (simp add: charge_failure_def Let_def mn slot_ops)
  then show "nonce (load_account E ?s' p) = saturating_add (nonce (load_account E s p)) 1" by simp
  have lv: "load_validator E ?s' = load_validator E s" and lq: "load_withdrawal_queue E ?s' = load_withdrawal_queue E s"
    by (rule ext, simp add: charge_failure_def Let_def slot_ops)+
  have "unat (balance (load_account E s p) - fee) + unat fee = unat (balance (load_account E s p))"
    using assms by (simp add: unat_sub_exact word_le_nat_alt)
  then show "total_funds E ?s' + unat fee = total_funds E s"
    using total_balance_upd [OF la] total_same(2) [OF lv] total_same(3) [OF lq] by (simp add: total_funds_def)
qed

subsection \<open>One transaction of a block\<close>

text \<open>What a transaction that ran its handler leaves behind, whichever way it ended.\<close>

lemma applied_effect:
  assumes run: "apply_transaction E facts fee tx s = Inr s'" and bound: "total_funds E s < 2 ^ 128"
  shows "frame {k. \<not> mandatory_key k} s s'"
    and "total_funds E s' + (if tx_charges_fee tx then unat fee else 0) = total_funds E s"
    and "staking_inv E s \<Longrightarrow> staking_inv E s'"
proof -
  have "frame {k. \<not> mandatory_key k} s s'
      \<and> total_funds E s' + (if tx_charges_fee tx then unat fee else 0) = total_funds E s
      \<and> (staking_inv E s \<longrightarrow> staking_inv E s')"
  proof (cases "tx_sender tx")
    case None
    then show ?thesis using run unsigned_applies [OF None, of E facts fee s] by (simp add: charges_fee_iff)
  next
    case (Some p)
    note h = transaction_contract [OF Some, of facts fee]
    show ?thesis
      using signed_handler.success_inv [OF h run] signed_handler.success_frame [OF h run]
        signed_handler.success_funds [OF h run bound] Some
      by (simp add: charges_fee_iff)
  qed
  then show "frame {k. \<not> mandatory_key k} s s'"
    and "total_funds E s' + (if tx_charges_fee tx then unat fee else 0) = total_funds E s"
    and "staking_inv E s \<Longrightarrow> staking_inv E s'" by simp_all
qed

lemma applied_keeps:
  assumes run: "apply_transaction E facts fee tx s = Inr s'" and inv: "block_inv E facts s"
    and bound: "total_funds E s < 2 ^ 128"
  shows "block_inv E facts s'"
  using applied_effect [OF run bound] inv mandatory_frame_inv [of s s'] transaction_governance [OF run]
    transaction_queue_fits [OF run]
  by (simp add: block_inv_def)

lemma failed_payer:
  assumes "apply_transaction E facts fee tx s = Inl f" and "payer f = Some p"
  shows "tx_sender tx = Some p \<and> authorized E s p (tx_nonce tx) fee"
proof (cases "tx_sender tx")
  case None
  then show ?thesis using assms unsigned_applies [OF None, of E facts fee s] by simp
next
  case (Some q)
  show ?thesis
    using signed_handler.failure_payer [OF transaction_contract [OF Some, of facts fee] assms] Some by simp
qed

lemma failed_effect:
  assumes run: "apply_transaction E facts fee tx s = Inl f" and c: "charge_of E tx fee f s = (chargd, s')"
  shows "total_funds E s' + unat chargd = total_funds E s" and "\<exists>p. frame {KAccount p} s s'"
    and "payer f = Some p \<Longrightarrow> chargd = fee \<and> tx_sender tx = Some p
      \<and> nonce (load_account E s p) = tx_nonce tx \<and> nonce (load_account E s' p) = saturating_add (tx_nonce tx) 1"
    and "payer f = None \<Longrightarrow> s' = s"
proof -
  have "total_funds E s' + unat chargd = total_funds E s \<and> (\<exists>p. frame {KAccount p} s s')
      \<and> (\<forall>p. payer f = Some p \<longrightarrow> chargd = fee \<and> tx_sender tx = Some p
        \<and> nonce (load_account E s p) = tx_nonce tx \<and> nonce (load_account E s' p) = saturating_add (tx_nonce tx) 1)"
  proof (cases "payer f")
    case None
    then show ?thesis using c by (auto simp: charge_of_def intro: exI [of _ 0])
  next
    case (Some p)
    note pay = failed_payer [OF run Some]
    then have eq: "chargd = fst (charge_failure E s p fee)" "s' = snd (charge_failure E s p fee)"
      using c Some by (auto simp: charge_of_def charges_fee_iff)
    have le: "fee \<le> balance (load_account E s p)" using pay by (simp add: authorized_def)
    show ?thesis
      using charge_failure_effect [OF le] frame_charge_failure [of p s fee] pay Some
      unfolding eq by (auto simp: authorized_def)
  qed
  then show "total_funds E s' + unat chargd = total_funds E s" and "\<exists>p. frame {KAccount p} s s'"
    and "payer f = Some p \<Longrightarrow> chargd = fee \<and> tx_sender tx = Some p
      \<and> nonce (load_account E s p) = tx_nonce tx \<and> nonce (load_account E s' p) = saturating_add (tx_nonce tx) 1"
    by simp_all
  show "payer f = None \<Longrightarrow> s' = s" using c by (simp add: charge_of_def)
qed

lemma saturating_fee:
  fixes fee acc :: u128
  assumes "T' + unat fee = T" and "T + unat acc < 2 ^ 128"
  shows "T' + unat (saturating_add acc fee) = T + unat acc"
  using assms by (subst saturating_add_exact) auto

lemma execute_one_funds:
  assumes run: "execute_one E facts tx t s = (t', s')"
    and bound: "total_funds E s + unat (tl_proposer_fee t) < 2 ^ 128"
  shows "frame {k. \<not> mandatory_key k} s s'"
    and "total_funds E s' + unat (tl_proposer_fee t') = total_funds E s + unat (tl_proposer_fee t)"
proof -
  have b: "total_funds E s < 2 ^ 128" using bound by simp
  have "frame {k. \<not> mandatory_key k} s s'
      \<and> total_funds E s' + unat (tl_proposer_fee t') = total_funds E s + unat (tl_proposer_fee t)"
    using run
  proof (cases rule: execute_one_cases)
    case applied
    note e = applied_effect [OF applied(2) b]
    show ?thesis
      using e saturating_fee [of "total_funds E s'" "tx_fee facts tx" "total_funds E s" "tl_proposer_fee t"] bound
      by (auto simp: applied(3))
  next
    case (failed f chargd)
    note e = failed_effect [OF failed(2,3)]
    obtain p where "frame {KAccount p} s s'" using e(2) ..
    then have "frame {k. \<not> mandatory_key k} s s'" by (rule frame_mono) auto
    then show ?thesis using saturating_fee [OF e(1), of "tl_proposer_fee t"] bound by (simp add: failed(4))
  qed simp
  then show "frame {k. \<not> mandatory_key k} s s'"
    and "total_funds E s' + unat (tl_proposer_fee t') = total_funds E s + unat (tl_proposer_fee t)" by simp_all
qed

lemma execute_one_keeps:
  assumes run: "execute_one E facts tx t s = (t', s')" and inv: "block_inv E facts s"
    and bound: "total_funds E s + unat (tl_proposer_fee t) < 2 ^ 128"
  shows "block_inv E facts s' \<and> frame {k. \<not> mandatory_key k} s s'
    \<and> total_funds E s' + unat (tl_proposer_fee t') = total_funds E s + unat (tl_proposer_fee t)"
proof -
  have "block_inv E facts s'"
    using run
  proof (cases rule: execute_one_cases)
    case applied
    show ?thesis by (rule applied_keeps [OF applied(2) inv]) (use bound in simp)
  next
    case (failed f chargd)
    then show ?thesis using failed_effect(2) [OF failed(2,3)] account_frame_inv [OF _ inv] by blast
  qed (use inv in simp)
  then show ?thesis using execute_one_funds [OF run bound] by simp
qed

lemma execute_transactions_keeps:
  assumes "execute_transactions E facts txs t s = (t', s')" and "block_inv E facts s"
    and "total_funds E s + unat (tl_proposer_fee t) < 2 ^ 128"
  shows "block_inv E facts s' \<and> frame {k. \<not> mandatory_key k} s s'
    \<and> total_funds E s' + unat (tl_proposer_fee t') = total_funds E s + unat (tl_proposer_fee t)"
  using assms
proof (induction txs arbitrary: t s)
  case (Cons tx txs)
  obtain t1 s1 where one: "execute_one E facts tx t s = (t1, s1)" by (metis surj_pair)
  note k = execute_one_keeps [OF one Cons.prems(2,3)]
  have rest: "execute_transactions E facts txs t1 s1 = (t', s')" using Cons.prems(1) one by simp
  have b1: "total_funds E s1 + unat (tl_proposer_fee t1) < 2 ^ 128" using k Cons.prems(3) by simp
  note r = Cons.IH [OF rest conjunct1 [OF k] b1]
  have "frame ({k. \<not> mandatory_key k} \<union> {k. \<not> mandatory_key k}) s s'"
    using k r by (intro frame_trans) auto
  then show ?case using k r by simp
qed simp

subsection \<open>Participation and fees\<close>

lemma participation_effect:
  assumes "apply_participation E s report = (c, s')"
  shows "frame ({KParticipation} \<union> range KAbsent) s s'" and "mandatory_inv E s \<Longrightarrow> mandatory_inv E s'"
proof -
  from assms have s': "s' = s \<or> (\<exists>r e. s' = s(key_bytes KParticipation \<mapsto> enc (participation_codec E) r,
      key_bytes (KAbsent (pr_chunk_id r)) \<mapsto> enc (addresses_codec E) (pr_absent r)) \<or>
      s' = s(key_bytes KParticipation \<mapsto> enc (participation_codec E) r,
      key_bytes (KAbsent (pr_chunk_id r)) \<mapsto> enc (addresses_codec E) (pr_absent r), key_bytes (KAbsent e) := None))"
    by (auto simp: apply_participation_def Let_def write_record_def delete_def split: option.splits if_splits)
  then show "frame ({KParticipation} \<union> range KAbsent) s s'" by (auto intro!: frame_upd)
  show "mandatory_inv E s'" if "mandatory_inv E s"
    using s' that
    by (auto simp: mandatory_inv_def buckets_ok_def queue_ok_def totals_ok_def absences_ok_def split: if_splits)
qed

lemma participation_keeps:
  assumes "apply_participation E s report = (c, s')"
  shows "coin_supply E s' = coin_supply E s" and "staking_inv E s' = staking_inv E s"
    and "governance_inv E a s' = governance_inv E a s" and "load_runtime_policy E s' = load_runtime_policy E s"
    and "queue_of E s' = queue_of E s" and "\<And>p. s' (key_bytes (KSlashed p)) = s (key_bytes (KSlashed p))"
proof -
  note frm = participation_effect(1) [OF assms]
  show "coin_supply E s' = coin_supply E s" by (rule coin_supply_frame [OF frm]) auto
  show "staking_inv E s' = staking_inv E s" by (rule staking_inv_frame [OF frm]) auto
  show "governance_inv E a s' = governance_inv E a s" by (rule governance_inv_frame [OF frm]) auto
  show "load_runtime_policy E s' = load_runtime_policy E s" by (rule frame_loads(9) [OF frm]) auto
  show "queue_of E s' = queue_of E s" by (rule frame_queue_loads(1) [OF frm]) auto
  show "\<And>p. s' (key_bytes (KSlashed p)) = s (key_bytes (KSlashed p))" by (rule frame_key [OF frm]) auto
qed

lemma frame_credit_proposer: "frame {KAccount p} s (credit_proposer E s p fee)"
  by (auto simp: credit_proposer_def Let_def intro!: frame_stores)

lemma credit_proposer_funds:
  assumes "total_funds E s + unat fee < 2 ^ 128"
  shows "total_funds E (credit_proposer E s p fee) = total_funds E s + unat fee"
proof (cases "fee = 0")
  case False
  let ?s' = "credit_proposer E s p fee" and ?acc = "load_account E s p"
  have la: "load_account E ?s' = (load_account E s)(p := ?acc\<lparr>balance := saturating_add (balance ?acc) fee\<rparr>)"
    using False by (auto simp: credit_proposer_def Let_def slot_ops fun_eq_iff)
  have lv: "load_validator E ?s' = load_validator E s" and lq: "load_withdrawal_queue E ?s' = load_withdrawal_queue E s"
    using False by (auto simp: credit_proposer_def Let_def slot_ops fun_eq_iff)
  have "unat (balance ?acc) + unat fee < 2 ^ 128"
    using account_le_total(1) [of E s p] assms by (simp add: total_funds_def)
  then have "unat (saturating_add (balance ?acc) fee) = unat (balance ?acc) + unat fee"
    by (simp add: saturating_add_exact)
  then show ?thesis
    using total_balance_upd [OF la] total_same(2) [OF lv] total_same(3) [OF lq] by (simp add: total_funds_def)
qed (simp add: credit_proposer_def)

lemma expire_keeps:
  shows "coin_supply E (expire E s c) = coin_supply E s" and "staking_inv E (expire E s c) = staking_inv E s"
    and "mandatory_inv E (expire E s c) = mandatory_inv E s" and "queue_of E (expire E s c) = queue_of E s"
    and "load_runtime_policy E (expire E s c) = load_runtime_policy E s"
    and "total_funds E (expire E s c) = total_funds E s"
  by (rule coin_supply_frame [OF frame_expire] staking_inv_frame [OF frame_expire]
      mandatory_inv_frame [OF frame_expire] frame_queue_loads(1) [OF frame_expire]
      frame_loads(9) [OF frame_expire] frame_funds [OF frame_expire]; simp)+

subsection \<open>Blocks\<close>

lemma block_split:
  assumes "apply_block E root input s = Inr (out, s')"
  obtains c s1 m s2 tr sm t s4 where
    "check_admissions E (si_chain_id input) (si_block_height input) (si_evidence_anchor input)
       (si_transactions input) = Inr ()"
    "apply_participation E s (si_participation input) = (c, s1)"
    "accountability_apply E input s1 (load_runtime_policy E s) = Inr (m, s2)"
    "transaction_commitments E (si_transactions input) = Inr (tr, sm)"
    "execute_transactions E (block_facts_of input (load_runtime_policy E s) m) (si_transactions input)
       (initial_tally m) (expire E s2 (ea_chunk_id (si_evidence_anchor input))) = (t, s4)"
    "s' = credit_proposer E s4 (si_proposer_address input) (tl_proposer_fee t)"
    "out = \<lparr>so_accountability = mn_output m, so_chain_id = si_chain_id input,
       so_block_height = si_block_height input, so_block_gas_limit = si_block_gas_limit input,
       so_gas_price = gas_price (load_runtime_policy E s), so_proposer_address = si_proposer_address input,
       so_participation = c, so_transactions_root = tr,
       so_transaction_summary = sm, so_pre_state_root = root s, so_post_state_root = root s',
       so_applied = tl_applied t, so_failed = tl_failed t,
       so_validator_set_root = candidates_root E (load_consensus_candidates E s'),
       so_gas_used = tl_gas_used t, so_receipts_root = compute_receipts_root E (tl_receipts t)\<rparr>"
proof -
  obtain c s1 where part: "apply_participation E s (si_participation input) = (c, s1)" by (metis surj_pair)
  from assms part obtain m s2 tr sm where
    chk: "check_admissions E (si_chain_id input) (si_block_height input) (si_evidence_anchor input)
      (si_transactions input) = Inr ()"
    and acc: "accountability_apply E input s1 (load_runtime_policy E s) = Inr (m, s2)"
    and com: "transaction_commitments E (si_transactions input) = Inr (tr, sm)"
    by (auto simp: apply_block_def validate_input_def try_validate_input_def apply_block_validated_def
        res_bind_Inr_iff Let_def)
  obtain t s4 where ex: "execute_transactions E (block_facts_of input (load_runtime_policy E s) m)
      (si_transactions input) (initial_tally m) (expire E s2 (ea_chunk_id (si_evidence_anchor input))) = (t, s4)"
    by (metis surj_pair)
  show ?thesis
    by (rule that [OF chk part acc com ex])
      (use assms in \<open>auto simp: apply_block_def validate_input_def try_validate_input_def
        apply_block_validated_def chk part acc com ex Let_def\<close>)
qed

lemma block_middle:
  assumes run: "accountability_apply E input s1 policy = Inr (m, s2)"
    and policy: "policy = load_runtime_policy E s1"
    and inv: "staking_inv E s1" "mandatory_inv E s1" "governance_inv E (si_evidence_anchor input) s1"
    and bound: "coin_supply E s1 < 2 ^ 128"
  defines "s3 \<equiv> expire E s2 (ea_chunk_id (si_evidence_anchor input))"
  shows "block_inv E (block_facts_of input policy m) s3" and "coin_supply E s3 = coin_supply E s1"
    and "s3 (key_bytes KQueue) = s2 (key_bytes KQueue)"
    and "\<And>p. s3 (key_bytes (KSlashed p)) = s2 (key_bytes (KSlashed p))"
proof -
  note k = phase_keeps [OF run inv(2) bound] and q = phase_queue [OF run inv(2) bound]
  have pol: "load_runtime_policy E s2 = policy"
    using frame_loads(9) [OF k(4)] policy by simp
  have "governance_inv E (si_evidence_anchor input) s2"
    using governance_inv_frame [OF k(4)] inv(3) by simp
  then have "governance_inv E (si_evidence_anchor input) s3"
    unfolding s3_def by (rule expire_governance_inv)
  moreover have "bl_count (mn_backlog m) \<le> unat (evidence_max_pending (load_runtime_policy E s3))"
    using q(3,4) pol by (simp add: s3_def expire_keeps backlog_of_def)
  ultimately show "block_inv E (block_facts_of input policy m) s3"
    using k(2) [OF inv(1)] k(3)
    by (simp add: block_inv_def queue_fits_def block_facts_of_def s3_def expire_keeps)
  show "coin_supply E s3 = coin_supply E s1" using k(1) by (simp add: s3_def expire_keeps)
  show "s3 (key_bytes KQueue) = s2 (key_bytes KQueue)"
    unfolding s3_def by (rule frame_key [OF frame_expire]) simp
  show "\<And>p. s3 (key_bytes (KSlashed p)) = s2 (key_bytes (KSlashed p))"
    unfolding s3_def by (rule frame_key [OF frame_expire]) simp
qed

lemma block_keeps:
  assumes run: "apply_block E root input s = Inr (out, s')"
    and inv: "staking_inv E s" "mandatory_inv E s" "governance_inv E (si_evidence_anchor input) s"
    and bound: "coin_supply E s < 2 ^ 128"
  shows "coin_supply E s' = coin_supply E s" and "staking_inv E s'" and "mandatory_inv E s'"
    and "governance_inv E (si_evidence_anchor input) s'"
    and "\<exists>m s1 s2. apply_participation E s (si_participation input) = (so_participation out, s1)
      \<and> accountability_apply E input s1 (load_runtime_policy E s) = Inr (m, s2)
      \<and> so_accountability out = mn_output m
      \<and> s' (key_bytes KQueue) = s2 (key_bytes KQueue) \<and> (\<forall>p. s' (key_bytes (KSlashed p)) = s2 (key_bytes (KSlashed p)))
      \<and> bl_count (mn_backlog m) \<le> unat (evidence_max_pending (load_runtime_policy E s'))"
proof -
  from run obtain c s1 m s2 tr sm t s4 where
    part: "apply_participation E s (si_participation input) = (c, s1)"
    and acc: "accountability_apply E input s1 (load_runtime_policy E s) = Inr (m, s2)"
    and ex: "execute_transactions E (block_facts_of input (load_runtime_policy E s) m) (si_transactions input)
       (initial_tally m) (expire E s2 (ea_chunk_id (si_evidence_anchor input))) = (t, s4)"
    and s': "s' = credit_proposer E s4 (si_proposer_address input) (tl_proposer_fee t)"
    and out: "so_accountability out = mn_output m" "so_participation out = c"
    by (rule block_split) simp
  let ?F = "block_facts_of input (load_runtime_policy E s) m"
  let ?s3 = "expire E s2 (ea_chunk_id (si_evidence_anchor input))"
  note pk = participation_keeps [OF part]
  have inv1: "staking_inv E s1" "mandatory_inv E s1" "governance_inv E (si_evidence_anchor input) s1"
    "coin_supply E s1 < 2 ^ 128"
    using inv bound pk participation_effect(2) [OF part] by simp_all
  note mid = block_middle [OF acc pk(4) [symmetric] inv1]
  have b3: "total_funds E ?s3 + unat (tl_proposer_fee (initial_tally m)) < 2 ^ 128"
    using mid(2) inv1(4) by (simp add: initial_tally_def coin_supply_def)
  note et = execute_transactions_keeps [OF ex mid(1) b3]
  have "total_funds E s4 + unat (tl_proposer_fee t) < 2 ^ 128" using et b3 by simp
  note cp = credit_proposer_funds [OF this, of "si_proposer_address input"]
  have frm4: "frame {k. \<not> mandatory_key k} ?s3 s4" using et by simp
  have frm: "frame {k. \<not> mandatory_key k} ?s3 s'"
    unfolding s' using frame_trans [OF frm4 frame_credit_proposer] by (rule frame_mono) auto
  have "totals_of E s' = totals_of E ?s3" by (rule frame_queue_loads(2) [OF frm]) simp
  moreover have "total_funds E s' = total_funds E ?s3" using cp et by (simp add: s' initial_tally_def)
  ultimately show "coin_supply E s' = coin_supply E s" using mid(2) pk(1) by (simp add: coin_supply_def)
  have b: "block_inv E ?F s'"
    unfolding s' by (rule account_frame_inv [OF frame_credit_proposer]) (use et in simp)
  then show "staking_inv E s'" "mandatory_inv E s'" "governance_inv E (si_evidence_anchor input) s'"
    by (simp_all add: block_inv_def block_facts_of_def)
  have "s' (key_bytes KQueue) = s2 (key_bytes KQueue)" using frame_key [OF frm, of KQueue] mid(3) by simp
  moreover have "s' (key_bytes (KSlashed p)) = s2 (key_bytes (KSlashed p))" for p
    using frame_key [OF frm, of "KSlashed p"] mid(4) by simp
  moreover have "bl_count (mn_backlog m) \<le> unat (evidence_max_pending (load_runtime_policy E s'))"
    using b by (simp add: block_inv_def queue_fits_def block_facts_of_def)
  ultimately show "\<exists>m s1 s2. apply_participation E s (si_participation input) = (so_participation out, s1)
      \<and> accountability_apply E input s1 (load_runtime_policy E s) = Inr (m, s2)
      \<and> so_accountability out = mn_output m
      \<and> s' (key_bytes KQueue) = s2 (key_bytes KQueue) \<and> (\<forall>p. s' (key_bytes (KSlashed p)) = s2 (key_bytes (KSlashed p)))
      \<and> bl_count (mn_backlog m) \<le> unat (evidence_max_pending (load_runtime_policy E s'))"
    using part acc out by blast
qed

end

subsection \<open>Gas and receipts\<close>

lemma execute_one_receipt:
  assumes "execute_one E facts tx t s = (t', s')"
  obtains r where "tl_receipts t' = tl_receipts t @ [r]" "rc_kind r = tx_kind_code tx"
    "rc_gas_used r = tx_gas tx \<and> saturating_add (tl_gas_used t) (tx_gas tx) \<le> si_block_gas_limit (bf_input facts)
       \<or> rc_gas_used r = 0 \<and> rc_status_code r = receipt_status_as_u32 OutOfBlockGas"
    "tl_gas_used t' = (if rc_gas_used r = 0 then tl_gas_used t else saturating_add (tl_gas_used t) (rc_gas_used r))"
    "saturating_add (tl_gas_used t) (rc_gas_used r) \<le> si_block_gas_limit (bf_input facts) \<or> rc_gas_used r = 0"
    "tl_applied t' = saturating_add (tl_applied t) 1 \<and> tl_failed t' = tl_failed t
     \<or> tl_applied t' = tl_applied t \<and> tl_failed t' = saturating_add (tl_failed t) 1"
  using assms
proof (cases rule: execute_one_cases)
  case skipped
  then show ?thesis by (intro that [of "\<lparr>rc_status_code = receipt_status_as_u32 OutOfBlockGas, rc_gas_used = 0,
      rc_kind = tx_kind_code tx\<rparr>"]) simp_all
next
  case applied
  have "tx_gas tx \<noteq> 0" by (cases tx) (simp_all add: GAS_TRANSFER_def GAS_STAKE_def GAS_UNSTAKE_def GAS_DEPOSIT_def
      GAS_VOLUNTARY_EXIT_def GAS_WITHDRAW_def GAS_REGISTER_VALIDATOR_def GAS_EVIDENCE_ADMISSION_def
      GAS_PROPOSE_UPGRADE_def GAS_VOTE_UPGRADE_def)
  with applied show ?thesis by (intro that [of "\<lparr>rc_status_code = receipt_status_as_u32 Success,
      rc_gas_used = tx_gas tx, rc_kind = tx_kind_code tx\<rparr>"]) simp_all
next
  case (failed f chargd)
  have "tx_gas tx \<noteq> 0" by (cases tx) (simp_all add: GAS_TRANSFER_def GAS_STAKE_def GAS_UNSTAKE_def GAS_DEPOSIT_def
      GAS_VOLUNTARY_EXIT_def GAS_WITHDRAW_def GAS_REGISTER_VALIDATOR_def GAS_EVIDENCE_ADMISSION_def
      GAS_PROPOSE_UPGRADE_def GAS_VOTE_UPGRADE_def)
  with failed show ?thesis by (intro that [of "\<lparr>rc_status_code = receipt_status_as_u32 (status f),
      rc_gas_used = tx_gas tx, rc_kind = tx_kind_code tx\<rparr>"]) simp_all
qed

definition gas_sum :: "receipt list \<Rightarrow> nat" where
  "gas_sum rs = sum_list (map (\<lambda>r. unat (rc_gas_used r)) rs)"

lemma execute_transactions_gas:
  assumes "execute_transactions E facts txs t s = (t', s')"
    and "tl_gas_used t \<le> si_block_gas_limit (bf_input facts)" and "si_block_gas_limit (bf_input facts) \<noteq> - 1"
    and "unat (tl_applied t) + unat (tl_failed t) + length txs < 2 ^ 32"
  shows "tl_gas_used t' \<le> si_block_gas_limit (bf_input facts) \<and>
    (\<exists>new. tl_receipts t' = tl_receipts t @ new \<and> map rc_kind new = map tx_kind_code txs
       \<and> unat (tl_gas_used t') = unat (tl_gas_used t) + gas_sum new)
    \<and> unat (tl_applied t') + unat (tl_failed t') = unat (tl_applied t) + unat (tl_failed t) + length txs"
  using assms
proof (induction txs arbitrary: t s)
  case (Cons tx txs)
  let ?L = "si_block_gas_limit (bf_input facts)"
  obtain t1 s1 where one: "execute_one E facts tx t s = (t1, s1)" by (metis surj_pair)
  from one obtain r where r: "tl_receipts t1 = tl_receipts t @ [r]" "rc_kind r = tx_kind_code tx"
    and g: "tl_gas_used t1 = (if rc_gas_used r = 0 then tl_gas_used t else saturating_add (tl_gas_used t) (rc_gas_used r))"
    and le: "saturating_add (tl_gas_used t) (rc_gas_used r) \<le> ?L \<or> rc_gas_used r = 0"
    and n: "tl_applied t1 = saturating_add (tl_applied t) 1 \<and> tl_failed t1 = tl_failed t
      \<or> tl_applied t1 = tl_applied t \<and> tl_failed t1 = saturating_add (tl_failed t) 1"
    by (rule execute_one_receipt) blast
  have L: "unat ?L < 2 ^ 64 - 1"
    using Cons.prems(3) unat_lt [of ?L] unat_max_word [where 'a = 64] by (auto simp: word_unat_eq_iff)
  have g1: "tl_gas_used t1 \<le> ?L" "unat (tl_gas_used t1) = unat (tl_gas_used t) + unat (rc_gas_used r)"
    using g le L Cons.prems(2) by (auto simp: word_le_nat_alt unat_saturating_add min_def split: if_splits)
  have n1: "unat (tl_applied t1) + unat (tl_failed t1) = unat (tl_applied t) + unat (tl_failed t) + 1"
    using n Cons.prems(4) by (auto simp: unat_saturating_add)
  have rest: "execute_transactions E facts txs t1 s1 = (t', s')" using Cons.prems(1) one by simp
  have cnt: "unat (tl_applied t1) + unat (tl_failed t1) + length txs < 2 ^ 32" using n1 Cons.prems(4) by simp
  from Cons.IH [OF rest g1(1) Cons.prems(3) cnt] obtain new where
    new: "tl_receipts t' = tl_receipts t1 @ new" "map rc_kind new = map tx_kind_code txs"
      "unat (tl_gas_used t') = unat (tl_gas_used t1) + gas_sum new"
    and fin: "tl_gas_used t' \<le> ?L"
      "unat (tl_applied t') + unat (tl_failed t') = unat (tl_applied t1) + unat (tl_failed t1) + length txs"
    by blast
  have "tl_receipts t' = tl_receipts t @ (r # new) \<and> map rc_kind (r # new) = map tx_kind_code (tx # txs)
      \<and> unat (tl_gas_used t') = unat (tl_gas_used t) + gas_sum (r # new)"
    using new r g1(2) by (simp add: gas_sum_def)
  then show ?case using fin n1 by (auto intro: exI [of _ "r # new"])
qed (simp add: gas_sum_def)

subsection \<open>Receipts preimage\<close>

lemma receipt_bytes_inject: "receipt_bytes r @ xs = receipt_bytes r' @ ys \<Longrightarrow> r = r' \<and> xs = ys"
  using le_bytes_inject [of 4 "rc_status_code r" "rc_status_code r'"] le_bytes_inject [of 8 "rc_gas_used r" "rc_gas_used r'"]
  by (auto simp: receipt_bytes_def intro!: receipt.equality)

lemma concat_receipts_inject:
  "length rs = length rs' \<Longrightarrow> concat (map receipt_bytes rs) = concat (map receipt_bytes rs') \<Longrightarrow> rs = rs'"
proof (induction rs rs' rule: list_induct2)
  case (Cons r rs r' rs')
  then show ?case using receipt_bytes_inject [of r "concat (map receipt_bytes rs)" r' "concat (map receipt_bytes rs')"] by simp
qed simp

lemma receipts_preimage_inject:
  assumes "receipts_preimage rs = receipts_preimage rs'" and "length rs < 2 ^ 64" and "length rs' < 2 ^ 64"
  shows "rs = rs'"
proof -
  let ?n = "of_nat (length rs) :: u64" and ?m = "of_nat (length rs') :: u64"
  have parts: "le_bytes 8 ?n = le_bytes 8 ?m" "concat (map receipt_bytes rs) = concat (map receipt_bytes rs')"
    using assms(1) by (simp_all add: receipts_preimage_def)
  have "?n = ?m" by (rule le_bytes_inject [OF _ parts(1)]) simp
  then have "unat ?n = unat ?m" by simp
  then have "length rs = length rs'" using assms(2,3) by (simp add: unat_of_nat)
  then show ?thesis using parts(2) by (rule concat_receipts_inject)
qed

subsection \<open>Signatures\<close>

text \<open>The addresses that must sign a transaction, with the signatures it carries for them.\<close>

fun tx_signatures :: "transaction \<Rightarrow> (address \<times> ed25519_signature) list" where
  "tx_signatures (Transfer tx) = [(tr_from tx, tr_signature tx)]"
| "tx_signatures (Stake tx) = [(st_validator tx, st_signature tx)]"
| "tx_signatures (Unstake tx) = [(un_validator tx, un_signature tx)]"
| "tx_signatures (SubmitEvidence _) = []"
| "tx_signatures (Deposit tx) = [(dp_depositor tx, dp_signature tx)]"
| "tx_signatures (VoluntaryExit tx) = [(ve_validator tx, ve_signature tx)]"
| "tx_signatures (Withdraw tx) = [(wt_validator tx, wt_signature tx)]"
| "tx_signatures (RegisterValidator tx) =
     [(rv_depositor tx, rv_signature tx), (rv_validator tx, rv_validator_signature tx)]"
| "tx_signatures (ProposeUpgrade tx) = [(pu_proposer tx, pu_signature tx)]"
| "tx_signatures (VoteUpgrade tx) = [(vu_voter tx, vu_signature tx)]"
| "tx_signatures (ProposePolicy tx) = [(pp_proposer tx, pp_signature tx)]"

definition tx_signed :: "externals \<Rightarrow> u64 \<Rightarrow> transaction \<Rightarrow> bool" where
  "tx_signed E chain_id tx \<longleftrightarrow>
     (case signed_message E chain_id tx of
        None \<Rightarrow> False
      | Some m \<Rightarrow> tx_signatures tx \<noteq> [] \<and> list_all (\<lambda>(a, sig). verify_signature E a m sig) (tx_signatures tx))"

lemma sender_signs: "tx_sender tx = Some p \<Longrightarrow> p \<in> fst ` set (tx_signatures tx)"
  by (cases tx) auto

lemma withdraw_charged_signed:
  "apply_withdraw E s c h bl fee tx = Inl f \<Longrightarrow> payer f \<noteq> None \<Longrightarrow> tx_signed E c (Withdraw tx)"
  by (auto simp: apply_withdraw_def check_withdraw_def res_iffs Let_def tx_signed_def split: if_splits option.splits)

lemma unbond_charged_signed:
  "apply_unstake E s c h d fee m un = Inl f \<Longrightarrow> payer f \<noteq> None \<Longrightarrow> tx_signed E c (Unstake un)"
  "apply_voluntary_exit E s c h d fee ve = Inl f \<Longrightarrow> payer f \<noteq> None \<Longrightarrow> tx_signed E c (VoluntaryExit ve)"
  by (auto simp: apply_unstake_def check_unstake_def apply_voluntary_exit_def check_voluntary_exit_def res_iffs Let_def
      tx_signed_def split: if_splits)

lemma bond_charged_signed:
  "apply_transfer E s c fee tr = Inl f \<Longrightarrow> payer f \<noteq> None \<Longrightarrow> tx_signed E c (Transfer tr)"
  "apply_stake E s c h fee m st = Inl f \<Longrightarrow> payer f \<noteq> None \<Longrightarrow> tx_signed E c (Stake st)"
  "apply_deposit E s c h fee m dp = Inl f \<Longrightarrow> payer f \<noteq> None \<Longrightarrow> tx_signed E c (Deposit dp)"
  "apply_register_validator E s c h fee m rv = Inl f \<Longrightarrow> payer f \<noteq> None \<Longrightarrow> tx_signed E c (RegisterValidator rv)"
  by (auto simp: apply_transfer_def check_transfer_def apply_stake_def check_stake_def apply_deposit_def check_deposit_def
      apply_register_validator_def check_register_validator_def res_iffs Let_def tx_signed_def split: if_splits option.splits)

lemma authorize_signer_charged:
  "authorize_signer E s p n h fee m sig = Inl f \<Longrightarrow> payer f \<noteq> None \<Longrightarrow> verify_signature E p m sig"
  by (auto simp: authorize_signer_def split: if_splits)

lemma governance_charged_signed:
  "apply_propose E s c b fee pu = Inl f \<Longrightarrow> payer f \<noteq> None \<Longrightarrow> tx_signed E c (ProposeUpgrade pu)"
  "apply_propose_policy E s c b fee pp = Inl f \<Longrightarrow> payer f \<noteq> None \<Longrightarrow> tx_signed E c (ProposePolicy pp)"
  "apply_vote E s c b fee vu = Inl f \<Longrightarrow> payer f \<noteq> None \<Longrightarrow> tx_signed E c (VoteUpgrade vu)"
  by (auto simp: apply_propose_def check_propose_def apply_propose_policy_def check_propose_policy_def check_new_proposal_def
      apply_vote_def check_vote_def res_iffs Let_def tx_signed_def authorize_signer_Inr
      dest!: authorize_signer_charged split: if_splits option.splits)

lemma charged_signed:
  assumes "apply_transaction E facts fee tx s = Inl f" and "payer f \<noteq> None"
  shows "tx_signed E (si_chain_id (bf_input facts)) tx"
  using assms by (cases tx) (simp_all add: withdraw_charged_signed unbond_charged_signed bond_charged_signed governance_charged_signed)

end
