(* ===== verification/Chain.thy ===== *)
theory Chain
  imports Stf_Laws
begin

text \<open>
  The runtime as a transition system. A configuration is the state and the fees collected so far
  in the block; \<open>runtime_step\<close> has one rule per phase of \<open>apply_block_validated\<close>. A block is a
  sequence of steps (\<open>block_steps\<close>), so what every step keeps holds along every chain of blocks:
  the coin supply, the nonces' growth and the safety tombstones.
\<close>

type_synonym config = "state \<times> u128"

inductive runtime_step :: "externals \<Rightarrow> config \<Rightarrow> config \<Rightarrow> bool" for E where
  participation: "apply_participation E s report = (c, s') \<Longrightarrow> runtime_step E (s, pot) (s', pot)"
| mandatory: "accountability_apply E input s policy = Inr (m, s') \<Longrightarrow> runtime_step E (s, pot) (s', pot)"
| expiry: "runtime_step E (s, pot) (expire E s chunk, pot)"
| transact: "execute_one E facts tx t s = (t', s') \<Longrightarrow>
    runtime_step E (s, tl_proposer_fee t) (s', tl_proposer_fee t')"
| reward: "runtime_step E (s, pot) (credit_proposer E s p pot, 0)"

inductive_cases runtime_stepE: "runtime_step E (s, pot) (s', pot')"

definition config_inv :: "externals \<Rightarrow> config \<Rightarrow> bool" where
  "config_inv E c \<longleftrightarrow> mandatory_inv E (fst c) \<and> coin_supply E (fst c) + unat (snd c) < 2 ^ 128"

definition config_supply :: "externals \<Rightarrow> config \<Rightarrow> nat" where
  "config_supply E c = coin_supply E (fst c) + unat (snd c)"

context borsh
begin

lemma step_supply:
  assumes "runtime_step E c c'" and "config_inv E c"
  shows "config_inv E c' \<and> config_supply E c' = config_supply E c"
  using assms
proof (cases rule: runtime_step.cases)
  case (participation s report d s' pot)
  then show ?thesis
    using assms(2) participation_keeps(1) [OF participation(3)] participation_effect(2) [OF participation(3)]
    by (simp add: config_inv_def config_supply_def)
next
  case (mandatory input s policy m s' pot)
  then have "mandatory_inv E s" "coin_supply E s < 2 ^ 128" using assms(2) by (simp_all add: config_inv_def)
  note k = phase_keeps [OF mandatory(3) this]
  show ?thesis using assms(2) k(1,3) mandatory by (simp add: config_inv_def config_supply_def)
next
  case (expiry s pot chunk)
  then show ?thesis using assms(2) by (simp add: config_inv_def config_supply_def expire_keeps)
next
  case (transact facts tx t s t' s')
  have "total_funds E s + unat (tl_proposer_fee t) < 2 ^ 128"
    using assms(2) transact by (simp add: config_inv_def coin_supply_def)
  note f = execute_one_funds [OF transact(3) this]
  have "totals_of E s' = totals_of E s" by (rule frame_queue_loads(2) [OF f(1)]) simp
  then show ?thesis
    using assms(2) transact f(2) mandatory_frame_inv [OF f(1)]
    by (simp add: config_inv_def config_supply_def coin_supply_def)
next
  case (reward s pot p)
  have "total_funds E s + unat pot < 2 ^ 128" using assms(2) reward by (simp add: config_inv_def coin_supply_def)
  note f = credit_proposer_funds [OF this, of p]
  have "totals_of E (credit_proposer E s p pot) = totals_of E s"
    by (rule frame_queue_loads(2) [OF frame_credit_proposer]) simp
  then show ?thesis
    using assms(2) reward f mandatory_inv_frame [OF frame_credit_proposer]
    by (simp add: config_inv_def config_supply_def coin_supply_def)
qed

lemma steps_supply:
  "(runtime_step E)\<^sup>*\<^sup>* c c' \<Longrightarrow> config_inv E c \<Longrightarrow> config_inv E c' \<and> config_supply E c' = config_supply E c"
  by (induction rule: rtranclp_induct) (auto dest: step_supply)

text \<open>Every block is a sequence of steps.\<close>

lemma transactions_steps:
  "execute_transactions E facts txs t s = (t', s') \<Longrightarrow>
     (runtime_step E)\<^sup>*\<^sup>* (s, tl_proposer_fee t) (s', tl_proposer_fee t')"
proof (induction txs arbitrary: t s)
  case (Cons tx txs)
  obtain t1 s1 where one: "execute_one E facts tx t s = (t1, s1)" by (metis surj_pair)
  have "execute_transactions E facts txs t1 s1 = (t', s')" using Cons.prems one by simp
  from Cons.IH [OF this] show ?case by (rule converse_rtranclp_into_rtranclp [of "runtime_step E", OF transact [OF one]])
qed simp

lemma block_steps:
  assumes "apply_block E root input s = Inr (out, s')"
  shows "(runtime_step E)\<^sup>*\<^sup>* (s, 0) (s', 0)"
proof -
  from assms obtain c s1 m s2 t s4 where
    part: "apply_participation E s (si_participation input) = (c, s1)"
    and acc: "accountability_apply E input s1 (load_runtime_policy E s) = Inr (m, s2)"
    and ex: "execute_transactions E (block_facts_of input (load_runtime_policy E s) m) (si_transactions input)
       (initial_tally m) (expire E s2 (ea_chunk_id (si_evidence_anchor input))) = (t, s4)"
    and s': "s' = credit_proposer E s4 (si_proposer_address input) (tl_proposer_fee t)"
    by (rule block_split) simp
  have "tl_proposer_fee (initial_tally m) = 0" by (simp add: initial_tally_def)
  note tx = transactions_steps [OF ex, unfolded this]
  have "runtime_step E (s4, tl_proposer_fee t) (s', 0)" unfolding s' by (rule reward)
  then have "(runtime_step E)\<^sup>*\<^sup>* (expire E s2 (ea_chunk_id (si_evidence_anchor input)), 0) (s', 0)"
    using tx by (rule rtranclp.rtrancl_into_rtrancl [rotated])
  from converse_rtranclp_into_rtranclp [of "runtime_step E", OF expiry this]
  have "(runtime_step E)\<^sup>*\<^sup>* (s2, 0) (s', 0)" .
  from converse_rtranclp_into_rtranclp [of "runtime_step E", OF mandatory [OF acc] this]
  have "(runtime_step E)\<^sup>*\<^sup>* (s1, 0) (s', 0)" .
  from converse_rtranclp_into_rtranclp [of "runtime_step E", OF participation [OF part] this]
  show ?thesis .
qed

subsection \<open>Nonces\<close>

lemma saturating_succ: "n \<le> saturating_add n 1" for n :: u64
  using unat_lt [of n] by (simp add: word_le_nat_alt unat_saturating_add)

lemma applied_nonce:
  assumes "apply_transaction E facts fee tx s = Inr s'"
  shows "nonce (load_account E s a) \<le> nonce (load_account E s' a)"
    and "tx_sender tx = Some a \<Longrightarrow> nonce (load_account E s a) = tx_nonce tx
      \<and> nonce (load_account E s' a) = saturating_add (tx_nonce tx) 1"
proof -
  show n: "nonce (load_account E s a) = tx_nonce tx \<and> nonce (load_account E s' a) = saturating_add (tx_nonce tx) 1"
    if "tx_sender tx = Some a"
    by (rule signed_handler.success_nonce [OF transaction_contract [OF that] assms])
  show "nonce (load_account E s a) \<le> nonce (load_account E s' a)"
  proof (cases "tx_sender tx")
    case None
    then show ?thesis using assms unsigned_applies [OF None, of E facts fee s] by simp
  next
    case (Some p)
    then show ?thesis
      using signed_handler.success_others [OF transaction_contract [OF Some] assms, of a] n saturating_succ
      by (cases "a = p") auto
  qed
qed

lemma execute_one_nonce:
  assumes "execute_one E facts tx t s = (t', s')"
  shows "nonce (load_account E s a) \<le> nonce (load_account E s' a)"
  using assms
proof (cases rule: execute_one_cases)
  case (failed f chargd)
  note e = failed_effect [OF failed(2,3)]
  show ?thesis
  proof (cases "payer f")
    case (Some p)
    then have "load_account E s' = load_account E (snd (charge_failure E s p (tx_fee facts tx)))"
      using failed(3) e(3) [OF Some] by (auto simp: charge_of_def charges_fee_iff)
    then show ?thesis
      using e(3) [OF Some] saturating_succ [of "tx_nonce tx"] frame_loads(1) [OF frame_charge_failure, of a p E s]
      by (cases "a = p") auto
  qed (use e(4) in simp)
qed (use applied_nonce in auto)

lemma step_nonce:
  assumes "runtime_step E c c'" and "config_inv E c"
  shows "nonce (load_account E (fst c) a) \<le> nonce (load_account E (fst c') a)"
  using assms
proof (cases rule: runtime_step.cases)
  case (participation s report d s' pot)
  have "load_account E s' a = load_account E s a"
    by (rule frame_loads(1) [OF participation_effect(1) [OF participation(3)]]) auto
  then show ?thesis using participation by simp
next
  case (mandatory input s policy m s' pot)
  then show ?thesis using phase_nonce [OF mandatory(3)] assms(2) by (simp add: config_inv_def)
next
  case (expiry s pot chunk)
  then show ?thesis using frame_loads(1) [OF frame_expire, of a E E s chunk] by simp
next
  case (transact facts tx t s t' s')
  then show ?thesis using execute_one_nonce [OF transact(3)] by simp
next
  case (reward s pot p)
  then show ?thesis by (auto simp: credit_proposer_def Let_def slot_ops)
qed

lemma steps_nonce:
  "(runtime_step E)\<^sup>*\<^sup>* c c' \<Longrightarrow> config_inv E c \<Longrightarrow>
     nonce (load_account E (fst c) a) \<le> nonce (load_account E (fst c') a)"
proof (induction rule: rtranclp_induct)
  case (step y z)
  then show ?case using step_nonce [of y z a] steps_supply [of c y] by auto
qed simp

text \<open>A transaction whose nonce is behind its sender's changes nothing and charges nobody.\<close>

lemma stale_rejected:
  assumes snd: "tx_sender tx = Some p" and stale: "tx_nonce tx < nonce (load_account E s p)"
  shows "\<exists>f. apply_transaction E facts fee tx s = Inl f \<and> payer f = None"
proof (cases "apply_transaction E facts fee tx s")
  case (Inl f)
  then show ?thesis using failed_payer [OF Inl] snd stale by (cases "payer f") (auto simp: authorized_def)
next
  case (Inr s')
  then show ?thesis using applied_nonce(2) [OF Inr snd] stale by simp
qed

end

subsection \<open>Chains of blocks\<close>

inductive blocks ::
  "externals \<Rightarrow> (state \<Rightarrow> hash) \<Rightarrow> state \<Rightarrow> (stf_input \<times> stf_public_output) list \<Rightarrow> state \<Rightarrow> bool" for E root where
  genesis: "blocks E root s [] s"
| extend: "apply_block E root input s = Inr (out, s1) \<Longrightarrow> blocks E root s1 bs s2 \<Longrightarrow>
    blocks E root s ((input, out) # bs) s2"

inductive_simps blocks_simps [simp]:
  "blocks E root s [] s'"
  "blocks E root s (b # bs) s'"

text \<open>The unbonding delay and the chunk size are fixed at genesis.\<close>

definition same_genesis :: "evidence_anchor \<Rightarrow> evidence_anchor \<Rightarrow> bool" where
  "same_genesis a b \<longleftrightarrow>
     ea_unbonding_delay_blocks a = ea_unbonding_delay_blocks b \<and> ea_chunk_size a = ea_chunk_size b"

definition chain_inv :: "externals \<Rightarrow> evidence_anchor \<Rightarrow> state \<Rightarrow> bool" where
  "chain_inv E anchor s \<longleftrightarrow>
     staking_inv E s \<and> mandatory_inv E s \<and> governance_inv E anchor s \<and> coin_supply E s < 2 ^ 128"

lemma governance_inv_genesis: "same_genesis a b \<Longrightarrow> governance_inv E a s \<longleftrightarrow> governance_inv E b s"
  by (auto simp: same_genesis_def governance_inv_def proposal_ok_def policy_is_valid_for_def
      anchor_is_well_formed_def split: proposal_action.splits)

definition slashed_of :: "stf_public_output \<Rightarrow> bls_public_key list" where
  "slashed_of out = map (\<lambda>sn. cv_pubkey (sn_offender sn))
     (filter (\<lambda>sn. sn_kind sn = Slash) (ao_admitted (so_accountability out)))"

context borsh
begin

lemma block_chain_inv:
  assumes run: "apply_block E root input s = Inr (out, s')" and inv: "chain_inv E a s"
    and gen: "same_genesis (si_evidence_anchor input) a"
  shows "chain_inv E a s'" and "coin_supply E s' = coin_supply E s"
proof -
  have inv': "staking_inv E s" "mandatory_inv E s" "governance_inv E (si_evidence_anchor input) s"
    "coin_supply E s < 2 ^ 128"
    using inv governance_inv_genesis [OF gen] by (simp_all add: chain_inv_def)
  note k = block_keeps [OF run inv']
  show "coin_supply E s' = coin_supply E s" by (rule k(1))
  show "chain_inv E a s'"
    using k(1-4) inv'(4) governance_inv_genesis [OF gen] by (simp add: chain_inv_def)
qed

lemma blocks_chain_inv:
  "blocks E root s bs s' \<Longrightarrow> chain_inv E a s \<Longrightarrow> (\<And>b. b \<in> set bs \<Longrightarrow> same_genesis (si_evidence_anchor (fst b)) a) \<Longrightarrow>
     chain_inv E a s' \<and> coin_supply E s' = coin_supply E s"
proof (induction rule: blocks.induct)
  case (extend input s out s1 bs s2)
  have gen: "same_genesis (si_evidence_anchor input) a" using extend.prems(2) [of "(input, out)"] by simp
  note k = block_chain_inv [OF extend.hyps(1) extend.prems(1) gen]
  show ?case using extend.IH [OF k(1)] extend.prems(2) k(2) by simp
qed simp

lemma block_tombstones:
  assumes run: "apply_block E root input s = Inr (out, s')" and inv: "chain_inv E a s"
    and gen: "same_genesis (si_evidence_anchor input) a"
  shows "s (key_bytes (KSlashed p)) \<noteq> None \<Longrightarrow> s' (key_bytes (KSlashed p)) \<noteq> None"
    and "p \<in> set (slashed_of out) \<Longrightarrow> s (key_bytes (KSlashed p)) = None \<and> s' (key_bytes (KSlashed p)) \<noteq> None"
    and "distinct (slashed_of out)"
proof -
  have inv': "staking_inv E s" "mandatory_inv E s" "governance_inv E (si_evidence_anchor input) s"
    "coin_supply E s < 2 ^ 128"
    using inv governance_inv_genesis [OF gen] by (simp_all add: chain_inv_def)
  from block_keeps(5) [OF run inv'] obtain m s1 s2 where
    part: "apply_participation E s (si_participation input) = (so_participation out, s1)"
    and acc: "accountability_apply E input s1 (load_runtime_policy E s) = Inr (m, s2)"
    and out: "so_accountability out = mn_output m"
    and s': "\<And>p. s' (key_bytes (KSlashed p)) = s2 (key_bytes (KSlashed p))"
    by blast
  note pk = participation_keeps [OF part]
  have inv1: "mandatory_inv E s1" "coin_supply E s1 < 2 ^ 128"
    using inv'(2,4) participation_effect(2) [OF part] pk(1) by simp_all
  note k = phase_keeps [OF acc inv1]
  show "s' (key_bytes (KSlashed p)) \<noteq> None" if "s (key_bytes (KSlashed p)) \<noteq> None"
    using k(5) [of p] that pk(6) [of p] s' by simp
  show "s (key_bytes (KSlashed p)) = None \<and> s' (key_bytes (KSlashed p)) \<noteq> None" if "p \<in> set (slashed_of out)"
  proof -
    from that obtain sn where sn: "sn \<in> set (ao_admitted (mn_output m))" "sn_kind sn = Slash"
      "p = cv_pubkey (sn_offender sn)"
      by (auto simp: slashed_of_def out)
    then have "marker_of sn = KSlashed p" by (simp add: marker_of_def)
    then show ?thesis using k(6) [OF sn(1)] k(7) [OF sn(1,2)] pk(6) [of p] s' by simp
  qed
  have "distinct (map marker_of (filter (\<lambda>sn. sn_kind sn = Slash) (ao_admitted (mn_output m))))"
    using k(8) by (rule distinct_map_filter)
  also have "map marker_of (filter (\<lambda>sn. sn_kind sn = Slash) (ao_admitted (mn_output m))) = map KSlashed (slashed_of out)"
    by (auto simp: slashed_of_def out marker_of_def)
  finally show "distinct (slashed_of out)" by (simp add: distinct_map)
qed

lemma blocks_slashed_once:
  "blocks E root s bs s' \<Longrightarrow> chain_inv E a s \<Longrightarrow> (\<And>b. b \<in> set bs \<Longrightarrow> same_genesis (si_evidence_anchor (fst b)) a) \<Longrightarrow>
     distinct (concat (map (\<lambda>b. slashed_of (snd b)) bs))
     \<and> (\<forall>p\<in>set (concat (map (\<lambda>b. slashed_of (snd b)) bs)). s (key_bytes (KSlashed p)) = None)"
proof (induction rule: blocks.induct)
  case (extend input s out s1 bs s2)
  have gen: "same_genesis (si_evidence_anchor input) a" using extend.prems(2) [of "(input, out)"] by simp
  note k = block_chain_inv [OF extend.hyps(1) extend.prems(1) gen]
  note t = block_tombstones [OF extend.hyps(1) extend.prems(1) gen]
  have IH: "distinct (concat (map (\<lambda>b. slashed_of (snd b)) bs))"
    "\<And>p. p \<in> set (concat (map (\<lambda>b. slashed_of (snd b)) bs)) \<Longrightarrow> s1 (key_bytes (KSlashed p)) = None"
    using extend.IH [OF k(1)] extend.prems(2) by auto
  have "set (slashed_of out) \<inter> set (concat (map (\<lambda>b. slashed_of (snd b)) bs)) = {}"
    using IH(2) t(2) by blast
  moreover have "s (key_bytes (KSlashed p)) = None" if "p \<in> set (concat (map (\<lambda>b. slashed_of (snd b)) bs))" for p
    using IH(2) [OF that] t(1) [of p] by (cases "s (key_bytes (KSlashed p))") auto
  ultimately show ?case using IH(1) t(2,3) by auto
qed simp

lemma blocks_steps: "blocks E root s bs s' \<Longrightarrow> (runtime_step E)\<^sup>*\<^sup>* (s, 0) (s', 0)"
  by (induction rule: blocks.induct) (auto dest!: block_steps)

end

end
