(* ===== verification/Liveness.thy ===== *)
theory Liveness
  imports Chain
begin

text \<open>
  Progress of the mandatory queue and of admitted transactions. In a state that satisfies the chain
  invariant, a block without evidence panics in its mandatory phase exactly when the queue exceeds
  the policy's bound or the gas limit does not cover the sanctions the block has to execute. It
  executes the front of the queue, so empty blocks alone drain every pending obligation.
\<close>

definition ordinary_input :: "evidence_anchor \<Rightarrow> stf_input \<Rightarrow> bool" where
  "ordinary_input a input \<longleftrightarrow> evidence_prefix (si_transactions input) = [] \<and> same_genesis (si_evidence_anchor input) a"

definition empty_input :: "evidence_anchor \<Rightarrow> stf_input \<Rightarrow> bool" where
  "empty_input a input \<longleftrightarrow> si_transactions input = [] \<and> same_genesis (si_evidence_anchor input) a"

lemma empty_ordinary: "empty_input a input \<Longrightarrow> ordinary_input a input"
  by (simp add: empty_input_def ordinary_input_def)

text \<open>The stored form of a queue: its encoding, or nothing at all when it is empty.\<close>

definition queue_stored :: "externals \<Rightarrow> state \<Rightarrow> pending_sanction list \<Rightarrow> bool" where
  "queue_stored E s q \<longleftrightarrow>
     s (key_bytes KQueue) = Some (enc (sanction_queue_codec E) q) \<or> s (key_bytes KQueue) = None \<and> q = []"

text \<open>The queue digest does not collide on the suffixes of the queue at hand.\<close>

definition suffix_digests_distinct :: "externals \<Rightarrow> pending_sanction list \<Rightarrow> bool" where
  "suffix_digests_distinct E q \<longleftrightarrow>
     distinct (map (\<lambda>i. blake3 E (enc (sanction_queue_codec E) (drop i q))) [0..<Suc (length q)])"

lemma suffix_digest_eq:
  assumes "suffix_digests_distinct E q" and "i \<le> length q" and "j \<le> length q"
    and "blake3 E (enc (sanction_queue_codec E) (drop i q)) = blake3 E (enc (sanction_queue_codec E) (drop j q))"
  shows "i = j"
proof -
  have "inj_on (\<lambda>i. blake3 E (enc (sanction_queue_codec E) (drop i q))) (set [0..<Suc (length q)])"
    using assms(1) by (simp only: suffix_digests_distinct_def distinct_map)
  from inj_onD [OF this assms(4)] show ?thesis using assms(2,3) by (simp del: upt_Suc)
qed

lemma suffix_digests_drop:
  assumes "suffix_digests_distinct E q"
  shows "suffix_digests_distinct E (drop n q)"
proof -
  have "inj_on (\<lambda>i. blake3 E (enc (sanction_queue_codec E) (drop i (drop n q)))) (set [0..<Suc (length (drop n q))])"
  proof (rule inj_onI)
    fix i j
    assume mem: "i \<in> set [0..<Suc (length (drop n q))]" "j \<in> set [0..<Suc (length (drop n q))]"
      and eq: "blake3 E (enc (sanction_queue_codec E) (drop i (drop n q)))
        = blake3 E (enc (sanction_queue_codec E) (drop j (drop n q)))"
    show "i = j"
    proof (cases "n \<le> length q")
      case True
      then have "i + n \<le> length q" "j + n \<le> length q" using mem by auto
      from suffix_digest_eq [OF assms this] eq show ?thesis by simp
    qed (use mem in simp)
  qed
  then show ?thesis by (simp only: suffix_digests_distinct_def distinct_map) simp
qed

definition executions_of :: "runtime_policy \<Rightarrow> pending_sanction list \<Rightarrow> nat" where
  "executions_of policy q = min (length q) (unat (evidence_executions_per_block policy))"

definition sanctions_affordable :: "stf_input \<Rightarrow> runtime_policy \<Rightarrow> pending_sanction list \<Rightarrow> bool" where
  "sanctions_affordable input policy q \<longleftrightarrow> executions_of policy q * unat GAS_SANCTION \<le> unat (si_block_gas_limit input)"

lemma policy_bounds:
  assumes "policy_is_well_formed p"
  shows "0 < unat (evidence_executions_per_block p)" and "unat (evidence_executions_per_block p) \<le> 4096"
    and "unat (evidence_max_pending p) \<le> 4096"
proof -
  show "0 < unat (evidence_executions_per_block p)"
    using assms by (simp add: policy_is_well_formed_def word_less_nat_alt)
  show "unat (evidence_max_pending p) \<le> 4096"
    using assms by (simp add: policy_is_well_formed_def word_le_nat_alt MAX_PENDING_def)
  then show "unat (evidence_executions_per_block p) \<le> 4096"
    using assms by (simp add: policy_is_well_formed_def word_le_nat_alt)
qed

context borsh
begin

lemma queue_stored_of: "queue_stored E s q \<Longrightarrow> queue_of E s = q"
  by (auto simp: queue_stored_def queue_of_def read_record_def)

lemma ordinary_evidence:
  assumes "evidence_prefix txs = []"
  shows "policy_loop h policy n txs = Inr n" and "collect_loop E s A B txs = Inr []"
  using assms by (cases txs; cases "hd txs"; simp)+

lemma ordinary_plan:
  assumes ord: "ordinary_input a input" and valid: "policy_is_valid_for policy a" and inv: "mandatory_inv E s"
  obtains s1 where "sweep_expired_markers E s (si_block_height input)
      (ea_unbonding_delay_blocks (si_evidence_anchor input)) = Inr s1"
    and "mandatory_plan E input s policy =
      (if \<not> length (queue_of E s) \<le> unat (evidence_max_pending policy) then Inl ''queue bound''
       else if \<not> sanctions_affordable input policy (queue_of E s) then Inl ''mandatory sanction gas''
       else Inr (queue_of E s, s1, [], executions_of policy (queue_of E s),
          of_nat (executions_of policy (queue_of E s)) * GAS_SANCTION))"
proof -
  let ?q = "queue_of E s" and ?n = "executions_of policy (queue_of E s)"
  have valid': "policy_is_valid_for policy (si_evidence_anchor input)"
    using ord valid by (simp add: ordinary_input_def same_genesis_def policy_is_valid_for_def anchor_is_well_formed_def)
  have pre: "evidence_prefix (si_transactions input) = []" using ord by (simp add: ordinary_input_def)
  have pol: "check_policy input policy = Inr ()"
    using valid' by (simp add: check_policy_def ordinary_evidence [OF pre] policy_is_valid_for_def policy_is_well_formed_def)
  have q: "(case s QUEUE_KEY of None \<Rightarrow> Inr []
      | Some b \<Rightarrow> ok_or (dec (sanction_queue_codec E) b) ''canonical sanction queue'') = Inr ?q"
    using inv by (cases "s (key_bytes KQueue)")
      (auto simp: mandatory_inv_def queue_ok_def queue_of_def read_record_def)
  obtain s1 where sw: "sweep_expired_markers E s (si_block_height input)
      (ea_unbonding_delay_blocks (si_evidence_anchor input)) = Inr s1"
    using inv sweep_effect [of E s] by (metis mandatory_inv_def)
  have n: "?n \<le> 4096" using policy_bounds(2) [of policy] valid by (simp add: executions_of_def policy_is_valid_for_def)
  then have un: "unat (of_nat ?n :: u64) = ?n" by (simp add: unat_of_nat)
  then have g: "checked_mul (of_nat ?n) GAS_SANCTION = Some (of_nat ?n * GAS_SANCTION)"
    using n by (simp add: checked_mul_def GAS_SANCTION_def)
  have "unat (of_nat ?n * GAS_SANCTION :: u64) = ?n * unat GAS_SANCTION"
    using un n by (simp add: unat_mult_exact GAS_SANCTION_def)
  then have afford: "of_nat ?n * GAS_SANCTION \<le> si_block_gas_limit input \<longleftrightarrow> sanctions_affordable input policy ?q"
    by (simp add: word_le_nat_alt sanctions_affordable_def)
  have "checked_add (of_nat ?n * GAS_SANCTION) 0 = Some (of_nat ?n * GAS_SANCTION :: u64)"
    by (simp add: checked_add_Some_iff)
  moreover have "checked_mul 0 GAS_EVIDENCE_ADMISSION = Some 0" by (simp add: checked_mul_def)
  moreover have "length ?q \<le> unat (evidence_max_pending policy) \<Longrightarrow> length ?q - ?n \<le> unat (evidence_max_pending policy)" by simp
  ultimately have "mandatory_plan E input s policy =
      (if \<not> length ?q \<le> unat (evidence_max_pending policy) then Inl ''queue bound''
       else if \<not> sanctions_affordable input policy ?q then Inl ''mandatory sanction gas''
       else Inr (?q, s1, [], ?n, of_nat ?n * GAS_SANCTION))"
    unfolding mandatory_plan_def pol q res_bind_simps sw afford [symmetric]
    using g by (auto simp: collect_admissions_def ordinary_evidence [OF pre] executions_of_def [symmetric] Let_def require_def)
  with sw show ?thesis by (rule that)
qed

lemma ordinary_phase:
  assumes ord: "ordinary_input a input" and valid: "policy_is_valid_for policy a" and inv: "mandatory_inv E s"
  shows "(\<exists>m s'. accountability_apply E input s policy = Inr (m, s')) \<longleftrightarrow>
    length (queue_of E s) \<le> unat (evidence_max_pending policy) \<and> sanctions_affordable input policy (queue_of E s)"
proof -
  let ?n = "executions_of policy (queue_of E s)"
  obtain s1 where swp: "sweep_expired_markers E s (si_block_height input)
      (ea_unbonding_delay_blocks (si_evidence_anchor input)) = Inr s1"
    and plan: "mandatory_plan E input s policy =
      (if \<not> length (queue_of E s) \<le> unat (evidence_max_pending policy) then Inl ''queue bound''
       else if \<not> sanctions_affordable input policy (queue_of E s) then Inl ''mandatory sanction gas''
       else Inr (queue_of E s, s1, [], ?n, of_nat ?n * GAS_SANCTION))"
    by (rule ordinary_plan [OF assms])
  note sw = sweep_keeps [OF inv swp]
  have "load_totals E s1 = Inr (totals_of E s1)" using sw(1) by (simp add: load_totals_ok mandatory_inv_def)
  moreover have "\<forall>i\<in>set (take ?n (queue_of E s)). pn_reporter_reward_bps i \<le> BASIS_POINTS"
    using queue_ok_bps inv by (auto simp: mandatory_inv_def dest!: in_set_takeD)
  then obtain rs s4 t2 rs' s4' t2' where
    "execute_loop E (take ?n (queue_of E s)) s1 (totals_of E s1) = Inr (rs, s4, t2)"
    "execute_loop E (take ?n (queue_of E s)) s1 default_totals = Inr (rs', s4', t2')"
    using execute_loop_runs by metis
  ultimately show ?thesis
    unfolding accountability_apply_def plan
    by (simp add: mandatory_run_def enqueue_admissions_def record_expiry_bucket_def Let_def)
qed

lemma ordinary_admissions:
  assumes "evidence_prefix txs = []" and "\<forall>tx \<in> set txs. tx_sender tx \<noteq> None" and "anchor_is_well_formed anchor"
  shows "check_admissions E c h anchor txs = Inr ()"
proof -
  have "admissions_loop E c h anchor b n txs = Inr n" for b n
    using assms(2) by (induction txs arbitrary: b) (auto split: transaction.splits)
  then show ?thesis using assms(3) by (simp add: check_admissions_def)
qed

lemma empty_block_iff:
  assumes empty: "empty_input a input" and inv: "chain_inv E a s"
  shows "(\<exists>out s'. apply_block E root input s = Inr (out, s')) \<longleftrightarrow>
    length (queue_of E s) \<le> unat (evidence_max_pending (load_runtime_policy E s))
    \<and> sanctions_affordable input (load_runtime_policy E s) (queue_of E s)"
proof -
  have valid: "policy_is_valid_for (load_runtime_policy E s) a"
    using inv by (simp add: chain_inv_def governance_inv_def)
  obtain c s1 where part: "apply_participation E s (si_participation input) = (c, s1)" by (metis surj_pair)
  note pk = participation_keeps [OF part]
  have inv1: "mandatory_inv E s1" using inv participation_effect(2) [OF part] by (simp add: chain_inv_def)
  note phase = ordinary_phase [OF empty_ordinary [OF empty] valid inv1, unfolded pk(5)]
  have anchor: "anchor_is_well_formed (si_evidence_anchor input)"
    using empty valid by (simp add: empty_input_def same_genesis_def policy_is_valid_for_def anchor_is_well_formed_def)
  have chk: "check_admissions E (si_chain_id input) (si_block_height input) (si_evidence_anchor input)
      (si_transactions input) = Inr ()"
    by (rule ordinary_admissions [OF _ _ anchor]) (use empty in \<open>simp_all add: empty_input_def\<close>)
  have "transaction_commitments E (si_transactions input) = Inr (merkle_root_from_hashes E [], \<lparr>ts_transaction_count = 0\<rparr>)"
    using empty by (simp add: transaction_commitments_def empty_input_def)
  then have "(\<exists>out s'. apply_block E root input s = Inr (out, s')) \<longleftrightarrow>
      (\<exists>m s'. accountability_apply E input s1 (load_runtime_policy E s) = Inr (m, s'))"
    using chk part empty
    by (auto simp: apply_block_def validate_input_def try_validate_input_def apply_block_validated_def Let_def
        empty_input_def res_bind_Inr_iff)
  then show ?thesis using phase by simp
qed

lemma empty_block_drains:
  assumes empty: "empty_input a input" and inv: "chain_inv E a s" and run: "apply_block E root input s = Inr (out, s')"
    and stored: "queue_stored E s q" and distinct: "suffix_digests_distinct E q"
  shows "queue_stored E s' (drop (executions_of (load_runtime_policy E s) q) q)"
    and "length (queue_of E s') \<le> unat (evidence_max_pending (load_runtime_policy E s'))"
proof -
  let ?n = "executions_of (load_runtime_policy E s) q" and ?c = "sanction_queue_codec E"
  have gen: "same_genesis (si_evidence_anchor input) a" and txs: "si_transactions input = []"
    using empty by (simp_all add: empty_input_def)
  have inv': "staking_inv E s" "mandatory_inv E s" "governance_inv E (si_evidence_anchor input) s"
    "coin_supply E s < 2 ^ 128"
    using inv governance_inv_genesis [OF gen] by (simp_all add: chain_inv_def)
  from block_keeps(5) [OF run inv'] obtain m s1 s2 where
    part: "apply_participation E s (si_participation input) = (so_participation out, s1)"
    and acc: "accountability_apply E input s1 (load_runtime_policy E s) = Inr (m, s2)"
    and q2: "s' (key_bytes KQueue) = s2 (key_bytes KQueue)"
    and cnt: "bl_count (mn_backlog m) \<le> unat (evidence_max_pending (load_runtime_policy E s'))" by blast
  note pk = participation_keeps [OF part]
  have k1: "s1 (key_bytes KQueue) = s (key_bytes KQueue)"
    by (rule frame_key [OF participation_effect(1) [OF part]]) auto
  have inv1: "mandatory_inv E s1" "coin_supply E s1 < 2 ^ 128"
    using inv'(2,4) participation_effect(2) [OF part] pk(1) by simp_all
  have all: "obligation_list input (load_runtime_policy E s) (queue_of E s1) = q"
    using queue_stored_of [OF stored] pk(5) txs by (simp add: obligation_list_def obligations_def)
  note ph = phase_queue [OF acc inv1, unfolded all, folded executions_of_def]
  have before: "(case s1 (key_bytes KQueue) of None \<Rightarrow> commitment E ?c (queue_of E s1) | Some b \<Rightarrow> blake3 E b)
      = blake3 E (enc ?c q)"
    using stored k1 queue_stored_of [OF stored] pk(5) by (auto simp: queue_stored_def commitment_def split: option.splits)
  have same: "?n = 0" if "blake3 E (enc ?c q) = blake3 E (enc ?c (drop ?n q))"
    using suffix_digest_eq [OF distinct, of 0 ?n] that by (simp add: executions_of_def)
  have s2q: "s2 (key_bytes KQueue) = (if blake3 E (enc ?c q) = blake3 E (enc ?c (drop ?n q))
      then s (key_bytes KQueue) else Some (enc ?c (drop ?n q)))"
    using ph(6) unfolding before by (simp only: k1)
  show st: "queue_stored E s' (drop ?n q)"
  proof (cases "blake3 E (enc ?c q) = blake3 E (enc ?c (drop ?n q))")
    case True
    have "s' (key_bytes KQueue) = s (key_bytes KQueue)" unfolding q2 s2q if_P [OF True] ..
    then show ?thesis using stored unfolding same [OF True] by (simp add: queue_stored_def)
  next
    case False
    have "s' (key_bytes KQueue) = Some (enc ?c (drop ?n q))" unfolding q2 s2q if_not_P [OF False] ..
    then show ?thesis by (simp add: queue_stored_def)
  qed
  show "length (queue_of E s') \<le> unat (evidence_max_pending (load_runtime_policy E s'))"
    using cnt ph(3) queue_stored_of [OF st] by (simp add: backlog_of_def)
qed

lemma empty_block_policy:
  assumes empty: "empty_input a input" and inv: "chain_inv E a s" and run: "apply_block E root input s = Inr (out, s')"
  shows "load_runtime_policy E s' = load_runtime_policy E s"
proof -
  from run obtain c s1 m s2 t s4 where
    part: "apply_participation E s (si_participation input) = (c, s1)"
    and acc: "accountability_apply E input s1 (load_runtime_policy E s) = Inr (m, s2)"
    and ex: "execute_transactions E (block_facts_of input (load_runtime_policy E s) m) (si_transactions input)
       (initial_tally m) (expire E s2 (ea_chunk_id (si_evidence_anchor input))) = (t, s4)"
    and s': "s' = credit_proposer E s4 (si_proposer_address input) (tl_proposer_fee t)"
    by (rule block_split) simp
  have "s4 = expire E s2 (ea_chunk_id (si_evidence_anchor input))" using ex empty by (simp add: empty_input_def)
  moreover have "load_runtime_policy E s' = load_runtime_policy E s4"
    unfolding s' by (rule frame_loads(9) [OF frame_credit_proposer]) simp
  moreover note pk = participation_keeps [OF part]
  have "mandatory_inv E s1" "coin_supply E s1 < 2 ^ 128"
    using inv pk(1) participation_effect(2) [OF part] by (simp_all add: chain_inv_def)
  from frame_loads(9) [OF phase_keeps(4) [OF acc this]]
  have "load_runtime_policy E s2 = load_runtime_policy E s1" by simp
  ultimately show ?thesis using pk(4) by (simp add: expire_keeps)
qed

lemma queue_drains:
  shows "chain_inv E a s \<Longrightarrow> queue_stored E s q \<Longrightarrow> suffix_digests_distinct E q \<Longrightarrow>
    length q \<le> unat (evidence_max_pending (load_runtime_policy E s)) \<Longrightarrow> length q \<le> k \<Longrightarrow>
    (\<And>i. empty_input a (input i) \<and> sanctions_affordable (input i) (load_runtime_policy E s) q) \<Longrightarrow>
    \<exists>outs s'. length outs = k \<and> blocks E root s (zip (map input [i..<i + k]) outs) s' \<and> queue_of E s' = []"
proof (induction k arbitrary: s q i)
  case 0
  then show ?case using queue_stored_of by auto
next
  case (Suc k)
  let ?n = "executions_of (load_runtime_policy E s) q"
  have empty: "empty_input a (input j)" for j using Suc.prems(6) by blast
  obtain out s1 where run: "apply_block E root (input i) s = Inr (out, s1)"
    using empty_block_iff [OF empty Suc.prems(1), of root] Suc.prems(4,6) queue_stored_of [OF Suc.prems(2)] by blast
  note d = empty_block_drains [OF empty Suc.prems(1) run Suc.prems(2,3)]
  have inv1: "chain_inv E a s1"
    using block_chain_inv(1) [OF run Suc.prems(1)] empty [of i] by (simp add: empty_input_def)
  have pol: "load_runtime_policy E s1 = load_runtime_policy E s" by (rule empty_block_policy [OF empty Suc.prems(1) run])
  have "policy_is_well_formed (load_runtime_policy E s)"
    using Suc.prems(1) by (simp add: chain_inv_def governance_inv_def policy_is_valid_for_def)
  then have "0 < unat (evidence_executions_per_block (load_runtime_policy E s))" by (rule policy_bounds)
  then have len: "length (drop ?n q) \<le> k" using Suc.prems(5) by (auto simp: executions_of_def)
  have fits: "length (drop ?n q) \<le> unat (evidence_max_pending (load_runtime_policy E s1))"
    using d(2) queue_stored_of [OF d(1)] by simp
  have "executions_of (load_runtime_policy E s1) (drop ?n q) * unat GAS_SANCTION \<le> ?n * unat GAS_SANCTION"
    by (rule mult_le_mono1) (simp add: pol executions_of_def)
  then have "empty_input a (input j) \<and> sanctions_affordable (input j) (load_runtime_policy E s1) (drop ?n q)" for j
    using Suc.prems(6) [of j] le_trans unfolding sanctions_affordable_def by blast
  from Suc.IH [OF inv1 d(1) suffix_digests_drop [OF Suc.prems(3)] fits len this, of "Suc i"]
  obtain outs s' where "length outs = k" "blocks E root s1 (zip (map input [Suc i..<Suc i + k]) outs) s'" "queue_of E s' = []"
    by blast
  moreover have "[i..<i + Suc k] = i # [Suc i..<Suc i + k]" by (simp add: upt_conv_Cons del: upt_Suc)
  ultimately show ?case using run by (intro exI [of _ "out # outs"] exI [of _ s']) (auto simp del: upt_Suc)
qed

text \<open>Without evidence and without pending sanctions the steps before the transactions touch no ledger record.\<close>

lemma quiet_prefix:
  assumes ord: "ordinary_input a input" and inv: "chain_inv E a s" and quiet: "queue_of E s = []"
  obtains c s1 m s2 where "apply_participation E s (si_participation input) = (c, s1)"
    and "accountability_apply E input s1 (load_runtime_policy E s) = Inr (m, s2)"
    and "mn_gas m = 0" and "mn_backlog m = backlog_of []"
    and "frame ({KParticipation, KQueue, KProposal, KUpgrade} \<union> range KAbsent \<union> range KExpiry \<union> range KOffence)
      s (expire E s2 chunk)"
proof -
  let ?policy = "load_runtime_policy E s"
  have valid: "policy_is_valid_for ?policy a" using inv by (simp add: chain_inv_def governance_inv_def)
  obtain c s1 where part: "apply_participation E s (si_participation input) = (c, s1)" by (metis surj_pair)
  note pk = participation_keeps [OF part] and frm1 = participation_effect(1) [OF part]
  have inv1: "mandatory_inv E s1" using inv participation_effect(2) [OF part] by (simp add: chain_inv_def)
  have q1: "queue_of E s1 = []" using pk(5) quiet by simp
  obtain s1' where sw: "sweep_expired_markers E s1 (si_block_height input)
      (ea_unbonding_delay_blocks (si_evidence_anchor input)) = Inr s1'"
    and plan: "mandatory_plan E input s1 ?policy = Inr ([], s1', [], 0, 0)"
    by (rule ordinary_plan [OF ord valid inv1]) (simp add: q1 executions_of_def sanctions_affordable_def)
  have "buckets_ok E s1" using inv1 by (simp add: mandatory_inv_def)
  then obtain t where "sweep_expired_markers E s1 (si_block_height input)
      (ea_unbonding_delay_blocks (si_evidence_anchor input)) = Inr t"
    and "frame ({k. \<exists>h. swept_height (si_block_height input) (ea_unbonding_delay_blocks (si_evidence_anchor input)) = Some h
      \<and> k = KExpiry h} \<union> range KOffence) s1 t"
    by (rule sweep_effect) blast
  with sw have "frame ({k. \<exists>h. swept_height (si_block_height input) (ea_unbonding_delay_blocks (si_evidence_anchor input)) = Some h
      \<and> k = KExpiry h} \<union> range KOffence) s1 s1'" by simp
  then have frm2: "frame (range KExpiry \<union> range KOffence) s1 s1'" by (rule frame_mono) blast
  obtain m s2 where acc: "accountability_apply E input s1 ?policy = Inr (m, s2)" and m: "mn_gas m = 0" "mn_backlog m = backlog_of []"
    and s2: "s2 = s1' \<or> s2 = s1'(key_bytes KQueue \<mapsto> enc (sanction_queue_codec E) [])"
    unfolding accountability_apply_def plan
    by (simp add: mandatory_run_def enqueue_admissions_def record_expiry_bucket_def Let_def split: if_splits)
  have "frame ({KQueue} \<union> range KExpiry \<union> range KOffence) s1 s2"
    using s2 frame_upd [OF frame_mono [OF frm2], of "{KQueue} \<union> range KExpiry \<union> range KOffence" KQueue]
      frame_mono [OF frm2, of "{KQueue} \<union> range KExpiry \<union> range KOffence"] by auto
  from frame_trans [OF frame_trans [OF frm1 this] frame_expire]
  have "frame ({KParticipation, KQueue, KProposal, KUpgrade} \<union> range KAbsent \<union> range KExpiry \<union> range KOffence)
      s (expire E s2 chunk)" by (rule frame_mono) auto
  with part acc m show ?thesis by (rule that)
qed

end

end
