(* ===== verification/Sample_Chain.thy ===== *)
theory Sample_Chain
  imports Codec_Instance Liveness
begin

text \<open>
  A concrete chain: one bonded validator, one funded account, and a block that admits a slash of
  the validator and carries a transfer. The closed instances of the runtime's properties use it,
  so that none of them holds only for want of a state, an admission or a transaction.
\<close>

definition sample_context :: evidence_context where
  "sample_context = \<lparr>ec_chunk_id = 0, ec_chunk_hash = 0, ec_end_height = 5, ec_validators_root = 0,
     ec_seed = 0, ec_source_block_guest_vk_digest = 0, ec_source_runtime_code_hash = 0\<rparr>"

definition sample_history :: "hash list" where
  "sample_history = [commitment wire_externals (context_codec wire_externals) sample_context]"

definition sample_anchor :: evidence_anchor where
  "sample_anchor = \<lparr>ea_fact_guest_vk_digest = 0, ea_chain_spec_hash = 0, ea_chunk_id = 1,
     ea_history_root = tree_root wire_externals sample_history, ea_block_guest_vk_digest = 0,
     ea_evidence_guest_vk_digest = 0, ea_unbonding_delay_blocks = 302400, ea_chunk_size = 128\<rparr>"

definition sample_offender :: consensus_validator where
  "sample_offender = \<lparr>cv_pubkey = 7, cv_withdrawal_credentials = 4, cv_effective_stake = 40,
     cv_slashed = False, cv_activation_epoch = 0, cv_exit_epoch = 0, cv_last_active_chunk = 0\<rparr>"

definition sample_evidence :: evidence_submission where
  "sample_evidence = \<lparr>sub_statement = \<lparr>es_chain_id = 1, es_chain_spec_hash = 0,
       es_block_guest_vk_digest = 0, es_context = sample_context, es_offender = sample_offender,
       es_kind = Slash, es_offence_id = 9, es_facts_commitment = 0, es_reporter = Some 1\<rparr>,
     sub_history = path_of wire_externals sample_history 0\<rparr>"

definition sample_sanction :: sanction where
  "sample_sanction = \<lparr>sn_offence_id = 9, sn_offender = sample_offender, sn_kind = Slash\<rparr>"

definition sample_transfer :: transfer_tx where
  "sample_transfer = \<lparr>tr_from = 1, tr_to = 2, tr_amount = 5, tr_nonce = 0, tr_signature = 1\<rparr>"

definition sample_input :: stf_input where
  "sample_input = \<lparr>si_evidence_anchor = sample_anchor, si_chain_id = 1, si_block_height = 10,
     si_block_gas_limit = 20480000, si_proposer_address = 3, si_participation = None,
     si_transactions = [SubmitEvidence sample_evidence, Transfer sample_transfer]\<rparr>"

definition sample_state :: state where
  "sample_state =
     store_account wire_externals
       (store_consensus_candidates wire_externals
         (store_validator_set wire_externals
           (store_validator wire_externals Map.empty 4 \<lparr>stake = 40000000000, active = True\<rparr>)
           \<lparr>vs_entries = [\<lparr>vse_address = 4, vse_stake = 40000000000\<rparr>]\<rparr>)
         \<lparr>cc_entries = [\<lparr>cand_address = 4, cand_stake = 40000000000, cand_identity = None\<rparr>]\<rparr>)
       1 \<lparr>nonce = 0, balance = 100000\<rparr>"

subsection \<open>The sample state satisfies the chain invariant\<close>

lemma load_empty [simp]:
  "load_account E Map.empty a = default_account"
  "load_validator_record E Map.empty a = None"
  "load_validator E Map.empty a = default_validator"
  "load_withdrawal_queue E Map.empty a = \<lparr>wq_entries = []\<rparr>"
  "load_validator_set E Map.empty = \<lparr>vs_entries = []\<rparr>"
  "load_consensus_candidates E Map.empty = \<lparr>cc_entries = []\<rparr>"
  "load_validator_registrations E Map.empty = \<lparr>reg_addresses = []\<rparr>"
  "load_validator_registration E Map.empty a = None"
  "load_bonding E Map.empty a = None"
  "load_runtime_policy E Map.empty = default_runtime_policy"
  "load_proposal E Map.empty = None"
  "load_participation E Map.empty = None"
  "queue_of E Map.empty = []"
  "totals_of E Map.empty = default_totals"
  by (simp_all add: load_account_def load_validator_record_def load_validator_def load_withdrawal_queue_def
      load_validator_set_def load_consensus_candidates_def load_validator_registrations_def
      load_validator_registration_def load_bonding_def load_runtime_policy_def load_proposal_def
      load_participation_def queue_of_def totals_of_def read_record_def)

lemma sample_loads [simp]:
  "load_account wire_externals sample_state a = (if a = 1 then \<lparr>nonce = 0, balance = 100000\<rparr> else default_account)"
  "load_validator_record wire_externals sample_state a = (if a = 4 then Some \<lparr>stake = 40000000000, active = True\<rparr> else None)"
  "load_validator wire_externals sample_state a = (if a = 4 then \<lparr>stake = 40000000000, active = True\<rparr> else default_validator)"
  "load_withdrawal_queue wire_externals sample_state a = \<lparr>wq_entries = []\<rparr>"
  "load_validator_set wire_externals sample_state = \<lparr>vs_entries = [\<lparr>vse_address = 4, vse_stake = 40000000000\<rparr>]\<rparr>"
  "load_consensus_candidates wire_externals sample_state =
     \<lparr>cc_entries = [\<lparr>cand_address = 4, cand_stake = 40000000000, cand_identity = None\<rparr>]\<rparr>"
  "load_validator_registrations wire_externals sample_state = \<lparr>reg_addresses = []\<rparr>"
  "load_validator_registration wire_externals sample_state a = None"
  "load_bonding wire_externals sample_state a = None"
  "load_runtime_policy wire_externals sample_state = default_runtime_policy"
  "load_proposal wire_externals sample_state = None"
  "queue_of wire_externals sample_state = []"
  "totals_of wire_externals sample_state = default_totals"
  by (simp_all add: sample_state_def slot_ops)

lemma sample_keys [simp]:
  "sample_state (key_bytes (KExpiry h)) = None"
  "sample_state (key_bytes KQueue) = None"
  "sample_state (key_bytes KTotals) = None"
  "sample_state (key_bytes (KAbsent c)) = None"
  "sample_state (key_bytes (KSlashed p)) = None"
  "sample_state (key_bytes (KOffence o_id)) = None"
  by (simp_all add: sample_state_def slot_ops)

lemma sample_staking_inv: "staking_inv wire_externals sample_state"
  by (auto simp: staking_inv_def indexes_sorted_def records_ok_def mirror_at_def seat_of_def candidate_of_def
      index_lookup_def)

lemma sample_mandatory_inv: "mandatory_inv wire_externals sample_state"
  by (simp add: mandatory_inv_def buckets_ok_def queue_ok_def totals_ok_def absences_ok_def)

lemma default_policy_valid: "policy_is_valid_for default_runtime_policy sample_anchor"
  by (simp add: policy_is_valid_for_def policy_is_well_formed_def anchor_is_well_formed_def sample_anchor_def
      default_runtime_policy_def from_params_def default_runtime_params_def MAX_PENDING_def BASIS_POINTS_def
      DEFAULT_REPORTER_REWARD_BPS_def)

lemma sample_governance_inv: "governance_inv wire_externals sample_anchor sample_state"
  by (simp add: governance_inv_def default_policy_valid)

lemma sum_one: "(\<Sum>a\<in>UNIV. if a = c then n else 0) = (n :: nat)" for c :: hash
  by (simp add: sum.delta)

lemma sample_supply: "coin_supply wire_externals sample_state = 40000100000"
proof -
  have "total_balance wire_externals sample_state = 100000"
    using sum_one [of 1 100000] by (simp add: total_balance_def default_account_def if_distrib cong: if_cong)
  moreover have "total_bonded wire_externals sample_state = 40000000000"
    using sum_one [of 4 40000000000] by (simp add: total_bonded_def default_validator_def if_distrib cong: if_cong)
  moreover have "total_queued wire_externals sample_state = 0" by (simp add: total_queued_def)
  ultimately show ?thesis
    by (simp add: coin_supply_def total_funds_def burned_total_def default_totals_def default_kind_totals_def
        default_counter_def)
qed

lemma sample_chain_inv: "chain_inv wire_externals sample_anchor sample_state"
  using sample_staking_inv sample_mandatory_inv sample_governance_inv sample_supply
  by (simp add: chain_inv_def)

subsection \<open>The sample block runs\<close>

lemma sample_binds: "binds wire_externals sample_evidence 1 10 sample_anchor"
proof -
  have "path_verify wire_externals (path_of wire_externals sample_history 0)
      (commitment wire_externals (context_codec wire_externals) sample_context) (tree_root wire_externals sample_history)"
    using path_of_verifies [of 0 sample_history wire_externals] by (simp add: sample_history_def)
  then show ?thesis
    by (simp add: binds_def Let_def sample_evidence_def sample_context_def sample_anchor_def path_of_def
        sample_history_def)
qed

lemma sample_input_simps [simp]:
  "si_evidence_anchor sample_input = sample_anchor" "si_chain_id sample_input = 1"
  "si_block_height sample_input = 10" "si_block_gas_limit sample_input = 20480000"
  "si_participation sample_input = None"
  "si_transactions sample_input = [SubmitEvidence sample_evidence, Transfer sample_transfer]"
  "ea_unbonding_delay_blocks sample_anchor = 302400" "ea_chunk_id sample_anchor = 1"
  by (simp_all add: sample_input_def sample_anchor_def)

lemma default_policy_simps [simp]:
  "gas_price default_runtime_policy = 1" "evidence_max_pending default_runtime_policy = 1024"
  "evidence_admissions_per_block default_runtime_policy = 16"
  "evidence_executions_per_block default_runtime_policy = 16"
  "slash_amount default_runtime_policy = - 1" "reporter_reward_bps default_runtime_policy = 1000"
  by (simp_all add: default_runtime_policy_def from_params_def default_runtime_params_def DEFAULT_REPORTER_REWARD_BPS_def)

lemma sample_validated: "validate_input wire_externals sample_input = Inr sample_input"
proof -
  have "anchor_is_well_formed sample_anchor" using default_policy_valid by (simp add: policy_is_valid_for_def)
  then show ?thesis
    using sample_binds
    by (simp add: validate_input_def try_validate_input_def check_admissions_def checked_add_def MAX_PENDING_def)
qed

lemma sample_plan:
  "mandatory_plan wire_externals sample_input sample_state default_runtime_policy
     = Inr ([], sample_state, [sample_sanction], 1, 5000)"
proof -
  have pol: "check_policy sample_input default_runtime_policy = Inr ()"
    using default_policy_valid
    by (simp add: check_policy_def within_age_def Let_def sample_evidence_def sample_context_def checked_add_def)
  have sweep: "sweep_expired_markers wire_externals sample_state 10 302400 = Inr sample_state"
    by (simp add: sweep_expired_markers_def checked_sub_def)
  have claim: "marker_key (sub_statement sample_evidence) = key_bytes (KSlashed 7)"
    unfolding marker_key_eq by (simp add: marker_of_def claim_sanction_def sample_evidence_def sample_offender_def)
  have admit: "collect_admissions wire_externals sample_input sample_state = Inr [sample_sanction]"
    by (simp add: collect_admissions_def Let_def claim)
      (simp add: sample_evidence_def sample_sanction_def)
  show ?thesis
    unfolding mandatory_plan_def pol res_bind_simps
    by (simp add: sweep admit Let_def checked_mul_def checked_add_def GAS_SANCTION_def GAS_EVIDENCE_ADMISSION_def)
qed

lemma sample_phase:
  "\<exists>m s'. accountability_apply wire_externals sample_input sample_state default_runtime_policy = Inr (m, s')
     \<and> ao_admitted (mn_output m) = [sample_sanction]"
proof -
  let ?item = "pending_of default_runtime_policy sample_sanction sample_evidence"
  let ?s = "sample_state(key_bytes (KSlashed 7) \<mapsto> [0])"
  have mark: "sanction_marker_key sample_sanction = key_bytes (KSlashed 7)"
    by (simp add: sanction_marker_key_eq marker_of_def sample_sanction_def sample_offender_def)
  have enq: "enqueue_admissions sample_state sample_input default_runtime_policy [sample_sanction] [] = Inr (?s, [?item])"
    by (simp add: enqueue_admissions_def mark)
  have bucket: "record_expiry_bucket wire_externals ?s 10 [sample_sanction] = ?s"
    by (simp add: record_expiry_bucket_def sample_sanction_def)
  have totals: "load_totals wire_externals ?s = Inr default_totals"
    by (simp add: load_totals_def read_canonical_def)
  have "pn_reporter_reward_bps ?item \<le> BASIS_POINTS" by (simp add: pending_of_def BASIS_POINTS_def)
  then obtain rs s4 t2 where "execute_loop wire_externals [?item] ?s
      (foldl (\<lambda>t sn. totals_admitted (sn_kind sn) t) default_totals [sample_sanction]) = Inr (rs, s4, t2)"
    using borsh.execute_loop_runs [OF wire_borsh] by (metis empty_iff insert_iff list.set)
  then show ?thesis
    unfolding accountability_apply_def sample_plan res_bind_simps prod.case mandatory_run_def enq
    by (simp add: bucket totals Let_def)
qed

lemma put_list_words: "length (put_list (put (word_wire n)) xs) = 1 + length xs * (1 + n)"
  by (induction xs) (simp_all add: word_wire_def)

lemma sample_sizes:
  "length (enc (transaction_codec wire_externals) (SubmitEvidence sample_evidence)) < 2 ^ 32"
  "length (enc (transaction_codec wire_externals) (Transfer sample_transfer)) < 2 ^ 32"
  by (simp_all add: wire_externals_def codec_of_def transaction_wire_def iso_wire_def sum_wire_def
      transfer_tx_wire_def pair_wire_def word_wire_def evidence_submission_wire_def evidence_statement_wire_def
      history_path_wire_def list_wire_def option_wire_def sanction_kind_wire_def bool_wire_def
      evidence_context_wire_def consensus_validator_wire_def sample_evidence_def sample_transfer_def path_of_def
      put_list_words [unfolded word_wire_def, simplified])

lemma sample_commitments: "\<exists>r c. transaction_commitments wire_externals (si_transactions sample_input) = Inr (r, c)"
  using sample_sizes by (simp add: transaction_commitments_def transaction_leaves_map)

lemma sample_block:
  obtains out s' where "apply_block wire_externals root sample_input sample_state = Inr (out, s')"
    and "ao_admitted (so_accountability out) = [sample_sanction]"
proof -
  obtain m s2 where acc: "accountability_apply wire_externals sample_input sample_state default_runtime_policy = Inr (m, s2)"
    and adm: "ao_admitted (mn_output m) = [sample_sanction]" using sample_phase by blast
  obtain r c where "transaction_commitments wire_externals (si_transactions sample_input) = Inr (r, c)"
    using sample_commitments by blast
  then obtain out s' where "apply_block wire_externals root sample_input sample_state = Inr (out, s')"
    "so_accountability out = mn_output m"
    using sample_validated acc
    by (simp add: apply_block_def apply_block_validated_def apply_participation_def Let_def split_beta
        del: sample_input_simps(6))
  then show thesis using that adm by simp
qed

subsection \<open>The sample transfer applies\<close>

definition sample_facts :: block_facts where
  "sample_facts = \<lparr>bf_input = sample_input, bf_gas_price = 1, bf_min_validator_stake = 32000000000,
     bf_governance = \<lparr>bc_chunk = 1, bc_height = 10, bc_anchor = sample_anchor, bc_pending_sanctions = 0\<rparr>,
     bf_backlog = backlog_of []\<rparr>"

lemma sample_transfer_runs:
  obtains s1 where "apply_transaction wire_externals sample_facts 1000 (Transfer sample_transfer) sample_state = Inr s1"
    and "config_inv wire_externals (s1, 0)"
proof -
  obtain s1 where run: "apply_transaction wire_externals sample_facts 1000 (Transfer sample_transfer) sample_state = Inr s1"
    by (simp add: apply_transfer_def check_transfer_def authenticate_def verify_signature_def sample_transfer_def
        check_payer_def authorize_def signer_account_def require_amount_def checked_add_def Let_def default_account_def
        res_bind_def map_err_def)
  have "tx_sender (Transfer sample_transfer) = Some 1" by (simp add: sample_transfer_def)
  note h = borsh.transaction_contract [OF wire_borsh this]
  have "total_funds wire_externals sample_state = 40000100000"
    using sample_supply by (simp add: coin_supply_def burned_total_def default_totals_def default_kind_totals_def
        default_counter_def)
  then have "total_funds wire_externals s1 \<le> 40000100000"
    using signed_handler.success_funds [OF h run] by simp
  moreover have frm: "frame {k. \<not> mandatory_key k} sample_state s1" by (rule signed_handler.success_frame [OF h run])
  have "totals_of wire_externals s1 = default_totals" by (simp add: frame_queue_loads(2) [OF frm])
  moreover have "mandatory_inv wire_externals s1"
    using borsh.mandatory_frame_inv [OF wire_borsh frm] sample_mandatory_inv by simp
  ultimately show thesis
    using that run by (simp add: config_inv_def coin_supply_def burned_total_def default_totals_def
        default_kind_totals_def default_counter_def)
qed

subsection \<open>A state with a pending obligation\<close>

definition sample_item :: pending_sanction where
  "sample_item = pending_of default_runtime_policy sample_sanction sample_evidence"

definition queued_state :: state where
  "queued_state = sample_state(key_bytes KQueue \<mapsto> enc (sanction_queue_codec wire_externals) [sample_item])"

definition idle_input :: stf_input where
  "idle_input = sample_input\<lparr>si_transactions := []\<rparr>"

lemma idle_input_empty: "empty_input sample_anchor idle_input"
  by (simp add: empty_input_def idle_input_def sample_input_def same_genesis_def)

lemma queued_frame: "frame {KQueue} sample_state queued_state"
  by (auto simp: queued_state_def intro!: frame_upd)

lemma queued_loads [simp]:
  "queue_of wire_externals queued_state = [sample_item]"
  "load_runtime_policy wire_externals queued_state = default_runtime_policy"
  by (simp_all add: queued_state_def queue_upd load_upd)

lemma idle_affordable: "sanctions_affordable idle_input default_runtime_policy [sample_item]"
proof -
  have "executions_of default_runtime_policy [sample_item] \<le> 1" by (simp add: executions_of_def)
  then show ?thesis by (simp add: sanctions_affordable_def idle_input_def GAS_SANCTION_def)
qed

lemma sample_validates_transfer:
  "tv_code (validate_tx wire_externals (enc (transaction_codec wire_externals) (Transfer sample_transfer))
     sample_state 1 20480000) = TxValid"
proof -
  have "dec (transaction_codec wire_externals) (enc (transaction_codec wire_externals) (Transfer sample_transfer))
      = Some (Transfer sample_transfer)"
    by (rule borsh.transaction_law [OF wire_borsh]) (simp add: decodable_def)
  then show ?thesis
    by (simp add: validate_tx_def GAS_TRANSFER_def validate_decoded_def admission_def tx_valid_def check_transfer_def
        authenticate_def verify_signature_def sample_transfer_def check_payer_def authorize_def signer_account_def
        require_amount_def checked_add_def saturating_mul_def checked_mul_def Let_def res_bind_def map_err_def)
qed

lemma queued_chain_inv: "chain_inv wire_externals sample_anchor queued_state"
proof -
  have "staking_inv wire_externals queued_state"
    using staking_inv_frame [OF queued_frame] sample_staking_inv by simp
  moreover have "governance_inv wire_externals sample_anchor queued_state"
    using governance_inv_frame [OF queued_frame] sample_governance_inv by simp
  moreover have "coin_supply wire_externals queued_state = coin_supply wire_externals sample_state"
    by (rule coin_supply_frame [OF queued_frame]) simp_all
  moreover have "mandatory_inv wire_externals queued_state"
    by (simp add: mandatory_inv_def buckets_ok_def queue_ok_def totals_ok_def absences_ok_def queued_state_def
        sample_item_def pending_of_def BASIS_POINTS_def)
  ultimately show ?thesis by (simp add: chain_inv_def sample_supply)
qed

lemma queued_stored: "queue_stored wire_externals queued_state [sample_item]"
  by (simp add: queue_stored_def queued_state_def)

lemma queued_digests: "suffix_digests_distinct wire_externals [sample_item]"
proof -
  have "of_le_bytes (1 # bs) \<noteq> (of_le_bytes [0] :: hash)" for bs :: bytes
  proof -
    have "odd (1 + 256 * horner_sum uint 256 bs :: int)" by simp
    then have "(1 + 256 * horner_sum uint 256 bs) mod 2 ^ 256 \<noteq> (0 :: int)"
      using dvd_trans [of 2 "2 ^ 256 :: int" "1 + 256 * horner_sum uint 256 bs"]
      by (metis dvd_power mod_0_imp_dvd zero_less_numeral)
    then have "uint (of_le_bytes (1 # bs) :: hash) \<noteq> 0"
      unfolding of_le_bytes_def uint_word_of_int horner_sum_simps by simp
    moreover have "uint (of_le_bytes [0] :: hash) = 0" by (simp add: of_le_bytes_def)
    ultimately show ?thesis by metis
  qed
  then show ?thesis
    by (simp add: suffix_digests_distinct_def wire_externals_def codec_of_def list_wire_def)
qed

subsection \<open>A sender at the largest nonce\<close>

definition spent_state :: state where
  "spent_state = store_account wire_externals sample_state 1 \<lparr>nonce = - 1, balance = 100000\<rparr>"

lemma spent_account:
  "load_account wire_externals spent_state a = (if a = 1 then \<lparr>nonce = - 1, balance = 100000\<rparr> else default_account)"
  by (simp add: spent_state_def slot_ops)

lemma spent_funds: "total_funds wire_externals spent_state < 2 ^ 128"
proof -
  have "(\<lambda>a. balance (load_account wire_externals spent_state a)) = (\<lambda>a. balance (load_account wire_externals sample_state a))"
    by (simp add: fun_eq_iff spent_account)
  moreover have "frame {KAccount 1} sample_state spent_state" by (auto simp: spent_state_def intro!: frame_stores)
  ultimately have "total_funds wire_externals spent_state = total_funds wire_externals sample_state"
    by (simp add: total_funds_def total_balance_def total_bonded_def total_queued_def load_validator_def
        frame_loads fun_eq_iff)
  then show ?thesis using sample_supply by (simp add: coin_supply_def)
qed

subsection \<open>A state with queued withdrawals\<close>

definition unbonding_state :: state where
  "unbonding_state = store_withdrawal_queue wire_externals sample_state 1
     \<lparr>wq_entries = [\<lparr>wd_amount = 500, mature_at_height = 5\<rparr>, \<lparr>wd_amount = 700, mature_at_height = 100\<rparr>]\<rparr>"

definition sample_withdraw :: withdraw_tx where
  "sample_withdraw = \<lparr>wt_validator = 1, wt_nonce = 0, wt_signature = 1\<rparr>"

lemma sample_funds: "total_funds wire_externals sample_state = 40000100000"
  using sample_supply
  by (simp add: coin_supply_def burned_total_def default_totals_def default_kind_totals_def default_counter_def)

lemma unbonding_loads:
  "load_account wire_externals unbonding_state = load_account wire_externals sample_state"
  "load_validator wire_externals unbonding_state = load_validator wire_externals sample_state"
  "load_withdrawal_queue wire_externals unbonding_state = (load_withdrawal_queue wire_externals sample_state)(1 :=
     \<lparr>wq_entries = [\<lparr>wd_amount = 500, mature_at_height = 5\<rparr>, \<lparr>wd_amount = 700, mature_at_height = 100\<rparr>]\<rparr>)"
  by (auto simp: fun_eq_iff unbonding_state_def slot_ops)

lemma unbonding_funds: "total_funds wire_externals unbonding_state = 40000101200"
  using total_queued_upd [OF unbonding_loads(3)] sample_funds
  by (simp add: total_funds_def total_same(1) [OF unbonding_loads(1)] total_same(2) [OF unbonding_loads(2)])

lemma sample_withdraw_runs:
  "\<exists>s'. apply_withdraw wire_externals unbonding_state 1 10 (backlog_of []) 50000 sample_withdraw = Inr s'"
  by (simp add: apply_withdraw_def check_withdraw_def authenticate_def verify_signature_def sample_withdraw_def
      signer_account_def unbonding_loads matured_amount_def pending_entries_def holds_def backlog_of_def Let_def
      checked_add_def checked_sub_def saturating_add_def res_bind_def map_err_def)

subsection \<open>A state with an open proposal\<close>

definition sample_proposal :: upgrade_proposal where
  "sample_proposal = \<lparr>up_proposer = 9, up_action = Policy (default_runtime_policy\<lparr>gas_price := 2\<rparr>),
     up_proposed_at_chunk = 1, up_voters = [9]\<rparr>"

definition voting_state :: state where
  "voting_state = store_proposal wire_externals (store_account wire_externals sample_state 4
     \<lparr>nonce = 0, balance = 90000\<rparr>) sample_proposal"

definition sample_vote :: vote_upgrade_tx where
  "sample_vote = \<lparr>vu_voter = 4, vu_proposal_id = upgrade_proposal_id wire_externals sample_proposal,
     vu_nonce = 0, vu_signature = 1\<rparr>"

lemma voting_frame: "frame {KProposal, KAccount 4} sample_state voting_state"
  unfolding voting_state_def store_proposal_def write_record_def key_bytes_sym
  by (intro frame_upd frame_stores frame_refl) auto

lemma voting_proposal: "load_proposal wire_externals voting_state = Some sample_proposal"
  by (simp add: voting_state_def slot_ops)

lemma voting_account: "load_account wire_externals voting_state
   = (load_account wire_externals sample_state)(4 := \<lparr>nonce = 0, balance = 90000\<rparr>)"
  by (auto simp: fun_eq_iff voting_state_def slot_ops)

lemma voting_staking_inv: "staking_inv wire_externals voting_state"
  using staking_inv_frame [OF voting_frame] sample_staking_inv by simp

lemma voting_governance_inv: "governance_inv wire_externals sample_anchor voting_state"
proof -
  have "load_runtime_policy wire_externals voting_state = default_runtime_policy"
    by (simp add: frame_loads(9) [OF voting_frame])
  moreover have "policy_is_valid_for (default_runtime_policy\<lparr>gas_price := 2\<rparr>) sample_anchor"
    using default_policy_valid by (simp add: policy_is_valid_for_def policy_is_well_formed_def)
  ultimately show ?thesis
    by (simp add: governance_inv_def default_policy_valid voting_proposal proposal_ok_def sample_proposal_def)
qed

lemma voting_funds: "total_funds wire_externals voting_state < 2 ^ 128"
proof -
  have lv: "load_validator wire_externals voting_state = load_validator wire_externals sample_state"
    and lq: "load_withdrawal_queue wire_externals voting_state = load_withdrawal_queue wire_externals sample_state"
    by (auto simp: fun_eq_iff voting_state_def slot_ops)
  show ?thesis
    using total_balance_upd [OF voting_account] sample_funds total_same(2) [OF lv] total_same(3) [OF lq]
    by (simp add: total_funds_def default_account_def)
qed

end
