(* ===== verification/Runtime_Properties.thy ===== *)
theory Runtime_Properties
  imports Sample_Chain
begin

text \<open>
  What the runtime promises of whole blocks and chains of blocks, over the definitions of the
  state transition function, with the borsh laws as the only assumption on code outside the
  repository. Each property with a hypothesis is followed by a closed instance.
\<close>

subsection \<open>Chains of blocks\<close>

text \<open>
  C1. No block creates or destroys coins. Along every chain of blocks, spendable balances, bonded
  stake, queued withdrawals and the burned total recorded by the settlement counters keep their
  sum: a transaction only moves funds, fees reach the proposer, a sanction moves its deduction
  into the reporter's balance and the burned total.
\<close>

theorem supply_conserved:
  assumes "borsh E" and "blocks E root s bs s'" and "chain_inv E a s"
    and "\<forall>b\<in>set bs. same_genesis (si_evidence_anchor (fst b)) a"
  shows "coin_supply E s' = coin_supply E s"
  using borsh.blocks_chain_inv [OF assms(1,2,3)] assms(4) by blast

theorem supply_conserved_witness:
  "\<exists>out s'. blocks wire_externals (\<lambda>_. 0) sample_state [(sample_input, out)] s'
     \<and> coin_supply wire_externals s' = 40000100000"
proof -
  obtain out s' where "apply_block wire_externals (\<lambda>_. 0) sample_input sample_state = Inr (out, s')"
    by (rule sample_block)
  then have run: "blocks wire_externals (\<lambda>_. 0) sample_state [(sample_input, out)] s'" by simp
  have "\<forall>b\<in>set [(sample_input, out)]. same_genesis (si_evidence_anchor (fst b)) sample_anchor"
    by (simp add: same_genesis_def)
  from supply_conserved [OF wire_borsh run sample_chain_inv this] sample_supply run show ?thesis by auto
qed

text \<open>
  C6. Every block keeps the runtime's records consistent: the validator set and the candidate
  list stay sorted and mirror the validator records and registrations address by address, a
  record is active exactly when it holds stake, the policy in force and any open proposal stay
  valid for the chain, the mandatory queue, the expiry buckets, the absence lists and the
  settlement totals stay decodable, and the supply stays below 2^128.
\<close>

theorem chain_inv_preserved:
  assumes "borsh E" and "apply_block E root input s = Inr (out, s')" and "chain_inv E a s"
    and "same_genesis (si_evidence_anchor input) a"
  shows "staking_inv E s' \<and> mandatory_inv E s' \<and> governance_inv E a s' \<and> coin_supply E s' < 2 ^ 128"
  using borsh.block_chain_inv(1) [OF assms] by (simp add: chain_inv_def)

theorem chain_inv_preserved_witness:
  "\<exists>out s'. apply_block wire_externals (\<lambda>_. 0) sample_input sample_state = Inr (out, s')
     \<and> staking_inv wire_externals s' \<and> governance_inv wire_externals sample_anchor s'"
proof -
  obtain out s' where run: "apply_block wire_externals (\<lambda>_. 0) sample_input sample_state = Inr (out, s')"
    by (rule sample_block)
  have "same_genesis (si_evidence_anchor sample_input) sample_anchor" by (simp add: same_genesis_def)
  from chain_inv_preserved [OF wire_borsh run sample_chain_inv this] run show ?thesis by blast
qed

text \<open>
  C4. A validator identity is slashed at most once in the life of the chain: over every chain of
  blocks, the identities of all admitted safety claims are pairwise distinct, and none of them
  carried a tombstone before the chain.
\<close>

theorem slashed_at_most_once:
  assumes "borsh E" and "blocks E root s bs s'" and "chain_inv E a s"
    and "\<forall>b\<in>set bs. same_genesis (si_evidence_anchor (fst b)) a"
  shows "distinct (concat (map (\<lambda>b. slashed_of (snd b)) bs))
    \<and> (\<forall>p\<in>set (concat (map (\<lambda>b. slashed_of (snd b)) bs)). s (key_bytes (KSlashed p)) = None)"
  using borsh.blocks_slashed_once [OF assms(1,2,3)] assms(4) by blast

theorem slashed_at_most_once_witness:
  "\<exists>out s'. blocks wire_externals (\<lambda>_. 0) sample_state [(sample_input, out)] s'
     \<and> slashed_of out = [7] \<and> sample_state (key_bytes (KSlashed 7)) = None"
proof -
  obtain out s' where "apply_block wire_externals (\<lambda>_. 0) sample_input sample_state = Inr (out, s')"
    and adm: "ao_admitted (so_accountability out) = [sample_sanction]"
    by (rule sample_block)
  then have run: "blocks wire_externals (\<lambda>_. 0) sample_state [(sample_input, out)] s'" by simp
  have gen: "\<forall>b\<in>set [(sample_input, out)]. same_genesis (si_evidence_anchor (fst b)) sample_anchor"
    by (simp add: same_genesis_def)
  have out: "slashed_of out = [7]"
    using adm by (simp add: slashed_of_def sample_sanction_def sample_offender_def)
  from slashed_at_most_once [OF wire_borsh run sample_chain_inv gen] out run show ?thesis
    by (intro exI [of _ out] exI [of _ s']) (simp add: out)
qed

lemma saturating_succ_less: "n \<noteq> - 1 \<Longrightarrow> n < saturating_add n 1" for n :: u64
  using unat_max_word [where 'a = 64] unat_lt [of n]
  by (auto simp: word_less_nat_alt unat_saturating_add word_unat_eq_iff min_def)

text \<open>
  C5. A transaction with a sender (every kind but a submission of evidence, which the admission of
  evidence guards) and a nonce below the largest u64 executes at most once. Once it has been applied,
  every later state of the runtime (any number of steps of any later blocks) refuses it without
  charging its sender. At the largest u64 the nonce counter saturates and the protection is lost.
\<close>

theorem applied_never_again:
  assumes "borsh E" and "apply_transaction E facts fee tx s = Inr s1" and "tx_sender tx = Some p"
    and "tx_nonce tx \<noteq> - 1" and "config_inv E (s1, pot)" and "(runtime_step E)\<^sup>*\<^sup>* (s1, pot) (s2, pot')"
  shows "\<exists>f. apply_transaction E facts' fee' tx s2 = Inl f \<and> payer f = None"
proof -
  note l = borsh.applied_nonce(2) [OF assms(1-3)] borsh.steps_nonce [OF assms(1,6,5), of p]
  have "tx_nonce tx < nonce (load_account E s2 p)" using l saturating_succ_less [OF assms(4)] by auto
  from borsh.stale_rejected [OF assms(1,3) this] show ?thesis .
qed

theorem applied_never_again_witness:
  "\<exists>s1 f. apply_transaction wire_externals sample_facts 1000 (Transfer sample_transfer) sample_state = Inr s1
     \<and> apply_transaction wire_externals sample_facts 1000 (Transfer sample_transfer) (expire wire_externals s1 2) = Inl f
     \<and> payer f = None"
proof -
  obtain s1 where run: "apply_transaction wire_externals sample_facts 1000 (Transfer sample_transfer) sample_state = Inr s1"
    and inv: "config_inv wire_externals (s1, 0)" by (rule sample_transfer_runs)
  have "tx_sender (Transfer sample_transfer) = Some 1" "tx_nonce (Transfer sample_transfer) \<noteq> - 1"
    by (simp_all add: sample_transfer_def)
  moreover have "(runtime_step wire_externals)\<^sup>*\<^sup>* (s1, 0) (expire wire_externals s1 2, 0)"
    by (rule r_into_rtranclp) (rule runtime_step.expiry)
  ultimately show ?thesis using applied_never_again [OF wire_borsh run _ _ inv] run by metis
qed

lemma two_accounts_le_total:
  assumes "a \<noteq> b"
  shows "unat (balance (load_account E s a)) + unat (balance (load_account E s b)) \<le> total_balance E s"
proof -
  have "(\<Sum>x\<in>{a, b}. unat (balance (load_account E s x))) \<le> total_balance E s"
    unfolding total_balance_def by (rule sum_mono2) auto
  then show ?thesis using assms by simp
qed

lemma transfer_runs:
  assumes "check_transfer E s c fee tx = Inr x" and "total_funds E s < 2 ^ 128"
  shows "\<exists>s'. apply_transfer E s c fee tx = Inr s'"
proof -
  obtain acc debit where x: "x = (acc, debit)" by (cases x)
  have chk: "check_payer E s (tr_from tx) (tr_nonce tx) (tr_amount tx) fee = Inr (acc, debit)"
    using assms(1) by (auto simp: check_transfer_def res_iffs x)
  then have "unat (tr_amount tx) \<le> unat (balance (load_account E s (tr_from tx)))"
    by (auto simp: check_payer_Inr checked_add_Some_iff word_le_nat_alt)
  then have "checked_add (balance (load_account E s (tr_to tx))) (tr_amount tx) \<noteq> None"
    if "tr_from tx \<noteq> tr_to tx"
    using two_accounts_le_total [OF that, of E s] assms(2) by (simp add: checked_add_def total_funds_def)
  then show ?thesis
    using assms(1) by (cases "tr_from tx = tr_to tx") (auto simp: apply_transfer_def x Let_def)
qed

lemma saturated_transfer:
  assumes "borsh E" and "apply_transfer E s c fee tx = Inr s'" and "tr_nonce tx = - 1" and "tr_from tx \<noteq> tr_to tx"
  shows "nonce (load_account E s' (tr_from tx)) = - 1
    \<and> balance (load_account E s' (tr_from tx)) + tr_amount tx + fee = balance (load_account E s (tr_from tx))"
proof -
  have "saturating_add (- 1) 1 = (- 1 :: u64)"
    using unat_max_word [where 'a = 64] by (simp add: word_unat_eq_iff unat_saturating_add)
  with assms(2-4) show ?thesis
    by (auto simp: apply_transfer_def check_transfer_def res_iffs check_payer_Inr authorized_def checked_add_def
        store_account_def write_record_def load_upd codec_law_dec [OF borsh.account_law [OF assms(1)]] Let_def
        split: option.splits if_splits)
qed

text \<open>
  C34. Replay at the largest nonce. The counter saturates at the largest u64, so a transfer to
  another account signed with that nonce leaves its sender's nonce there, and the state it produces
  accepts the same signed transfer once more, in any block of the same chain, while the sender's
  balance covers it: the second application takes the amount and the fee again.
\<close>

theorem saturated_nonce_replays:
  assumes "borsh E" and "apply_transaction E facts fee (Transfer tx) s = Inr s1" and "tr_nonce tx = - 1"
    and "tr_from tx \<noteq> tr_to tx" and "total_funds E s < 2 ^ 128"
    and "si_chain_id (bf_input facts') = si_chain_id (bf_input facts)"
    and "unat (tr_amount tx) + unat fee \<le> unat (balance (load_account E s1 (tr_from tx)))"
  shows "nonce (load_account E s1 (tr_from tx)) = - 1
    \<and> (\<exists>s2. apply_transaction E facts' fee (Transfer tx) s1 = Inr s2
    \<and> balance (load_account E s2 (tr_from tx)) + tr_amount tx + fee = balance (load_account E s1 (tr_from tx)))"
proof -
  let ?p = "tr_from tx" and ?c = "si_chain_id (bf_input facts)"
  have run: "apply_transfer E s ?c fee tx = Inr s1" using assms(2) by simp
  have "tx_sender (Transfer tx) = Some ?p" by simp
  from signed_handler.success_funds [OF borsh.transaction_contract [OF assms(1) this] assms(2)] assms(5)
  have funds: "total_funds E s1 < 2 ^ 128" by simp
  note stored = saturated_transfer [OF assms(1) _ assms(3,4)]
  have auth: "authenticate E ?p (transfer_sig_message ?c tx) (tr_signature tx) = Inr ()"
    using run by (auto simp: apply_transfer_def check_transfer_def res_iffs)
  have sum: "checked_add (tr_amount tx) fee = Some (tr_amount tx + fee)" "tr_amount tx + fee \<le> balance (load_account E s1 ?p)"
    "fee \<le> balance (load_account E s1 ?p)"
    using assms(7) unat_lt [of "balance (load_account E s1 ?p)"]
    by (auto simp: checked_add_def word_le_nat_alt unat_add_exact)
  have "check_payer E s1 ?p (tr_nonce tx) (tr_amount tx) fee = Inr (load_account E s1 ?p, tr_amount tx + fee)"
    using stored [OF run] assms(3) sum by (simp add: check_payer_Inr authorized_def)
  then have "check_transfer E s1 ?c fee tx = Inr (load_account E s1 ?p, tr_amount tx + fee)"
    unfolding check_transfer_def auth by simp
  from transfer_runs [OF this funds] obtain s2 where "apply_transfer E s1 ?c fee tx = Inr s2" by blast
  with stored [OF run] stored assms(6) show ?thesis by auto
qed

theorem saturated_nonce_replays_witness:
  "\<exists>s1 s2. apply_transaction wire_externals sample_facts 1000 (Transfer (sample_transfer\<lparr>tr_nonce := - 1\<rparr>)) spent_state = Inr s1
     \<and> apply_transaction wire_externals sample_facts 1000 (Transfer (sample_transfer\<lparr>tr_nonce := - 1\<rparr>)) s1 = Inr s2"
proof -
  let ?t = "sample_transfer\<lparr>tr_nonce := - 1\<rparr>"
  obtain s1 where run: "apply_transaction wire_externals sample_facts 1000 (Transfer ?t) spent_state = Inr s1"
    by (simp add: apply_transfer_def check_transfer_def authenticate_def verify_signature_def sample_transfer_def
        check_payer_def authorize_def signer_account_def checked_add_def Let_def default_account_def spent_account
        res_bind_def map_err_def)
  have t: "tr_nonce ?t = - 1" "tr_from ?t \<noteq> tr_to ?t" by (simp_all add: sample_transfer_def)
  have "apply_transfer wire_externals spent_state (si_chain_id (bf_input sample_facts)) 1000 ?t = Inr s1" using run by simp
  from saturated_transfer [OF wire_borsh this t]
  have "balance (load_account wire_externals s1 1) + 5 + 1000 = 100000" by (simp add: sample_transfer_def spent_account)
  then have "balance (load_account wire_externals s1 1) = 98995"
    using eq_diff_eq [of "balance (load_account wire_externals s1 1) + 5" 100000 1000]
      eq_diff_eq [of "balance (load_account wire_externals s1 1)" 99000 5] by simp
  then have "unat (tr_amount ?t) + unat (1000 :: u128) \<le> unat (balance (load_account wire_externals s1 (tr_from ?t)))"
    by (simp add: sample_transfer_def)
  from saturated_nonce_replays [OF wire_borsh run t spent_funds refl this] run show ?thesis by blast
qed

subsection \<open>The mandatory phase\<close>

text \<open>
  C8. Sanctions execute in admission order. A block appends the obligations of its evidence
  prefix behind the stored queue, executes the front of the result up to the policy's cap, charges
  5000 gas for each execution inside the block's limit, leaves the rest as the backlog within the
  policy's bound, and (unless the queue digest collides) stores exactly that rest.
\<close>

theorem sanctions_fifo:
  assumes "borsh E" and "accountability_apply E input s policy = Inr (m, s')" and "mandatory_inv E s"
    and "coin_supply E s < 2 ^ 128"
  defines "all \<equiv> queue_of E s @ obligations policy (evidence_prefix (si_transactions input))"
  defines "n \<equiv> min (length all) (unat (evidence_executions_per_block policy))"
  shows "ao_executed (mn_output m) = map pn_sanction (take n all)
    \<and> mn_backlog m = backlog_of (drop n all) \<and> length (drop n all) \<le> unat (evidence_max_pending policy)
    \<and> unat (mn_gas m) = 5000 * n \<and> mn_gas m \<le> si_block_gas_limit input
    \<and> (queue_digest_exact E s (drop n all) \<longrightarrow> queue_of E s' = drop n all)"
proof -
  note q = borsh.phase_queue [OF assms(1-4), folded all_def [folded obligation_list_def], folded n_def]
  have "mn_gas m \<le> si_block_gas_limit input" using q(8) by (simp add: word_le_nat_alt)
  then show ?thesis using q(2,3,4,5,7) by simp
qed

theorem sanctions_fifo_witness:
  "\<exists>m s'. accountability_apply wire_externals sample_input sample_state default_runtime_policy = Inr (m, s')
     \<and> ao_executed (mn_output m) = [sample_sanction] \<and> mn_backlog m = backlog_of [] \<and> unat (mn_gas m) = 5000"
proof -
  obtain m s' where run: "accountability_apply wire_externals sample_input sample_state default_runtime_policy = Inr (m, s')"
    using sample_phase by blast
  have "coin_supply wire_externals sample_state < 2 ^ 128" by (simp add: sample_supply)
  from sanctions_fifo [OF wire_borsh run sample_mandatory_inv this] run show ?thesis
    by (intro exI [of _ m] exI [of _ s'])
      (simp add: obligations_def claim_sanction_def pending_of_def sample_evidence_def sample_sanction_def)
qed

text \<open>
  C9. One executed obligation deducts exactly its amount or everything the offender has at stake
  (active stake first, then the unbonding queue), never touches the offender's spendable balance,
  and fails only when nothing at all is at stake.
\<close>

theorem deduction_exact:
  assumes "borsh E"
    and "unat (stake (load_validator E s a)) + queue_sum (load_withdrawal_queue E s a) < 2 ^ 128"
  shows "case apply_deduction E s a amount of
      Inl st \<Rightarrow> st = InsufficientBalance
        \<and> unat (stake (load_validator E s a)) + queue_sum (load_withdrawal_queue E s a) = 0
    | Inr (burn, s') \<Rightarrow>
        unat burn = min (unat (stake (load_validator E s a)) + queue_sum (load_withdrawal_queue E s a)) (unat amount)
        \<and> unat (stake (load_validator E s' a)) = unat (stake (load_validator E s a)) - unat burn
        \<and> queue_sum (load_withdrawal_queue E s' a)
            = queue_sum (load_withdrawal_queue E s a) - (unat burn - unat (stake (load_validator E s a)))
        \<and> load_account E s' = load_account E s"
  using borsh.deduction_effect(1-4) [OF assms(1) _ assms(2)] borsh.deduction_error [OF assms(1), of s a amount]
  by (auto split: sum.splits)

theorem deduction_exact_witness:
  "\<exists>burn s'. apply_deduction wire_externals sample_state 4 7 = Inr (burn, s') \<and> burn = 7
     \<and> unat (stake (load_validator wire_externals s' 4)) = 39999999993"
proof -
  obtain burn s' where run: "apply_deduction wire_externals sample_state 4 7 = Inr (burn, s')"
    using borsh.deduction_error [OF wire_borsh, of sample_state 4 7] by (cases "apply_deduction wire_externals sample_state 4 7") auto
  have "unat (stake (load_validator wire_externals sample_state 4))
      + queue_sum (load_withdrawal_queue wire_externals sample_state 4) < 2 ^ 128" by simp
  from deduction_exact [OF wire_borsh this, of 7] run show ?thesis by (auto simp: word_unat_eq_iff)
qed

text \<open>
  C13. A safety obligation pays its reporter exactly the policy's share of the actual deduction,
  rounded down, and the counters record the rest as burned: with the deduction \<open>d\<close> and the reward
  \<open>r\<close>, the deducted counter grows by \<open>d\<close>, the rewarded one by \<open>r = d * bps / 10000\<close> and the burned
  one by \<open>d - r\<close>.
\<close>

theorem reporter_reward_exact:
  assumes "borsh E" and "execute_pending E s item t = Inr (Success, s', t')"
    and "sn_kind (pn_sanction item) = Slash" and "pn_reporter item = Some p"
    and "total_funds E s < 2 ^ 128"
  defines "a \<equiv> cv_withdrawal_credentials (sn_offender (pn_sanction item))"
  shows "\<exists>d r. unat d = min (unat (stake (load_validator E s a)) + queue_sum (load_withdrawal_queue E s a))
          (unat (pn_amount item))
    \<and> unat r = unat d * unat (pn_reporter_reward_bps item) div 10000
    \<and> unat (balance (load_account E s' p)) = unat (balance (load_account E s p)) + unat r
    \<and> kt_deducted (tot_slash t') = counter_add (kt_deducted (tot_slash t)) d
    \<and> kt_rewarded (tot_slash t') = counter_add (kt_rewarded (tot_slash t)) r
    \<and> kt_burned (tot_slash t') = counter_add (kt_burned (tot_slash t)) (d - r)"
proof -
  obtain d r s1 s2 where ded: "apply_deduction E s a (pn_amount item) = Inr (d, s1)"
    and cred: "credit_reporter E s1 p d (pn_reporter_reward_bps item) = Inr (r, s2)"
    and tot: "totals_executed Slash d r t = Inr t'"
    and s': "s' = s2(key_bytes (marker_of (pn_sanction item)) \<mapsto> [1])"
    by (rule borsh.execute_pending_run [OF assms(1,2)]) (use assms(3,4) in \<open>auto simp: a_def\<close>)
  have at_stake: "unat (stake (load_validator E s a)) + queue_sum (load_withdrawal_queue E s a)
      \<le> total_bonded E s + total_queued E s"
    by (rule add_mono [OF account_le_total(2,3)])
  then have bound: "unat (stake (load_validator E s a)) + queue_sum (load_withdrawal_queue E s a) < 2 ^ 128"
    using assms(5) by (simp add: total_funds_def)
  note de = borsh.deduction_effect [OF assms(1) ded bound]
  have "unat (balance (load_account E s p)) + unat d < 2 ^ 128"
    using account_le_total(1) [of E s p] at_stake de(1) assms(5) by (simp add: total_funds_def)
  then have room: "unat (balance (load_account E s1 p)) + unat d < 2 ^ 128" by (simp add: de(4))
  note ce = borsh.credit_reporter_effect [OF assms(1) cred]
  have "load_account E s' p = load_account E s2 p"
    by (simp add: s' load_upd marker_of_def assms(3))
  then have "unat (balance (load_account E s' p)) = unat (balance (load_account E s p)) + unat r"
    using ce(1,2) by (simp add: de(4) unat_add_exact)
  then show ?thesis
    using de(1) ce(5) [OF room] totals_executed_counters(1) [OF tot]
    by (intro exI [of _ d] exI [of _ r]) (simp add: kind_totals_def)
qed

theorem reporter_reward_exact_witness:
  "\<exists>s' t' r. execute_pending wire_externals sample_state sample_item default_totals = Inr (Success, s', t')
     \<and> unat r = 4000000000 \<and> kt_rewarded (tot_slash t') = counter_add default_counter r"
proof -
  have item: "sn_kind (pn_sanction sample_item) = Slash" "pn_reporter sample_item = Some 1"
    "pn_reporter_reward_bps sample_item = 1000" "pn_amount sample_item = - 1"
    "cv_withdrawal_credentials (sn_offender (pn_sanction sample_item)) = 4"
    by (simp_all add: sample_item_def pending_of_def sample_sanction_def sample_evidence_def sample_offender_def)
  have "pn_reporter_reward_bps sample_item \<le> BASIS_POINTS" by (simp add: item BASIS_POINTS_def)
  then obtain st s' t' where run: "execute_pending wire_externals sample_state sample_item default_totals = Inr (st, s', t')"
    using borsh.execute_pending_runs [OF wire_borsh] by blast
  have "\<not> apply_deduction wire_externals sample_state 4 (- 1) = Inl InsufficientBalance"
    by (simp add: borsh.deduction_error [OF wire_borsh])
  then have "st = Success"
    by - (rule borsh.execute_pending_run [OF wire_borsh run], auto simp: item)
  moreover have "total_funds wire_externals sample_state < 2 ^ 128"
    using sample_supply by (simp add: coin_supply_def)
  ultimately show ?thesis
    using reporter_reward_exact [OF wire_borsh run [unfolded \<open>st = Success\<close>] item(1,2)] run
    by (auto simp: item unat_max_word default_totals_def default_kind_totals_def)
qed

text \<open>
  C7. Every queued sanction is eventually executed. Start from a consistent state whose queue fits
  the policy, and run as many blocks without transactions as there are obligations. If the gas limit
  of each block pays for the sanctions the policy makes mandatory in a block, then all of them run
  without panicking and leave the queue empty, whatever their proposers, heights and reports are.
  The queue is rewritten only when its digest changes, so the suffixes of the queue are assumed to
  have distinct digests.
\<close>

theorem queue_eventually_drained:
  assumes "borsh E" and "\<forall>i. empty_input a (input i)" and "chain_inv E a s" and "queue_stored E s q"
    and "suffix_digests_distinct E q" and "length q \<le> unat (evidence_max_pending (load_runtime_policy E s))"
    and "\<forall>i. sanctions_affordable (input i) (load_runtime_policy E s) q" and "length q \<le> k"
  shows "\<exists>outs s'. length outs = k \<and> blocks E root s (zip (map input [0..<k]) outs) s' \<and> queue_of E s' = []"
  using borsh.queue_drains [OF assms(1), of a s q k input root 0] assms(2-8) by simp

theorem queue_eventually_drained_witness:
  "queue_of wire_externals queued_state = [sample_item] \<and>
   (\<exists>outs s'. length outs = 1 \<and> blocks wire_externals (\<lambda>_. 0) queued_state (zip (map (\<lambda>_. idle_input) [0..<1]) outs) s'
      \<and> queue_of wire_externals s' = [])"
proof -
  have inputs: "\<forall>i. empty_input sample_anchor ((\<lambda>_::nat. idle_input) i)" using idle_input_empty by simp
  have fits: "length [sample_item] \<le> unat (evidence_max_pending (load_runtime_policy wire_externals queued_state))"
    "length [sample_item] \<le> 1" by simp_all
  have gas: "\<forall>i. sanctions_affordable ((\<lambda>_::nat. idle_input) i) (load_runtime_policy wire_externals queued_state) [sample_item]"
    using idle_affordable by simp
  show ?thesis
    using queue_eventually_drained [OF wire_borsh inputs queued_chain_inv queued_stored queued_digests fits(1) gas fits(2),
        of "\<lambda>_. 0"] by simp
qed

text \<open>
  C16. Exactly when a block without transactions runs. In a consistent state it produces an output
  if the queue fits the policy and the block's gas limit pays for the sanctions the policy makes
  mandatory in this block; in every other case it panics. Nothing else about the block matters: not
  its proposer, its height or its participation report.
\<close>

theorem empty_block_runs_exactly:
  assumes "borsh E" and "empty_input a input" and "chain_inv E a s"
  shows "(\<exists>out s'. apply_block E root input s = Inr (out, s')) \<longleftrightarrow>
    length (queue_of E s) \<le> unat (evidence_max_pending (load_runtime_policy E s))
    \<and> min (length (queue_of E s)) (unat (evidence_executions_per_block (load_runtime_policy E s))) * unat GAS_SANCTION
        \<le> unat (si_block_gas_limit input)"
  using borsh.empty_block_iff [OF assms, of root] by (simp add: sanctions_affordable_def executions_of_def)

theorem empty_block_runs_exactly_witness:
  "(\<exists>out s'. apply_block wire_externals (\<lambda>_. 0) idle_input queued_state = Inr (out, s'))
   \<and> \<not> (\<exists>out s'. apply_block wire_externals (\<lambda>_. 0) (idle_input\<lparr>si_block_gas_limit := 0\<rparr>) queued_state = Inr (out, s'))"
proof -
  have "empty_input sample_anchor (idle_input\<lparr>si_block_gas_limit := 0\<rparr>)"
    using idle_input_empty by (simp add: empty_input_def)
  from empty_block_runs_exactly [OF wire_borsh this queued_chain_inv, of "\<lambda>_. 0"]
    empty_block_runs_exactly [OF wire_borsh idle_input_empty queued_chain_inv, of "\<lambda>_. 0"]
  show ?thesis using idle_affordable by (simp add: sanctions_affordable_def executions_of_def GAS_SANCTION_def)
qed

subsection \<open>Gas and receipts\<close>

lemma execute_loop_receipts:
  "execute_loop E items s t = Inr (rs, s', t') \<Longrightarrow>
     length rs = length items \<and> gas_sum rs = 5000 * length items \<and> (\<forall>r\<in>set rs. rc_kind r = 11)"
  by (induction items arbitrary: s t rs)
    (auto simp: res_iffs gas_sum_def GAS_SANCTION_def SANCTION_RECEIPT_KIND_def)

context borsh
begin

lemma phase_receipts:
  assumes run: "accountability_apply E input s policy = Inr (m, s')"
    and inv: "mandatory_inv E s" and bound: "coin_supply E s < 2 ^ 128"
  shows "gas_sum (mn_receipts m) = unat (mn_gas m)" and "length (mn_receipts m) = length (ao_executed (mn_output m))"
    and "\<forall>r\<in>set (mn_receipts m). rc_kind r = 11" and "mn_gas m \<le> si_block_gas_limit input"
proof -
  note q = phase_queue [OF assms]
  obtain s1 adm n g where r: "adm = map claim_sanction (evidence_prefix (si_transactions input))"
    "n \<le> length (obligation_list input policy (queue_of E s))"
    "mandatory_run E input policy
       (case s (key_bytes KQueue) of
          None \<Rightarrow> commitment E (sanction_queue_codec E) (queue_of E s) | Some b \<Rightarrow> blake3 E b)
       (queue_of E s) s1 adm n g = Inr (m, s')"
    by (rule phase_split [OF run]) simp
  obtain rs s3 s4 t0 t2 where ex: "execute_loop E (take n (obligation_list input policy (queue_of E s))) s3 t0 = Inr (rs, s4, t2)"
    and m: "mn_receipts m = rs" "ao_executed (mn_output m) = map pn_sanction (take n (obligation_list input policy (queue_of E s)))"
    by (rule mandatory_run_split [OF r(3,1,2) refl refl]) simp
  note l = execute_loop_receipts [OF ex]
  show "length (mn_receipts m) = length (ao_executed (mn_output m))" using l m by simp
  then show "gas_sum (mn_receipts m) = unat (mn_gas m)" using l m q(7,9) by simp
  show "\<forall>r\<in>set (mn_receipts m). rc_kind r = 11" using l m by simp
  show "mn_gas m \<le> si_block_gas_limit input" using q(8) by (simp add: word_le_nat_alt)
qed

lemma block_receipts:
  assumes run: "apply_block E root input s = Inr (out, s')" and inv: "mandatory_inv E s" "coin_supply E s < 2 ^ 128"
    and limit: "si_block_gas_limit input \<noteq> - 1"
  shows "so_gas_used out \<le> si_block_gas_limit input
    \<and> unat (so_applied out) + unat (so_failed out) = length (si_transactions input)
    \<and> (\<exists>rs. so_receipts_root out = compute_receipts_root E rs \<and> gas_sum rs = unat (so_gas_used out)
         \<and> map rc_kind rs = replicate (length (ao_executed (so_accountability out))) 11
             @ map tx_kind_code (si_transactions input))"
proof -
  obtain c s1 m s2 tr sm t s4 where part: "apply_participation E s (si_participation input) = (c, s1)"
    and acc: "accountability_apply E input s1 (load_runtime_policy E s) = Inr (m, s2)"
    and tc: "transaction_commitments E (si_transactions input) = Inr (tr, sm)"
    and ex: "execute_transactions E (block_facts_of input (load_runtime_policy E s) m) (si_transactions input)
       (initial_tally m) (expire E s2 (ea_chunk_id (si_evidence_anchor input))) = (t, s4)"
    and out: "so_accountability out = mn_output m" "so_applied out = tl_applied t" "so_failed out = tl_failed t"
      "so_gas_used out = tl_gas_used t" "so_receipts_root out = compute_receipts_root E (tl_receipts t)"
    by (rule block_split [OF run]) simp
  have inv1: "mandatory_inv E s1" "coin_supply E s1 < 2 ^ 128"
    using inv participation_effect(2) [OF part] participation_keeps(1) [OF part] by simp_all
  note p = phase_receipts [OF acc inv1]
  have len: "length (si_transactions input) < 2 ^ 32"
    using tc by (auto simp: transaction_commitments_def res_iffs split: if_splits)
  have g: "tl_gas_used t \<le> si_block_gas_limit input"
    "unat (tl_applied t) + unat (tl_failed t) = length (si_transactions input)"
    "\<exists>new. tl_receipts t = mn_receipts m @ new \<and> map rc_kind new = map tx_kind_code (si_transactions input)
       \<and> unat (tl_gas_used t) = unat (mn_gas m) + gas_sum new"
    using execute_transactions_gas [OF ex] p(4) limit len by (simp_all add: initial_tally_def block_facts_of_def)
  then obtain new where new: "tl_receipts t = mn_receipts m @ new"
    "map rc_kind new = map tx_kind_code (si_transactions input)" "unat (tl_gas_used t) = unat (mn_gas m) + gas_sum new"
    by blast
  have "map rc_kind (mn_receipts m) = replicate (length (ao_executed (mn_output m))) 11"
    using p(2,3) by (intro replicate_eqI) auto
  then have "map rc_kind (tl_receipts t) = replicate (length (ao_executed (mn_output m))) 11
      @ map tx_kind_code (si_transactions input)" by (simp add: new)
  moreover have "gas_sum (tl_receipts t) = unat (tl_gas_used t)" using p(1) by (simp add: new gas_sum_def)
  ultimately show ?thesis using g(1,2) by (auto simp: out)
qed

end

text \<open>
  C15. A block stays within its gas limit and accounts for every input: the gas it reports is the
  sum of its receipts' gas and at most the limit, the committed receipts are one per executed
  sanction followed by one per transaction in body order, and every transaction counts as either
  applied or failed.
\<close>

theorem gas_within_limit:
  assumes "borsh E" and "apply_block E root input s = Inr (out, s')" and "chain_inv E a s"
    and "si_block_gas_limit input \<noteq> - 1"
  shows "so_gas_used out \<le> si_block_gas_limit input
    \<and> unat (so_applied out) + unat (so_failed out) = length (si_transactions input)
    \<and> (\<exists>rs. so_receipts_root out = compute_receipts_root E rs \<and> gas_sum rs = unat (so_gas_used out)
         \<and> map rc_kind rs = replicate (length (ao_executed (so_accountability out))) 11
             @ map tx_kind_code (si_transactions input))"
  using borsh.block_receipts [OF assms(1,2)] assms(3,4) by (simp add: chain_inv_def)

theorem gas_within_limit_witness:
  "\<exists>out s'. apply_block wire_externals (\<lambda>_. 0) sample_input sample_state = Inr (out, s')
     \<and> unat (so_applied out) + unat (so_failed out) = 2 \<and> so_gas_used out \<le> 20480000"
proof -
  obtain out s' where run: "apply_block wire_externals (\<lambda>_. 0) sample_input sample_state = Inr (out, s')"
    by (rule sample_block)
  have "si_block_gas_limit sample_input \<noteq> - 1" by simp
  from gas_within_limit [OF wire_borsh run sample_chain_inv this] run show ?thesis by auto
qed

text \<open>
  C20. The receipts commitment binds the receipts: the byte string hashed into the receipts root
  is injective on receipt lists, so two different lists share a root only on a hash collision.
\<close>

theorem receipts_preimage_binding:
  assumes "length rs < 2 ^ 64" and "length rs' < 2 ^ 64"
  shows "receipts_preimage rs = receipts_preimage rs' \<longleftrightarrow> rs = rs'"
  using receipts_preimage_inject [OF _ assms] by auto

theorem receipts_preimage_binding_witness:
  "receipts_preimage [] \<noteq> receipts_preimage [\<lparr>rc_status_code = 0, rc_gas_used = 21000, rc_kind = 0\<rparr>]"
  using receipts_preimage_binding [of "[]" "[\<lparr>rc_status_code = 0, rc_gas_used = 21000, rc_kind = 0\<rparr>]"] by simp

subsection \<open>Transactions\<close>

text \<open>
  C19. A signed payload binds the chain and the whole transaction: two transactions, of any kinds
  and on any chains, that share a payload are on the same chain and agree on everything but their
  signatures (and, for a registration, the proof of possession, which the payload does not
  cover). A signature therefore authorizes no other transaction kind, amount, nonce, recipient
  or chain.
\<close>

theorem signed_message_binding:
  assumes "signed_message E c t = signed_message E d u" and "signed_message E c t \<noteq> None"
    and "proposal_ids_distinct E t u"
  shows "c = d \<and> strip_signatures t = strip_signatures u"
  by (rule signed_message_inject [OF assms])

theorem signed_message_binding_witness:
  "signed_message wire_externals 1 (Transfer sample_transfer)
     = signed_message wire_externals 1 (Transfer (sample_transfer\<lparr>tr_signature := 2\<rparr>))
   \<and> strip_signatures (Transfer sample_transfer) = strip_signatures (Transfer (sample_transfer\<lparr>tr_signature := 2\<rparr>))"
proof -
  let ?u = "Transfer (sample_transfer\<lparr>tr_signature := 2\<rparr>)"
  have "signed_message wire_externals 1 (Transfer sample_transfer) = signed_message wire_externals 1 ?u"
    "signed_message wire_externals 1 (Transfer sample_transfer) \<noteq> None"
    "proposal_ids_distinct wire_externals (Transfer sample_transfer) ?u"
    by (simp_all add: transfer_sig_message_def proposal_ids_distinct_def)
  from signed_message_binding [OF this] this(1) show ?thesis by simp
qed

text \<open>
  C14. A failed transaction costs its sender the fee and the nonce and nothing else, and only when
  the sender authorized it: the failure names a payer only if it is the sender, every signature the
  transaction carries verifies on its signed message, the sender's nonce is the signed one and its
  balance covers the fee. The state then differs in that one account, which is one fee poorer and one
  nonce further. Without a payer the state is unchanged and no fee is collected.
\<close>

theorem failed_transaction_charge:
  assumes "borsh E" and "apply_transaction E facts (tx_fee facts tx) tx s = Inl f"
    and "saturating_add (tl_gas_used t) (tx_gas tx) \<le> si_block_gas_limit (bf_input facts)"
    and "execute_one E facts tx t s = (t', s')"
  shows "case payer f of
      None \<Rightarrow> s' = s \<and> tl_proposer_fee t' = tl_proposer_fee t
    | Some p \<Rightarrow> tx_sender tx = Some p \<and> tx_signed E (si_chain_id (bf_input facts)) tx
        \<and> nonce (load_account E s p) = tx_nonce tx \<and> tx_fee facts tx \<le> balance (load_account E s p)
        \<and> balance (load_account E s' p) = balance (load_account E s p) - tx_fee facts tx
        \<and> nonce (load_account E s' p) = saturating_add (tx_nonce tx) 1
        \<and> tl_proposer_fee t' = saturating_add (tl_proposer_fee t) (tx_fee facts tx)
        \<and> total_funds E s' + unat (tx_fee facts tx) = total_funds E s \<and> frame {KAccount p} s s'"
proof -
  obtain chargd where c: "charge_of E tx (tx_fee facts tx) f s = (chargd, s')"
    and pot: "tl_proposer_fee t' = saturating_add (tl_proposer_fee t) chargd"
    using assms(2-4) by (auto simp: execute_one_def Let_def charge_of_def split: prod.splits if_splits)
  note e = borsh.failed_effect [OF assms(1,2) c]
  show ?thesis
  proof (cases "payer f")
    case None
    then have "chargd = 0" using c by (simp add: charge_of_def)
    then show ?thesis
      using None e(4) pot unat_lt [of "tl_proposer_fee t"] by (simp add: saturating_add_def checked_add_def)
  next
    case (Some p)
    have "frame {KAccount p} s s'"
      using c Some by (auto simp: charge_of_def charge_failure_def Let_def split: if_splits intro!: frame_stores)
    moreover have auth: "tx_fee facts tx \<le> balance (load_account E s p)"
      using borsh.failed_payer [OF assms(1,2) Some] by (simp add: authorized_def)
    moreover have "tx_charges_fee tx" using e(3) [OF Some] by (cases tx) simp_all
    then have "balance (load_account E s' p) = balance (load_account E s p) - tx_fee facts tx"
      using c Some auth by (auto simp: charge_of_def charge_failure_def Let_def store_account_def write_record_def load_upd codec_law_dec [OF borsh.account_law [OF assms(1)]])
    ultimately show ?thesis
      using Some e(1) e(3) [OF Some] pot charged_signed [OF assms(2)] by simp
  qed
qed

theorem failed_transaction_charge_witness:
  "\<exists>f s' t'. apply_transaction wire_externals sample_facts 21000 (Transfer (sample_transfer\<lparr>tr_amount := 90000\<rparr>)) sample_state
       = Inl f \<and> payer f = Some 1
     \<and> execute_one wire_externals sample_facts (Transfer (sample_transfer\<lparr>tr_amount := 90000\<rparr>))
         \<lparr>tl_applied = 0, tl_failed = 0, tl_gas_used = 0, tl_proposer_fee = 0, tl_receipts = []\<rparr> sample_state = (t', s')
     \<and> nonce (load_account wire_externals s' 1) = 1 \<and> tl_proposer_fee t' = 21000"
proof -
  let ?tx = "Transfer (sample_transfer\<lparr>tr_amount := 90000\<rparr>)"
  let ?t = "\<lparr>tl_applied = 0, tl_failed = 0, tl_gas_used = 0, tl_proposer_fee = 0, tl_receipts = []\<rparr>"
  have fee: "tx_fee sample_facts ?tx = 21000"
    by (simp add: tx_fee_def sample_facts_def GAS_TRANSFER_def saturating_mul_def checked_mul_def)
  have run: "apply_transaction wire_externals sample_facts (tx_fee sample_facts ?tx) ?tx sample_state
      = Inl (charged 1 InsufficientBalance)"
    unfolding fee
    by (simp add: apply_transfer_def check_transfer_def authenticate_def verify_signature_def sample_transfer_def
        check_payer_def authorize_def signer_account_def require_amount_def checked_add_def Let_def default_account_def
        res_bind_def map_err_def failure_charged_def charged_def)
  obtain t' s' where one: "execute_one wire_externals sample_facts ?tx ?t sample_state = (t', s')" by (metis surj_pair)
  have "saturating_add (tl_gas_used ?t) (tx_gas ?tx) \<le> si_block_gas_limit (bf_input sample_facts)"
    by (simp add: sample_facts_def GAS_TRANSFER_def saturating_add_def checked_add_def)
  from failed_transaction_charge [OF wire_borsh run this one] run fee one show ?thesis
    by (simp add: sample_transfer_def saturating_add_def checked_add_def)
qed

lemma admission_valid: "tv_code (admission r) = TxValid \<longleftrightarrow> (\<exists>x. r = Inr x)"
proof (cases r)
  case (Inl f)
  have "rejection st \<noteq> TxValid" for st by (cases st) simp_all
  then show ?thesis using Inl by (simp add: admission_def tx_invalid_def)
qed (simp add: admission_def tx_valid_def)

lemma withdraw_runs:
  assumes "admit_withdraw E s c fee tx = Inr acc" and "total_funds E s < 2 ^ 128"
    and "\<not> holds bl (wt_validator tx)"
  shows "\<exists>s'. apply_withdraw E s c h bl fee tx = Inr s'"
proof -
  let ?p = "wt_validator tx"
  let ?m = "matured_amount h (wq_entries (load_withdrawal_queue E s ?p))"
  have chk: "check_withdraw E s c tx = Inr acc" "fee \<le> balance acc" "acc = load_account E s ?p"
    using assms(1) by (auto simp: admit_withdraw_def check_withdraw_def signer_account_Inr res_iffs split: if_splits)
  have "unat ?m \<le> queue_sum (load_withdrawal_queue E s ?p)"
    using matured_plus_pending [of h "wq_entries (load_withdrawal_queue E s ?p)"]
    by (cases "load_withdrawal_queue E s ?p") (simp add: unat_matured_amount)
  then have "unat (balance acc) + unat ?m < 2 ^ 128"
    using assms(2) account_le_total(1,3) [of E s ?p] unfolding chk(3) by (simp add: total_funds_def)
  then have "Option.bind (checked_add (balance acc) ?m) (\<lambda>b. checked_sub b fee) \<noteq> None"
    using chk(2) by (simp add: checked_add_def checked_sub_def word_le_nat_alt unat_add_exact)
  then show ?thesis using chk(1) assms(3) by (auto simp: apply_withdraw_def Let_def)
qed

lemma admitted_runs:
  assumes "tv_code (validate_decoded E s c (if tx_charges_fee tx then tx_fee facts tx else 0)
      (bf_min_validator_stake facts) tx) = TxValid"
    and "\<not> governance_tx tx" and "total_funds E s < 2 ^ 128" and "si_chain_id (bf_input facts) = c"
    and "checked_add (si_block_height (bf_input facts))
      (ea_unbonding_delay_blocks (si_evidence_anchor (bf_input facts))) \<noteq> None"
    and "\<forall>w. tx = Withdraw w \<longrightarrow> \<not> holds (bf_backlog facts) (wt_validator w)"
  shows "\<exists>s'. apply_transaction E facts (tx_fee facts tx) tx s = Inr s'"
  using assms transfer_runs withdraw_runs
  by (cases tx)
    (auto simp: validate_decoded_def admission_valid tx_invalid_def apply_stake_def apply_deposit_def apply_unstake_def
      apply_voluntary_exit_def apply_register_validator_def Let_def)

lemma validate_decoded_frame:
  assumes "frame W s s'" and "\<And>a. KAccount a \<notin> W" and "\<And>a. KValidator a \<notin> W" and "KRegistrations \<notin> W"
    and "\<not> governance_tx tx"
  shows "validate_decoded E s' c fee m tx = validate_decoded E s c fee m tx"
proof -
  note loads = frame_loads(1) [OF assms(1,2)] frame_loads(2) [OF assms(1,3)] frame_loads(8) [OF assms(1,4)]
  show ?thesis
    using assms(5)
    by (cases tx) (simp_all add: validate_decoded_def check_transfer_def check_stake_def check_unstake_def
      check_deposit_def check_voluntary_exit_def admit_withdraw_def check_withdraw_def check_register_validator_def
      check_bond_def check_payer_def authorize_def signer_account_def load_validator_def loads
      cong: if_cong)
qed

text \<open>
  C12. Admission to the mempool is sound for execution: a transfer, stake, deposit, unstake, exit,
  registration or withdrawal that \<open>validate_tx\<close> accepts in a state with no pending sanction is
  applied by a block on that state that carries it. The block runs to its end, through participation,
  the sweep of expired evidence and the expiry of proposals, and reports one applied and no failed
  transaction, with the gas of its kind. The block has the chain id and gas limit admission used, its
  maturity height does not overflow and the transaction's length fits the 32-bit prefix of its leaf.
  (Governance kinds also depend on the chunk, which admission does not know; evidence is never
  admitted.)
\<close>

theorem admitted_applies:
  assumes "borsh E" and "chain_inv E a s" and "same_genesis (si_evidence_anchor input) a" and "queue_of E s = []"
    and "tv_code (validate_tx E bs s (si_chain_id input) (si_block_gas_limit input)) = TxValid"
    and "dec (transaction_codec E) bs = Some tx" and "\<not> governance_tx tx" and "si_transactions input = [tx]"
    and "length (enc (transaction_codec E) tx) < 2 ^ 32"
    and "checked_add (si_block_height input) (ea_unbonding_delay_blocks (si_evidence_anchor input)) \<noteq> None"
  shows "\<exists>out s'. apply_block E root input s = Inr (out, s')
    \<and> so_applied out = 1 \<and> so_failed out = 0 \<and> so_gas_used out = tx_gas tx"
proof -
  let ?policy = "load_runtime_policy E s" and ?chunk = "ea_chunk_id (si_evidence_anchor input)"
  have gas: "tx_gas tx \<le> si_block_gas_limit input"
    and val: "tv_code (validate_decoded E s (si_chain_id input)
      (if tx_charges_fee tx then saturating_mul (ucast (tx_gas tx)) (gas_price ?policy) else 0)
      (min_validator_stake ?policy) tx) = TxValid"
    using assms(5,6) by (auto simp: validate_tx_def Let_def tx_invalid_def split: if_splits)
  have sender: "tx_sender tx \<noteq> None" using val by (cases tx) (simp_all add: validate_decoded_def tx_invalid_def)
  then have pre: "evidence_prefix (si_transactions input) = []" using assms(8) by (cases tx) simp_all
  then have ord: "ordinary_input a input" using assms(3) by (simp add: ordinary_input_def)
  obtain c s1 m s2 where part: "apply_participation E s (si_participation input) = (c, s1)"
    and acc: "accountability_apply E input s1 ?policy = Inr (m, s2)"
    and m: "mn_gas m = 0" "mn_backlog m = backlog_of []"
    and frm: "frame ({KParticipation, KQueue, KProposal, KUpgrade} \<union> range KAbsent \<union> range KExpiry \<union> range KOffence)
      s (expire E s2 ?chunk)"
    using borsh.quiet_prefix [OF assms(1) ord assms(2,4)] by metis
  let ?facts = "block_facts_of input ?policy m" and ?s3 = "expire E s2 ?chunk"
  have "total_funds E s < 2 ^ 128" using assms(2) by (simp add: chain_inv_def coin_supply_def)
  then have funds: "total_funds E ?s3 < 2 ^ 128" using frame_funds [OF frm, of E] by (auto simp: image_iff)
  have "validate_decoded E ?s3 (si_chain_id input) fee ms tx = validate_decoded E s (si_chain_id input) fee ms tx" for fee ms
    by (rule validate_decoded_frame [OF frm _ _ _ assms(7)]) auto
  with val have "tv_code (validate_decoded E ?s3 (si_chain_id input) (if tx_charges_fee tx then tx_fee ?facts tx else 0)
      (bf_min_validator_stake ?facts) tx) = TxValid"
    by (auto simp: block_facts_of_def tx_fee_def split: if_splits)
  then obtain s4 where app: "apply_transaction E ?facts (tx_fee ?facts tx) tx ?s3 = Inr s4"
    using admitted_runs [OF _ assms(7) funds, of "si_chain_id input" ?facts] assms(10) m(2)
    by (auto simp: block_facts_of_def holds_def backlog_of_def)
  have anchor: "anchor_is_well_formed (si_evidence_anchor input)"
    using assms(2,3) by (simp add: chain_inv_def governance_inv_def same_genesis_def policy_is_valid_for_def anchor_is_well_formed_def)
  have chk: "check_admissions E (si_chain_id input) (si_block_height input) (si_evidence_anchor input)
      (si_transactions input) = Inr ()"
    by (rule borsh.ordinary_admissions [OF assms(1) pre _ anchor]) (use assms(8) sender in simp)
  obtain r n where "transaction_commitments E (si_transactions input) = Inr (r, n)"
    using assms(8,9) by (simp add: transaction_commitments_def transaction_leaves_map)
  then show ?thesis
    using chk part acc app gas [folded not_less] m(1) assms(8) unat_lt [of "tx_gas tx"]
    by (simp add: apply_block_def validate_input_def try_validate_input_def apply_block_validated_def Let_def
        execute_one_def initial_tally_def saturating_add_def checked_add_def block_facts_of_def)
qed

theorem admitted_applies_witness:
  "tv_code (validate_tx wire_externals (enc (transaction_codec wire_externals) (Transfer sample_transfer))
     sample_state 1 20480000) = TxValid
   \<and> (\<exists>out s'. apply_block wire_externals (\<lambda>_. 0) (sample_input\<lparr>si_transactions := [Transfer sample_transfer]\<rparr>) sample_state
     = Inr (out, s') \<and> so_applied out = 1 \<and> so_failed out = 0 \<and> so_gas_used out = 21000)"
proof -
  let ?tx = "Transfer sample_transfer" and ?input = "sample_input\<lparr>si_transactions := [Transfer sample_transfer]\<rparr>"
  let ?bs = "enc (transaction_codec wire_externals) ?tx"
  have dec: "dec (transaction_codec wire_externals) ?bs = Some ?tx"
    by (rule borsh.transaction_law [OF wire_borsh]) (simp add: decodable_def)
  have ok: "tv_code (validate_tx wire_externals ?bs sample_state (si_chain_id ?input) (si_block_gas_limit ?input)) = TxValid"
    using sample_validates_transfer by simp
  have size: "length ?bs < 2 ^ 32" using sample_sizes by simp
  have hyps: "same_genesis (si_evidence_anchor ?input) sample_anchor" "queue_of wire_externals sample_state = []"
    "si_transactions ?input = [?tx]"
    "checked_add (si_block_height ?input) (ea_unbonding_delay_blocks (si_evidence_anchor ?input)) \<noteq> None"
    by (simp_all add: same_genesis_def checked_add_def)
  from admitted_applies [OF wire_borsh sample_chain_inv hyps(1,2) ok dec _ hyps(3) size hyps(4), of "\<lambda>_. 0"]
  show ?thesis using sample_validates_transfer by (simp add: GAS_TRANSFER_def)
qed

text \<open>
  C11. Withdrawals release exactly the matured funds, and only when no sanction is pending against
  the account: on success the account gains the matured entries minus the fee, the entries that
  have not matured stay queued in order, and nothing else of the ledger changes; an account with a
  pending sanction is always refused.
\<close>

theorem withdraw_releases_matured:
  assumes "borsh E" and "total_funds E s < 2 ^ 128" and "apply_withdraw E s c h bl fee tx = Inr s'"
  defines "p \<equiv> wt_validator tx"
  shows "\<not> holds bl p
    \<and> unat (balance (load_account E s' p)) + unat fee = unat (balance (load_account E s p))
        + sum_list (map (\<lambda>e. unat (wd_amount e)) (filter (\<lambda>e. mature_at_height e \<le> h) (wq_entries (load_withdrawal_queue E s p))))
    \<and> wq_entries (load_withdrawal_queue E s' p) = filter (\<lambda>e. h < mature_at_height e) (wq_entries (load_withdrawal_queue E s p))
    \<and> total_funds E s' + unat fee = total_funds E s"
proof -
  let ?q = "wq_entries (load_withdrawal_queue E s p)"
  obtain net where held: "\<not> holds bl p"
    and net: "unat net + unat fee = unat (balance (load_account E s p)) + unat (matured_amount h ?q)"
    and s': "s' = (let p = wt_validator tx;
               s1 = store_account E s p \<lparr>nonce = saturating_add (wt_nonce tx) 1, balance = net\<rparr>;
               rest = pending_entries h (wq_entries (load_withdrawal_queue E s p))
           in if rest \<noteq> [] then store_withdrawal_queue E s1 p \<lparr>wq_entries = rest\<rparr>
              else if stake (load_validator E s p) = 0 \<and> \<not> active (load_validator E s p)
              then retire_validator E s1 p else delete s1 (withdrawal_key p))"
    unfolding p_def by (rule borsh.withdraw_run [OF assms(1,3)]) blast
  have sum: "matured_sum h ?q \<le> queue_sum (load_withdrawal_queue E s p)"
    using matured_plus_pending [of h ?q] by (cases "load_withdrawal_queue E s p") simp
  then have "matured_sum h ?q < 2 ^ 128" using account_le_total(3) [of E s p] assms(2) by (simp add: total_funds_def)
  then have m: "unat (matured_amount h ?q) = sum_list (map (\<lambda>e. unat (wd_amount e)) (filter (\<lambda>e. mature_at_height e \<le> h) ?q))"
    by (simp add: unat_matured_amount matured_sum_def queue_sum_def)
  have "balance (load_account E s' p) = net"
    by (simp add: s' Let_def p_def slot_ops borsh.retire_validator_loads [OF assms(1)] borsh.decode_encode [OF assms(1)])
  moreover have "wq_entries (load_withdrawal_queue E s' p) = pending_entries h ?q"
    by (simp add: s' Let_def p_def slot_ops borsh.retire_validator_loads [OF assms(1)] borsh.decode_encode [OF assms(1)])
  moreover have "pending_entries h ?q = filter (\<lambda>e. h < mature_at_height e) ?q"
    by (simp add: pending_entries_def not_le)
  ultimately show ?thesis
    using held net m borsh.withdraw_effect(3) [OF assms(1,3,2)] by simp
qed

theorem withdraw_releases_matured_witness:
  "\<exists>s'. apply_withdraw wire_externals unbonding_state 1 10 (backlog_of []) 50000 sample_withdraw = Inr s'
     \<and> unat (balance (load_account wire_externals s' 1)) = 50500
     \<and> wq_entries (load_withdrawal_queue wire_externals s' 1) = [\<lparr>wd_amount = 700, mature_at_height = 100\<rparr>]"
proof -
  obtain s' where run: "apply_withdraw wire_externals unbonding_state 1 10 (backlog_of []) 50000 sample_withdraw = Inr s'"
    using sample_withdraw_runs by blast
  have "total_funds wire_externals unbonding_state < 2 ^ 128" by (simp add: unbonding_funds)
  from withdraw_releases_matured [OF wire_borsh this run] run show ?thesis
    by (auto simp: sample_withdraw_def unbonding_loads)
qed

subsection \<open>Governance\<close>

text \<open>
  C10. A vote enacts a proposal exactly when the voters hold two thirds of the eligible stake. An
  accepted vote is cast on the live open proposal by an address that had not voted; with quorum
  (counting the new voter, with exact integer comparison, over the governance weights at this
  height) the proposal closes and its programs are scheduled for their future chunk or its policy
  replaces the one in force, without quorum the proposal stays open with the voter added and
  neither schedule nor policy changes.
\<close>

theorem vote_enacts_at_quorum:
  assumes "borsh E" and "staking_inv E s" and "governance_inv E a s" and "total_funds E s < 2 ^ 128"
    and "apply_vote E s c b fee tx = Inr s'"
  defines "vs \<equiv> governance_set E s (Some (bc_height b))"
  shows "\<exists>p. load_proposal E s = Some p \<and> is_live p (bc_chunk b) \<and> vu_voter tx \<notin> set (up_voters p)
    \<and> (if 0 < weight_sum (\<lambda>_. True) vs
          \<and> 2 * weight_sum (\<lambda>_. True) vs \<le> 3 * weight_sum (\<lambda>v. v \<in> insert (vu_voter tx) (set (up_voters p))) vs
       then load_proposal E s' = None \<and>
         (case up_action p of
            Programs ps artifacts ch \<Rightarrow> bc_chunk b < ch \<and> load_runtime_policy E s' = load_runtime_policy E s
              \<and> load_scheduled E s' = Some \<lparr>su_activate_at_chunk = ch, su_programs = ps, su_artifacts = artifacts\<rparr>
          | Policy q \<Rightarrow> load_runtime_policy E s' = q \<and> load_scheduled E s' = load_scheduled E s
              \<and> bc_pending_sanctions b \<le> unat (evidence_max_pending q))
       else load_proposal E s' = Some (add_voter (vu_voter tx) p)
         \<and> load_scheduled E s' = load_scheduled E s \<and> load_runtime_policy E s' = load_runtime_policy E s)"
  using borsh.vote_outcome [OF assms(1-5)] by (simp only: vs_def)

lemma sample_vote_runs:
  "\<exists>s'. apply_vote wire_externals voting_state 1 (bf_governance sample_facts) 40000 sample_vote = Inr s'"
proof -
  have gs: "governance_set wire_externals voting_state (Some 10)
      = \<lparr>vs_entries = [\<lparr>vse_address = 4, vse_stake = 40000000000\<rparr>]\<rparr>"
    by (simp add: governance_set_def governance_weight_def unaged_bonding_def Let_def frame_loads [OF voting_frame])
  have "binary_search_by vse_address [\<lparr>vse_address = 4, vse_stake = 40000000000\<rparr>] (4 :: address) = Inr 0"
    by (simp add: binary_search_by_def partition_point_def bisect.simps Let_def)
  moreover have "is_live sample_proposal 1"
    by (simp add: is_live_def sample_proposal_def UPGRADE_VOTING_PERIOD_CHUNKS_def checked_add_def)
  moreover have "\<not> has_voted sample_proposal 4"
    by (simp add: has_voted_iff sample_proposal_def)
  ultimately show ?thesis
    by (simp add: apply_vote_def check_vote_def authorize_signer_def verify_signature_def sample_vote_def
        sample_facts_def voting_account voting_proposal gs Let_def add_voter_def res_bind_def)
      (simp add: sample_proposal_def policy_enactable_def)
qed

theorem vote_enacts_at_quorum_witness:
  "\<exists>s'. apply_vote wire_externals voting_state 1 (bf_governance sample_facts) 40000 sample_vote = Inr s'
     \<and> load_proposal wire_externals s' = None \<and> gas_price (load_runtime_policy wire_externals s') = 2"
proof -
  obtain s' where run: "apply_vote wire_externals voting_state 1 (bf_governance sample_facts) 40000 sample_vote = Inr s'"
    using sample_vote_runs by blast
  have gs: "governance_set wire_externals voting_state (Some (bc_height (bf_governance sample_facts)))
      = \<lparr>vs_entries = [\<lparr>vse_address = 4, vse_stake = 40000000000\<rparr>]\<rparr>"
    by (simp add: sample_facts_def governance_set_def governance_weight_def unaged_bonding_def Let_def
        frame_loads [OF voting_frame])
  from vote_enacts_at_quorum [OF wire_borsh voting_staking_inv voting_governance_inv voting_funds run] run
  show ?thesis unfolding gs voting_proposal
    by (auto simp: weight_sum_def sample_vote_def sample_proposal_def)
qed

text \<open>
  C18. Freshly bonded stake cannot decide a vote: bonding behind a validator does not raise its
  governance weight for the next 1023 blocks.
\<close>

theorem fresh_bond_carries_no_weight:
  assumes "borsh E" and "apply_stake E s c h fee m tx = Inr s'" and "h \<le> h'" and "unat h' < unat h + 1024"
  defines "v \<equiv> st_validator tx"
  shows "governance_weight E s' v (stake (load_validator E s' v)) h'
    \<le> governance_weight E s v (stake (load_validator E s v)) h'"
proof -
  obtain acc debit w where chk: "check_bond E s v v
      \<lparr>bd_amount = st_amount tx, bd_nonce = st_nonce tx, bd_fee = fee, bd_min_stake = m\<rparr> = Inr (acc, debit, w)"
    and s': "s' = record_bond E (commit_validator E (store_account E s v
      \<lparr>nonce = saturating_add (nonce acc) 1, balance = balance acc - debit\<rparr>) v w) v (st_amount tx) h"
    unfolding v_def by (rule borsh.stake_run [OF assms(1,2)]) blast
  show ?thesis
    by (rule borsh.bond_adds_no_weight [OF assms(1) chk _ assms(3,4)]) (simp add: s')
qed

theorem fresh_bond_carries_no_weight_witness:
  "\<exists>s'. apply_stake wire_externals voting_state 1 10 50000 32000000000
       \<lparr>st_validator = 4, st_amount = 1000, st_nonce = 0, st_signature = 1\<rparr> = Inr s'
     \<and> governance_weight wire_externals s' 4 (stake (load_validator wire_externals s' 4)) 20 \<le> 40000000000"
proof -
  let ?tx = "\<lparr>st_validator = 4, st_amount = 1000, st_nonce = 0, st_signature = 1\<rparr>"
  have "load_validator_record wire_externals voting_state 4 = Some \<lparr>stake = 40000000000, active = True\<rparr>"
    by (simp add: frame_loads [OF voting_frame])
  then obtain s' where run: "apply_stake wire_externals voting_state 1 10 50000 32000000000 ?tx = Inr s'"
    by (simp add: apply_stake_def check_stake_def authenticate_def verify_signature_def check_bond_def check_payer_def
        authorize_def signer_account_def require_amount_def require_bonded_def checked_add_def voting_account Let_def
        res_bind_def map_err_def ok_or_def)
  have "(10 :: u64) \<le> 20" "unat (20 :: u64) < unat (10 :: u64) + 1024" by simp_all
  from fresh_bond_carries_no_weight [OF wire_borsh run this] run show ?thesis
    by (simp add: governance_weight_def unaged_bonding_def frame_loads [OF voting_frame] load_validator_def)
qed

subsection \<open>Replay markers\<close>

lemma foldl_delete: "foldl delete s ks k = (if k \<in> set ks then None else s k)"
  by (induction ks arbitrary: s) (simp_all add: delete_def)

lemma expired_claim:
  assumes "within_age claim h age" and "es_kind (sub_statement claim) = Inactivity"
    and "policy_is_valid_for policy anchor" and h': "unat h' = unat h + 1 + unat (ea_unbonding_delay_blocks anchor)"
  shows "\<not> within_age claim h' (evidence_max_age_blocks policy)"
proof -
  let ?stop = "ec_end_height (es_context (sub_statement claim))"
  have e: "?stop < h" using assms(1,2) by (simp add: within_age_def Let_def)
  then have "unat (h' - ?stop) = unat h' - unat ?stop"
    using h' by (intro unat_sub_exact) (simp add: word_less_nat_alt word_le_nat_alt)
  moreover have "unat (evidence_max_age_blocks policy) < unat (ea_unbonding_delay_blocks anchor)"
    using assms(3) by (simp add: policy_is_valid_for_def word_less_nat_alt)
  ultimately show ?thesis
    using assms(2) e h' by (simp add: within_age_def Let_def word_le_nat_alt word_less_nat_alt)
qed

text \<open>
  C17. Sweeping liveness markers never reopens a claim. When a block's sweep deletes a key, the key
  was in the bucket recorded exactly one unbonding delay (and one block) earlier, and a liveness
  claim that was admissible at that earlier height is outside the age window of every valid policy
  now: the window is always shorter than the unbonding delay.
\<close>

theorem swept_claim_is_expired:
  assumes "sweep_expired_markers E s h' (ea_unbonding_delay_blocks anchor) = Inr s'"
    and "s k \<noteq> None" and "s' k = None" and "policy_is_valid_for policy anchor"
  shows "\<exists>h b ks. s (expiry_key h) = Some b \<and> dec (marker_keys_codec E) b = Some ks \<and> (k \<in> set ks \<or> k = expiry_key h)
    \<and> unat h' = unat h + 1 + unat (ea_unbonding_delay_blocks anchor)
    \<and> (\<forall>claim age. within_age claim h age \<and> es_kind (sub_statement claim) = Inactivity
          \<longrightarrow> \<not> within_age claim h' (evidence_max_age_blocks policy))"
proof -
  obtain h b ks where sw: "Option.bind (checked_sub h' (ea_unbonding_delay_blocks anchor)) (\<lambda>h. checked_sub h 1) = Some h"
    and b: "s (expiry_key h) = Some b" "dec (marker_keys_codec E) b = Some ks"
    and s': "s' = delete (foldl delete s ks) (expiry_key h)"
  proof (cases "Option.bind (checked_sub h' (ea_unbonding_delay_blocks anchor)) (\<lambda>h. checked_sub h 1)")
    case None
    then have "s' = s" using assms(1) by (simp add: sweep_expired_markers_def)
    then show thesis using assms(2,3) by simp
  next
    case (Some h)
    note run = assms(1) [unfolded sweep_expired_markers_def Some option.case]
    have "s' \<noteq> s" using assms(2,3) by auto
    then obtain b where b: "s (expiry_key h) = Some b" using run by (cases "s (expiry_key h)") (auto simp: read_canonical_def)
    obtain ks where ks: "dec (marker_keys_codec E) b = Some ks"
      using run b by (cases "dec (marker_keys_codec E) b") (simp_all add: read_canonical_def)
    show thesis by (rule that [OF Some b ks]) (use run b ks in \<open>simp add: read_canonical_def\<close>)
  qed
  have "k \<in> set ks \<or> k = expiry_key h"
    using assms(2,3) s' by (auto simp: delete_def foldl_delete split: if_splits)
  moreover have h': "unat h' = unat h + 1 + unat (ea_unbonding_delay_blocks anchor)"
    using sw by (auto simp: bind_eq_Some_conv checked_sub_Some_iff)
  ultimately show ?thesis using b expired_claim [OF _ _ assms(4) h'] by blast
qed

theorem swept_claim_is_expired_witness:
  "\<exists>s'. sweep_expired_markers wire_externals
       (sample_state(key_bytes (KOffence 5) \<mapsto> [1],
          key_bytes (KExpiry 9) \<mapsto> enc (marker_keys_codec wire_externals) [key_bytes (KOffence 5)])) 302410 302400 = Inr s'
     \<and> s' (key_bytes (KOffence 5)) = None
     \<and> \<not> within_age (sample_evidence\<lparr>sub_statement := (sub_statement sample_evidence)\<lparr>es_kind := Inactivity\<rparr>\<rparr>) 302410 1024"
proof -
  let ?s = "sample_state(key_bytes (KOffence 5) \<mapsto> [1],
      key_bytes (KExpiry 9) \<mapsto> enc (marker_keys_codec wire_externals) [key_bytes (KOffence 5)])"
  let ?claim = "sample_evidence\<lparr>sub_statement := (sub_statement sample_evidence)\<lparr>es_kind := Inactivity\<rparr>\<rparr>"
  have sub: "checked_sub (302410 :: u64) 302400 = Some 10" "checked_sub (10 :: u64) 1 = Some 9"
    by (simp_all add: checked_sub_Some_iff)
  obtain s' where run: "sweep_expired_markers wire_externals ?s 302410 (ea_unbonding_delay_blocks sample_anchor) = Inr s'"
    and gone: "s' (key_bytes (KOffence 5)) = None"
    by (simp add: sweep_expired_markers_def sub read_canonical_def delete_def)
  have kind: "es_kind (sub_statement ?claim) = Inactivity" and there: "?s (key_bytes (KOffence 5)) \<noteq> None" by simp_all
  from swept_claim_is_expired [OF run there gone default_policy_valid] obtain h where
    "unat (302410 :: u64) = unat h + 1 + unat (ea_unbonding_delay_blocks sample_anchor)"
    "within_age ?claim h 1024 \<longrightarrow> \<not> within_age ?claim 302410 (evidence_max_age_blocks default_runtime_policy)"
    using kind by blast
  moreover from this(1) have "h = 9" by (simp add: word_unat_eq_iff)
  ultimately have "\<not> within_age ?claim 302410 1024"
    by (simp add: within_age_def sample_evidence_def sample_context_def Let_def)
  then show ?thesis using run gone by simp
qed

subsection \<open>State layout\<close>

text \<open>
  C21. No two records of the runtime share a storage key: the byte key of a record determines the
  record, across all kinds (accounts, validators, withdrawal queues, registrations, bonding,
  indexes, governance, evidence markers, expiry buckets, queue and totals).
\<close>

theorem storage_keys_distinct: "key_bytes k = key_bytes l \<longleftrightarrow> k = l"
  by simp

end
