(* ===== verification/History_Openings.thy ===== *)
theory History_Openings
  imports History
begin

text \<open>
  Soundness of historical openings: a path that verifies against the root of a history opens the
  leaf stored at its index, as long as the hash does not collide on the byte strings involved.
\<close>

subsection \<open>Openings are sound\<close>

text \<open>The byte strings hashed by a verification, and those hashed by the tree along one position.\<close>

fun verify_inputs :: "externals \<Rightarrow> u64 \<Rightarrow> nat \<Rightarrow> hash list \<Rightarrow> hash \<Rightarrow> bytes set" where
  "verify_inputs E index level [] node = {}"
| "verify_inputs E index level (sib # sibs) node =
     (let (l, r) = (if \<not> bit index level then (node, sib) else (sib, node))
      in insert (history_node_bytes level l r) (verify_inputs E index (Suc level) sibs (history_node_hash E level l r)))"

definition tree_inputs :: "externals \<Rightarrow> hash list \<Rightarrow> nat \<Rightarrow> bytes set" where
  "tree_inputs E xs i = (\<lambda>l. history_node_bytes l (subtree E xs l (2 * (i div 2 ^ Suc l)))
     (subtree E xs l (2 * (i div 2 ^ Suc l) + 1))) ` {..<64}"

definition opening_inputs :: "externals \<Rightarrow> history_path \<Rightarrow> hash \<Rightarrow> hash list \<Rightarrow> bytes set" where
  "opening_inputs E p leaf xs =
     verify_inputs E (hp_index p) 0 (hp_siblings p) (history_leaf_hash E (Some leaf))
     \<union> tree_inputs E xs (unat (hp_index p))
     \<union> {history_leaf_bytes (Some leaf),
        history_leaf_bytes (if unat (hp_index p) < length xs then Some (xs ! unat (hp_index p)) else None),
        counted_history_bytes (hp_count p)
          (verify_loop E (hp_index p) 0 (hp_siblings p) (history_leaf_hash E (Some leaf))),
        counted_history_bytes (of_nat (length xs)) (subtree E xs 64 0)}"

lemma digest_bytes_inject:
  "be_bytes 32 a = be_bytes 32 b \<longleftrightarrow> a = b" "le_bytes 8 c = le_bytes 8 d \<longleftrightarrow> c = d"
  for a b :: hash and c d :: u64
  using be_bytes_inject [of 32 a b] le_bytes_inject [of 8 c d] by auto

lemma history_node_bytes_inject [simp]:
  "history_node_bytes l a b = history_node_bytes l c d \<longleftrightarrow> a = c \<and> b = d"
  by (simp add: history_node_bytes_def digest_bytes_inject)

lemma counted_history_bytes_inject [simp]:
  "counted_history_bytes c a = counted_history_bytes d b \<longleftrightarrow> c = d \<and> a = b"
  by (simp add: counted_history_bytes_def digest_bytes_inject)

lemma history_leaf_bytes_inject [simp]: "history_leaf_bytes u = history_leaf_bytes v \<longleftrightarrow> u = v"
  by (auto simp: history_leaf_bytes_def digest_bytes_inject split: option.splits)

lemma verify_loop_sound:
  assumes "inj_on (blake3 E) (verify_inputs E w l sibs node \<union> tree_inputs E xs (unat w))"
    and "verify_loop E w l sibs node = subtree E xs (l + length sibs) (unat w div 2 ^ (l + length sibs))"
    and "l + length sibs \<le> 64"
  shows "node = subtree E xs l (unat w div 2 ^ l)"
  using assms
proof (induction sibs arbitrary: l node)
  case (Cons sib sibs)
  obtain a b where ab: "(if \<not> bit w l then (node, sib) else (sib, node)) = (a, b)" by (metis surj_pair)
  let ?c = "subtree E xs l (2 * (unat w div 2 ^ Suc l))" and ?d = "subtree E xs l (2 * (unat w div 2 ^ Suc l) + 1)"
  have nxt: "verify_loop E w (Suc l) sibs (history_node_hash E l a b)
      = subtree E xs (Suc l + length sibs) (unat w div 2 ^ (Suc l + length sibs))"
    using Cons.prems(2) ab by (auto split: if_splits)
  have sub: "verify_inputs E w (Suc l) sibs (history_node_hash E l a b) \<subseteq> verify_inputs E w l (sib # sibs) node"
    and here: "history_node_bytes l a b \<in> verify_inputs E w l (sib # sibs) node"
    by (simp_all add: ab subset_insertI)
  have tree: "history_node_bytes l ?c ?d \<in> tree_inputs E xs (unat w)"
    using Cons.prems(3) by (auto simp: tree_inputs_def)
  have "history_node_hash E l a b = subtree E xs (Suc l) (unat w div 2 ^ Suc l)"
    by (rule Cons.IH [OF inj_on_subset [OF Cons.prems(1)] nxt]) (use sub Cons.prems(3) in auto)
  then have "blake3 E (history_node_bytes l a b) = blake3 E (history_node_bytes l ?c ?d)"
    by (simp only: subtree.simps history_node_hash_def)
  then have "history_node_bytes l a b = history_node_bytes l ?c ?d"
    by (rule inj_onD [OF Cons.prems(1)]) (use here tree in auto)
  then have eq: "a = ?c" "b = ?d" by simp_all
  show ?case
  proof (cases "bit w l")
    case True
    then have "2 * (unat w div 2 ^ Suc l) + 1 = unat w div 2 ^ l" unfolding div_pow_Suc bit_div by simp
    then show ?thesis using eq(2) True ab by simp
  next
    case False
    then have "2 * (unat w div 2 ^ Suc l) = unat w div 2 ^ l" unfolding div_pow_Suc bit_div by simp
    then show ?thesis using eq(1) False ab by simp
  qed
qed simp

lemma path_verify_sound:
  assumes ver: "path_verify E p leaf (tree_root E xs)" and len: "length xs < 2 ^ 64"
    and inj: "inj_on (blake3 E) (opening_inputs E p leaf xs)"
  shows "unat (hp_count p) = length xs \<and> unat (hp_index p) < length xs \<and> xs ! unat (hp_index p) = leaf"
proof -
  let ?w = "hp_index p" and ?node = "history_leaf_hash E (Some leaf)"
  let ?root = "verify_loop E ?w 0 (hp_siblings p) ?node"
  have "blake3 E (counted_history_bytes (hp_count p) ?root)
      = blake3 E (counted_history_bytes (of_nat (length xs)) (subtree E xs 64 0))"
    and l64: "length (hp_siblings p) = 64" and lt: "?w < hp_count p"
    using ver by (auto simp: path_verify_def counted_history_root_def HISTORY_DEPTH_def)
  then have "counted_history_bytes (hp_count p) ?root = counted_history_bytes (of_nat (length xs)) (subtree E xs 64 0)"
    by (intro inj_onD [OF inj]) (simp_all add: opening_inputs_def)
  then have cnt: "hp_count p = of_nat (length xs)" and root: "?root = subtree E xs 64 0" by simp_all
  have cu: "unat (hp_count p) = length xs" by (simp add: cnt unat_length [OF len])
  then have idx: "unat ?w < length xs" using lt by (simp add: word_less_nat_alt)
  have zero: "unat ?w div 2 ^ (0 + length (hp_siblings p)) = 0" using unat_lt [of ?w] l64 by simp
  have top: "?root = subtree E xs (0 + length (hp_siblings p)) (unat ?w div 2 ^ (0 + length (hp_siblings p)))"
    unfolding zero unfolding l64 add_0 by (rule root)
  have sub: "verify_inputs E ?w 0 (hp_siblings p) ?node \<union> tree_inputs E xs (unat ?w) \<subseteq> opening_inputs E p leaf xs"
    unfolding opening_inputs_def by blast
  have "?node = subtree E xs 0 (unat ?w div 2 ^ 0)"
    by (rule verify_loop_sound [OF inj_on_subset [OF inj sub] top]) (simp add: l64)
  then have "blake3 E (history_leaf_bytes (Some leaf)) = blake3 E (history_leaf_bytes (Some (xs ! unat ?w)))"
    using idx by (simp add: history_leaf_hash_def)
  then have "history_leaf_bytes (Some leaf) = history_leaf_bytes (Some (xs ! unat ?w))"
    using idx by (intro inj_onD [OF inj]) (simp_all add: opening_inputs_def)
  then show ?thesis using cu idx by simp
qed

text \<open>Verifying the opening of a stored leaf hashes only byte strings of the tree.\<close>

lemma verify_inputs_honest:
  "l + n \<le> 64 \<Longrightarrow>
   verify_inputs E w l (map (\<lambda>j. subtree E xs j (sibling_position (unat w div 2 ^ j))) [l..<l + n])
     (subtree E xs l (unat w div 2 ^ l)) \<subseteq> tree_inputs E xs (unat w)"
proof (induction n arbitrary: l)
  case (Suc n)
  let ?c = "subtree E xs l (2 * (unat w div 2 ^ Suc l))" and ?d = "subtree E xs l (2 * (unat w div 2 ^ Suc l) + 1)"
  let ?a = "subtree E xs l (unat w div 2 ^ l)" and ?b = "subtree E xs l (sibling_position (unat w div 2 ^ l))"
  have pair: "(if \<not> bit w l then (?a, ?b) else (?b, ?a)) = (?c, ?d)"
  proof (cases "bit w l")
    case True
    then have "2 * (unat w div 2 ^ Suc l) + 1 = unat w div 2 ^ l" unfolding div_pow_Suc bit_div by simp
    then show ?thesis using True by (simp add: sibling_position_def bit_div flip: \<open>_ = unat w div 2 ^ l\<close>)
  next
    case False
    then have "2 * (unat w div 2 ^ Suc l) = unat w div 2 ^ l" unfolding div_pow_Suc bit_div by simp
    then show ?thesis using False by (simp add: sibling_position_def bit_div)
  qed
  have "[l..<l + Suc n] = l # [Suc l..<Suc l + n]" by (simp add: upt_conv_Cons del: upt_Suc)
  moreover have "history_node_bytes l ?c ?d \<in> tree_inputs E xs (unat w)"
    using Suc.prems by (auto simp: tree_inputs_def)
  moreover have "history_node_hash E l ?c ?d = subtree E xs (Suc l) (unat w div 2 ^ Suc l)" by simp
  ultimately show ?case using Suc.IH [of "Suc l"] Suc.prems pair by (simp del: subtree.simps upt_Suc)
qed simp

end
