(* ===== verification/Commitment_Properties.thy ===== *)
theory Commitment_Properties
  imports Sample_Chain History_Openings
begin

text \<open>
  Properties of the commitment structures shared by the runtime and consensus: the chunk history
  (\<open>history.rs\<close>), counted Merkle openings (\<open>evidence.rs\<close>) and the transaction root
  (\<open>commitments.rs\<close>).
\<close>

subsection \<open>Chunk history\<close>

lemma history_root_correct: "length xs < 2 ^ 64 \<Longrightarrow> history_root E xs = Some (tree_root E xs)"
  by (simp add: history_root_def from_leaves_correct frontier_root_correct)

text \<open>
  C22. Appending to a frontier is rebuilding it: the bounded frontier of a history, extended by one
  leaf, is the frontier of the extended history, and the root it returns is the root of the
  complete binary tree of height 64 over all the leaves, counted by their number.
\<close>

theorem history_append_is_rebuild:
  assumes "length xs + 1 < 2 ^ 64" and "from_leaves E xs = Some f"
  shows "\<exists>f'. from_leaves E (xs @ [x]) = Some f' \<and> frontier_append E f x = (history_root E (xs @ [x]), f')
    \<and> history_root E (xs @ [x]) = Some (counted_history_root E (of_nat (length xs + 1)) (subtree E (xs @ [x]) 64 0))"
proof -
  have "f = frontier_of E xs" using assms from_leaves_correct [of xs E] by simp
  then show ?thesis
    using assms(1) frontier_append_correct [OF assms(1)] history_root_correct [of "xs @ [x]" E]
      from_leaves_correct [of "xs @ [x]" E] by simp
qed

theorem history_append_is_rebuild_witness:
  "\<exists>f f'. from_leaves wire_externals [5, 6] = Some f \<and> from_leaves wire_externals ([5, 6] @ [7]) = Some f'
     \<and> frontier_append wire_externals f 7 = (history_root wire_externals ([5, 6] @ [7]), f')"
proof -
  obtain f where f: "from_leaves wire_externals [5, 6] = Some f"
    using from_leaves_correct [of "[5, 6]" wire_externals] by simp
  have "length [5, 6 :: hash] + 1 < 2 ^ 64" by simp
  from history_append_is_rebuild [OF this f, of 7] f show ?thesis by blast
qed

text \<open>
  C23. Every stored leaf opens: building the opening of any index of an archived history succeeds,
  and the opening verifies the leaf at that index against the history's root.
\<close>

theorem history_opening_verifies:
  assumes "i < length xs" and "length xs < 2 ^ 64"
  shows "\<exists>p r. path_build E xs i = Some p \<and> history_root E xs = Some r \<and> path_verify E p (xs ! i) r"
  using path_build_correct [OF assms] history_root_correct [OF assms(2)] path_of_verifies [OF assms] by simp

theorem history_opening_verifies_witness:
  "\<exists>p r. path_build wire_externals [5, 6, 7] 2 = Some p \<and> history_root wire_externals [5, 6, 7] = Some r
     \<and> path_verify wire_externals p 7 r"
  using history_opening_verifies [of 2 "[5, 6, 7]" wire_externals] by (simp del: subtree.simps)

text \<open>
  C24. An opening survives appends: advancing the opening of a stored leaf over one append, with
  only the bounded frontier, gives exactly the opening one would build from the whole extended
  history, and returns the new root.
\<close>

theorem history_opening_advances:
  assumes "i < length xs" and "length xs + 1 < 2 ^ 64" and "path_build E xs i = Some p" and "from_leaves E xs = Some f"
  shows "\<exists>p' r. path_advance E p (xs ! i) f x = Some (r, p')
    \<and> path_build E (xs @ [x]) i = Some p' \<and> history_root E (xs @ [x]) = Some r"
proof -
  have "p = path_of E xs i" "f = frontier_of E xs"
    using assms path_build_correct [of i xs E] from_leaves_correct [of xs E] by simp_all
  then show ?thesis
    using assms(1,2) path_advance_correct [OF assms(1,2)] path_build_correct [of i "xs @ [x]" E]
      history_root_correct [of "xs @ [x]" E] by simp
qed

theorem history_opening_advances_witness:
  "\<exists>p f p' r. path_build wire_externals [5, 6, 7] 1 = Some p \<and> from_leaves wire_externals [5, 6, 7] = Some f
     \<and> path_advance wire_externals p 6 f 8 = Some (r, p') \<and> path_build wire_externals ([5, 6, 7] @ [8]) 1 = Some p'"
proof -
  have i: "1 < length [5, 6, 7 :: hash]" "length [5, 6, 7 :: hash] + 1 < 2 ^ 64" by simp_all
  obtain p f where p: "path_build wire_externals [5, 6, 7] 1 = Some p" and f: "from_leaves wire_externals [5, 6, 7] = Some f"
    using path_build_correct [of 1 "[5, 6, 7]" wire_externals] from_leaves_correct [of "[5, 6, 7]" wire_externals] by simp
  have "[5, 6, 7 :: hash] ! 1 = 6" by simp
  with history_opening_advances [OF i p f, of 8] p f show ?thesis by metis
qed

text \<open>
  C25. An opening cannot lie about a leaf: a path that verifies against the root of a history names
  the right count, an occupied index, and the leaf stored there, unless the hash collides on two of
  the byte strings hashed by the verification or by the tree along that index.
\<close>

theorem history_opening_sound:
  assumes "history_root E xs = Some r" and "path_verify E p leaf r" and "length xs < 2 ^ 64"
    and "inj_on (blake3 E) (opening_inputs E p leaf xs)"
  shows "unat (hp_count p) = length xs \<and> unat (hp_index p) < length xs \<and> xs ! unat (hp_index p) = leaf"
  using path_verify_sound [OF _ assms(3,4)] assms(1,2) history_root_correct [OF assms(3), of E] by simp

text \<open>An instance whose hash keeps the length of its input and the level byte.\<close>

definition shape_externals :: externals where
  "shape_externals = wire_externals\<lparr>blake3 := (\<lambda>b. of_nat (length b) * 256 + ucast (b ! 16))\<rparr>"

lemma shape_hash: "blake3 shape_externals b = of_nat (length b) * 256 + ucast (b ! 16)"
  by (simp add: shape_externals_def)

lemma shape_hash_inject:
  assumes "length a < 1000" and "length b < 1000" and "blake3 shape_externals a = blake3 shape_externals b"
  shows "length a = length b \<and> a ! 16 = b ! 16"
proof -
  have "unat (blake3 shape_externals c) = length c * 256 + unat (c ! 16)" if "length c < 1000" for c
  proof -
    have lt: "unat (c ! 16) < 256" using unat_lt [of "c ! 16"] by simp
    have m: "unat (of_nat (length c) * 256 :: hash) = length c * 256"
      using that by (subst unat_mult_exact) (simp_all add: unat_of_nat)
    have "unat (of_nat (length c) * 256 + ucast (c ! 16) :: hash) = length c * 256 + unat (c ! 16)"
      using that lt m by (subst unat_add_exact) (simp_all add: unsigned_ucast_eq take_bit_nat_eq_self)
    then show ?thesis by (simp only: shape_hash)
  qed
  then have eq: "length a * 256 + unat (a ! 16) = length b * 256 + unat (b ! 16)" using assms by metis
  have split: "(n * 256 + unat x) div 256 = n" "(n * 256 + unat x) mod 256 = unat x" for n and x :: u8
    using unat_lt [of x] by simp_all
  have "length a = length b" "unat (a ! 16) = unat (b ! 16)"
    using arg_cong [OF eq, of "\<lambda>n. n div 256"] arg_cong [OF eq, of "\<lambda>n. n mod 256"] unfolding split by simp_all
  then show ?thesis by (simp add: word_unat_eq_iff)
qed

text \<open>The opening built from the tree hashes the tree's own strings, one leaf and one counted root.\<close>

lemma opening_inputs_honest:
  assumes "i < length xs" and "length xs < 2 ^ 64"
  shows "opening_inputs E (path_of E xs i) (xs ! i) xs \<subseteq> tree_inputs E xs i
    \<union> {history_leaf_bytes (Some (xs ! i)), counted_history_bytes (of_nat (length xs)) (subtree E xs 64 0)}"
proof -
  have w: "unat (of_nat i :: u64) = i" using assms unat_of_nat_64 [of i] by simp
  have leaf: "subtree E xs 0 (i div 2 ^ 0) = history_leaf_hash E (Some (xs ! i))" using assms(1) by simp
  have sibs: "hp_siblings (path_of E xs i) = map (\<lambda>j. subtree E xs j (sibling_position (i div 2 ^ j))) [0..<0 + 64]"
    by (simp add: path_of_def del: upt_rec_numeral)
  have "verify_inputs E (of_nat i) 0 (hp_siblings (path_of E xs i)) (history_leaf_hash E (Some (xs ! i))) \<subseteq> tree_inputs E xs i"
    using verify_inputs_honest [of 0 64 E "of_nat i" xs] unfolding w leaf sibs by simp
  moreover have "verify_loop E (of_nat i) 0 (hp_siblings (path_of E xs i)) (history_leaf_hash E (Some (xs ! i)))
      = subtree E xs (0 + 64) (i div 2 ^ (0 + 64))"
    using verify_loop_subtree [of E "of_nat i" 0 xs 64] unfolding w leaf sibs by simp
  moreover have "i div 2 ^ (0 + 64) = 0" using assms by simp
  ultimately show ?thesis
    using assms by (auto simp: opening_inputs_def w path_of_simps(1,2))
qed

lemma shape_nodes_inject:
  "inj_on (blake3 shape_externals) (tree_inputs E xs i \<union> {history_leaf_bytes (Some a), counted_history_bytes c r})"
proof (rule inj_onI)
  fix u v
  let ?S = "tree_inputs E xs i \<union> {history_leaf_bytes (Some a), counted_history_bytes c r}"
  assume uv: "u \<in> ?S" "v \<in> ?S" and eq: "blake3 shape_externals u = blake3 shape_externals v"
  have node: "length (history_node_bytes l x y) = 81" "history_node_bytes l x y ! 16 = of_nat l" for l x y
    by (simp_all add: history_node_bytes_def DOMAIN_HISTORY_NODE_def ascii_def nth_append)
  have others: "length (history_leaf_bytes (Some a)) = 49" "length (counted_history_bytes c r) = 56"
    by (simp_all add: history_leaf_bytes_def counted_history_bytes_def DOMAIN_HISTORY_LEAF_def DOMAIN_HISTORY_ROOT_def ascii_def)
  have level: "l = l'" if "(of_nat l :: u8) = of_nat l'" "l < 64" "l' < 64" for l l'
    using that by (simp add: word_unat_eq_iff unat_of_nat)
  have "length u < 1000" "length v < 1000" using uv by (auto simp: tree_inputs_def node others)
  with shape_hash_inject eq have "length u = length v" "u ! 16 = v ! 16" by blast+
  then show "u = v" using uv by (auto simp: tree_inputs_def node others dest: level)
qed

theorem history_opening_sound_witness:
  "\<exists>p r. path_build shape_externals [5, 6, 7] 1 = Some p \<and> history_root shape_externals [5, 6, 7] = Some r
     \<and> path_verify shape_externals p 6 r \<and> [5, 6, 7 :: hash] ! unat (hp_index p) = 6"
proof -
  let ?E = shape_externals and ?xs = "[5, 6, 7 :: hash]"
  let ?p = "path_of ?E ?xs 1"
  have i: "1 < length ?xs" "length ?xs < 2 ^ 64" and x: "?xs ! 1 = 6" by simp_all
  have r: "history_root ?E ?xs = Some (tree_root ?E ?xs)" by (rule history_root_correct [OF i(2)])
  have v: "path_verify ?E ?p 6 (tree_root ?E ?xs)" using path_of_verifies [OF i, of ?E] unfolding x .
  have "inj_on (blake3 ?E) (opening_inputs ?E ?p 6 ?xs)"
    using inj_on_subset [OF shape_nodes_inject opening_inputs_honest [OF i, of ?E]] unfolding x by simp
  from history_opening_sound [OF r v i(2) this] r v path_build_correct [OF i, of ?E] show ?thesis by blast
qed

subsection \<open>Counted Merkle openings\<close>

text \<open>
  C26. Every leaf of a counted Merkle list opens: the in-place reduction and the openings agree, so
  the opening built for any index verifies that leaf against the counted root of the list, whatever
  its length and wherever an odd node was promoted.
\<close>

theorem merkle_opening_verifies:
  assumes "i < length xs" and "length xs < 2 ^ 64"
  shows "\<exists>p. opening_build E xs i = Some p
    \<and> opening_verify E menc p (xs ! i) (counted_merkle_root E menc (of_nat (length xs)) (merkle_root_from_hashes E xs))"
proof -
  have u: "unat (of_nat i :: u64) = i" "unat (of_nat (length xs) :: u64) = length xs"
    using assms unat_of_nat_64 [of i] unat_of_nat_64 [of "length xs"] by simp_all
  have ne: "xs \<noteq> []" using assms(1) by auto
  have "length (opening_loop E xs i) \<le> 64" by (rule opening_loop_length) (use assms(2) in simp)
  moreover have "opening_fold E i (length xs) (xs ! i) (opening_loop E xs i) = Some (level_root E xs, [])"
    using opening_fold_build [OF assms(1), of E "[]"] by simp
  moreover have "\<not> (of_nat (length xs) :: u64) \<le> of_nat i" using assms(1) by (simp add: word_le_nat_alt u)
  moreover have "(of_nat (length xs) :: u64) \<noteq> 0" using u(2) ne by (metis length_0_conv unat_0)
  ultimately show ?thesis using assms(1) ne
    by (simp add: opening_build_def opening_verify_def u merkle_root_levels)
qed

definition tuple_bytes :: "bytes \<times> u64 \<times> hash \<Rightarrow> bytes" where
  "tuple_bytes t = fst t @ le_bytes 8 (fst (snd t)) @ be_bytes 32 (snd (snd t))"

theorem merkle_opening_verifies_witness:
  "\<exists>p. opening_build wire_externals [5, 6, 7] 2 = Some p
     \<and> opening_verify wire_externals tuple_bytes p 7
         (counted_merkle_root wire_externals tuple_bytes 3 (merkle_root_from_hashes wire_externals [5, 6, 7]))"
  using merkle_opening_verifies [of 2 "[5, 6, 7]" wire_externals tuple_bytes] by simp

text \<open>
  C27. A counted Merkle opening cannot lie: one that verifies against the counted root of a list
  names its length, an index inside it and the leaf stored there, unless the hash collides on two
  of the pairs the fold and the tree combine, or on the two counted roots.
\<close>

theorem merkle_opening_sound:
  assumes "opening_verify E menc p leaf (counted_merkle_root E menc (of_nat (length xs)) (merkle_root_from_hashes E xs))"
    and "xs \<noteq> []" and "length xs < 2 ^ 64"
    and "inj_on (\<lambda>(a, b). pair_hash E a b)
      (fold_pairs E (unat (mo_index p)) (length xs) leaf (mo_siblings p) \<union> tree_pairs E xs)"
    and "inj_on (\<lambda>t. blake3 E (menc (EVIDENCE_MEMBERSHIP_DOMAIN, t)))
      (insert (of_nat (length xs), merkle_root_from_hashes E xs)
        {(mo_count p, h) | h t. opening_fold E (unat (mo_index p)) (unat (mo_count p)) leaf (mo_siblings p) = Some (h, t)})"
  shows "unat (mo_count p) = length xs \<and> unat (mo_index p) < length xs \<and> xs ! unat (mo_index p) = leaf"
proof -
  obtain h where h: "opening_fold E (unat (mo_index p)) (unat (mo_count p)) leaf (mo_siblings p) = Some (h, [])"
    and lt: "mo_index p < mo_count p"
    and root: "blake3 E (menc (EVIDENCE_MEMBERSHIP_DOMAIN, mo_count p, h))
        = blake3 E (menc (EVIDENCE_MEMBERSHIP_DOMAIN, of_nat (length xs), merkle_root_from_hashes E xs))"
    using assms(1) by (auto simp: opening_verify_def counted_merkle_root_def split: option.splits)
  have "(mo_count p, h) = (of_nat (length xs), merkle_root_from_hashes E xs)"
    by (rule inj_onD [OF assms(5) root]) (use h in auto)
  then have c: "unat (mo_count p) = length xs" and hr: "h = level_root E xs"
    using assms(2,3) unat_of_nat_64 [of "length xs"] by (simp_all add: merkle_root_levels)
  have idx: "unat (mo_index p) < length xs" using lt c by (simp add: word_less_nat_alt)
  have "leaf = xs ! unat (mo_index p)"
    by (rule opening_fold_sound [OF _ idx assms(4)]) (use h c hr in simp)
  then show ?thesis using c idx by simp
qed

theorem merkle_opening_sound_witness:
  "let p = \<lparr>mo_index = 0, mo_count = 2, mo_siblings = [6]\<rparr>
   in opening_verify wire_externals tuple_bytes p 5
        (counted_merkle_root wire_externals tuple_bytes (of_nat (length [5, 6 :: hash])) (merkle_root_from_hashes wire_externals [5, 6]))
      \<and> [5, 6 :: hash] ! unat (mo_index p) = 5"
proof -
  let ?E = wire_externals and ?p = "\<lparr>mo_index = 0, mo_count = 2, mo_siblings = [6]\<rparr>"
  have fold: "opening_fold ?E 0 2 5 [6] = Some (pair_hash ?E 5 6, [])"
    by (simp add: opening_fold.simps flip_low_def)
  have root: "merkle_root_from_hashes ?E [5, 6] = pair_hash ?E 5 6"
    by (simp add: merkle_root_levels level_root.simps)
  have v: "opening_verify ?E tuple_bytes ?p 5
      (counted_merkle_root ?E tuple_bytes (of_nat (length [5, 6 :: hash])) (merkle_root_from_hashes ?E [5, 6]))"
    by (simp add: opening_verify_def fold root)
  have i: "inj_on (\<lambda>(a, b). pair_hash ?E a b)
      (fold_pairs ?E (unat (mo_index ?p)) (length [5, 6 :: hash]) 5 (mo_siblings ?p) \<union> tree_pairs ?E [5, 6])"
    by (simp add: fold_pairs.simps tree_pairs.simps flip_low_def)
  have "unat (mo_count ?p) = length [5, 6 :: hash] \<and> unat (mo_index ?p) < length [5, 6 :: hash] \<and> [5, 6 :: hash] ! unat (mo_index ?p) = 5"
    by (rule merkle_opening_sound [OF v _ _ i]) (simp_all add: fold root)
  with v show ?thesis by (simp only: Let_def simp_thms)
qed

subsection \<open>The transaction root\<close>

text \<open>
  C28. The streaming commitment of a block's transactions, which reuses one buffer, computes what
  the reference over separate encodings computes: it panics exactly when the number of transactions
  or the length of one encoding does not fit a \<open>u32\<close>, and otherwise reports the exact number and
  the root \<open>merkle_root_of_blobs\<close> gives for the encodings in block order.
\<close>

theorem transaction_root_commits:
  "transaction_commitments E txs =
     (if \<not> length txs < 2 ^ 32 then Inl ''transaction count fits borsh''
      else case merkle_root_of_blobs E (map (enc (transaction_codec E)) txs) of
             Inl _ \<Rightarrow> Inl ''transaction length fits borsh''
           | Inr r \<Rightarrow> Inr (r, \<lparr>ts_transaction_count = of_nat (length txs)\<rparr>))"
proof (cases "\<forall>tx \<in> set txs. length (enc (transaction_codec E) tx) < 2 ^ 32")
  case True
  then have "blob_leaves E (map (enc (transaction_codec E)) txs) = Inr (map (\<lambda>tx. blake3 E (transaction_leaf_bytes E tx)) txs)"
    by (subst blob_leaves_map) (auto simp: transaction_leaf_bytes_def Let_def)
  with True show ?thesis
    by (simp add: transaction_commitments_def transaction_leaves_map merkle_root_of_blobs_def merkle_root_of_hashes_def)
next
  case False
  then obtain tx where "tx \<in> set txs" and "\<not> length (enc (transaction_codec E) tx) < 2 ^ 32" by blast
  then have "blob_leaves E (map (enc (transaction_codec E)) txs) = Inl ''blob length fits u32''"
    by (intro blob_leaves_panic [of "enc (transaction_codec E) tx"]) simp_all
  with False show ?thesis
    by (auto simp: transaction_commitments_def transaction_leaves_map merkle_root_of_blobs_def)
qed

text \<open>
  C33. The transaction root and count bind the transactions and their order: two different lists of
  transactions have different commitments, unless the hash collides on two of the length-prefixed
  encodings or on two of the pairs the two trees combine.
\<close>

theorem transaction_root_binding:
  assumes "borsh E" and "transaction_commitments E txs = Inr c" and "transaction_commitments E us = Inr d"
    and "txs \<noteq> us" and "\<forall>tx \<in> set txs \<union> set us. decodable tx"
    and "inj_on (blake3 E) (transaction_leaf_bytes E ` (set txs \<union> set us))"
    and "inj_on (\<lambda>(a, b). pair_hash E a b)
      (tree_pairs E (map (\<lambda>tx. blake3 E (transaction_leaf_bytes E tx)) txs)
       \<union> tree_pairs E (map (\<lambda>tx. blake3 E (transaction_leaf_bytes E tx)) us))"
  shows "c \<noteq> d"
proof
  let ?leaf = "\<lambda>tx. blake3 E (transaction_leaf_bytes E tx)"
  assume "c = d"
  then have c: "merkle_root_from_hashes E (map ?leaf txs) = merkle_root_from_hashes E (map ?leaf us)"
    "(of_nat (length txs) :: u32) = of_nat (length us)" "length txs < 2 ^ 32" "length us < 2 ^ 32"
    using assms(2,3) by (auto simp: transaction_commitments_def transaction_leaves_map res_iffs split: if_splits)
  have "unat (of_nat (length txs) :: u32) = unat (of_nat (length us) :: u32)" using c(2) by (rule arg_cong)
  then have len: "length txs = length us" using c(3,4) by (simp add: unat_of_nat)
  have leaves: "map ?leaf txs = map ?leaf us"
  proof (cases "txs = []")
    case False
    then show ?thesis using level_root_inject [OF _ _ _ assms(7)] c(1) len by (auto simp: merkle_root_levels split: if_splits)
  qed (use len in simp)
  have inj: "inj_on ?leaf (set txs \<union> set us)"
  proof (rule inj_onI)
    fix a b assume ab: "a \<in> set txs \<union> set us" "b \<in> set txs \<union> set us" "?leaf a = ?leaf b"
    have "transaction_leaf_bytes E a = transaction_leaf_bytes E b" by (rule inj_onD [OF assms(6) ab(3)]) (use ab in auto)
    then have "enc (transaction_codec E) a = enc (transaction_codec E) b" by (simp add: transaction_leaf_bytes_def Let_def)
    moreover have "dec (transaction_codec E) (enc (transaction_codec E) t) = Some t" if "t \<in> {a, b}" for t
      using borsh.transaction_law [OF assms(1)] assms(5) ab that by blast
    ultimately show "a = b" by (metis insertCI option.inject)
  qed
  have "txs = us" by (rule map_inj_on [OF leaves inj])
  then show False using assms(4) by simp
qed

theorem transaction_root_binding_witness:
  "\<exists>c d. transaction_commitments wire_externals [Transfer sample_transfer] = Inr c
     \<and> transaction_commitments wire_externals [Transfer sample_transfer, Transfer sample_transfer] = Inr d \<and> c \<noteq> d"
proof -
  let ?t = "Transfer sample_transfer"
  obtain c d where c: "transaction_commitments wire_externals [?t] = Inr c"
    and d: "transaction_commitments wire_externals [?t, ?t] = Inr d"
    using sample_sizes by (simp add: transaction_commitments_def transaction_leaves_map)
  have "c \<noteq> d"
    by (rule transaction_root_binding [OF wire_borsh c d]) (simp_all add: decodable_def tree_pairs.simps)
  with c d show ?thesis by blast
qed

end
