(* ===== verification/Consensus_Types.thy ===== *)
theory Consensus_Types
  imports Runtime_State
begin

text \<open>
  Consensus wire types (\<open>consensus-types/src/lib.rs\<close>, \<open>bft.rs\<close>) and the primitives they rest on
  (\<open>crates/primitives/src/lib.rs\<close>): aggregation bitmaps, quorum fractions, the signing domain and
  the exact byte strings validators sign.

  The borsh encodings of the signed payloads and the BLS primitives are the fields of
  \<open>bft_externals\<close>: \<open>bls_verify\<close> and \<open>bls_aggregate_verify\<close> are the two signature equations, the
  others are the decoding of points and the aggregation of signatures.
\<close>

subsection \<open>Bit vectors (primitives)\<close>

record bit_vec =
  bv_bit_len :: u32
  bv_bytes :: bytes

definition bytes_for_bits :: "u32 \<Rightarrow> nat" where
  "bytes_for_bits bit_len = (unat bit_len + 7) div 8"

definition has_non_zero_padding :: "bit_vec \<Rightarrow> bool" where
  "has_non_zero_padding v =
     (let unused_bits = length (bv_bytes v) * 8 - unat (bv_bit_len v)
      in if unused_bits = 0 \<or> bv_bytes v = [] then False
         else let used = unat (bv_bit_len v) mod 8;
                  mask = (if used = 0 then 0 else not (push_bit used 1 - 1)) :: u8
              in and (last (bv_bytes v)) mask \<noteq> 0)"

definition bitvec_from_bytes :: "u32 \<Rightarrow> bytes \<Rightarrow> unit + bit_vec" where
  "bitvec_from_bytes bit_len bs =
     (if length bs \<noteq> bytes_for_bits bit_len then Inl ()
      else let v = \<lparr>bv_bit_len = bit_len, bv_bytes = bs\<rparr>
           in if has_non_zero_padding v then Inl () else Inr v)"

definition bitvec_empty :: bit_vec where
  "bitvec_empty = \<lparr>bv_bit_len = 0, bv_bytes = []\<rparr>"

definition bitvec_get :: "bit_vec \<Rightarrow> u32 \<Rightarrow> bool option" where
  "bitvec_get v index =
     (if index \<ge> bv_bit_len v then None
      else Some (and (bv_bytes v ! (unat index div 8)) (push_bit (unat index mod 8) 1) \<noteq> 0))"

definition bitvec_push :: "bit_vec \<Rightarrow> bool \<Rightarrow> bit_vec" where
  "bitvec_push v value =
     (let index = bv_bit_len v;
          next_len = saturating_add index 1;
          bs = (if length (bv_bytes v) < bytes_for_bits next_len then bv_bytes v @ [0] else bv_bytes v);
          byte = unat index div 8;
          bs' = (if value then bs[byte := or (bs ! byte) (push_bit (unat index mod 8) 1)] else bs)
      in \<lparr>bv_bit_len = next_len, bv_bytes = bs'\<rparr>)"

subsection \<open>Quorum fractions (primitives)\<close>

type_synonym fraction = "u64 \<times> u64"

definition quorum_fraction_valid :: "u64 \<Rightarrow> u64 \<Rightarrow> bool" where
  "quorum_fraction_valid numerator denominator \<longleftrightarrow>
     numerator \<noteq> 0 \<and> denominator \<noteq> 0 \<and> numerator \<le> denominator
     \<and> (ucast numerator :: u128) * 3 \<ge> ucast denominator * 2"

definition weight_quorum_reached :: "u64 \<Rightarrow> u64 \<Rightarrow> u64 \<Rightarrow> u64 \<Rightarrow> bool" where
  "weight_quorum_reached weight whole numerator denominator \<longleftrightarrow>
     (ucast weight :: u128) * ucast denominator \<ge> ucast whole * ucast numerator"

subsection \<open>Consensus parameters (primitives)\<close>

type_synonym fixed_u128 = u128

definition FIXED_U128_ONE :: fixed_u128 where "FIXED_U128_ONE = push_bit 64 1"

record consensus_params =
  cp_slot_duration_secs :: u64
  cp_epoch_length :: u64
  cp_chunk_size :: u64
  cp_chunk_timeout_slots :: u64
  cp_proof_window_slots :: u64
  cp_finality_stall_threshold_slots :: u64
  cp_proposer_boost_fraction :: fixed_u128
  cp_bft_prevote_quorum_numerator :: u64
  cp_bft_prevote_quorum_denominator :: u64
  cp_bft_precommit_quorum_numerator :: u64
  cp_bft_precommit_quorum_denominator :: u64
  cp_min_validator_withdrawal_delay_secs :: u64
  cp_lock_window_chunks :: u64
  cp_expected_proposers_per_slot :: fixed_u128
  cp_expected_aggregators_per_round :: fixed_u128
  cp_vote_subnets :: u16
  cp_validator_subnets_per_chunk :: u8
  cp_bft_round_timeout_base_secs :: u64
  cp_bft_round_timeout_step_secs :: u64
  cp_epoch_length_in_chunks :: u64
  cp_activation_delay_epochs :: u64
  cp_exit_delay_epochs :: u64

definition default_consensus_params :: consensus_params where
  "default_consensus_params =
     \<lparr>cp_slot_duration_secs = 4, cp_epoch_length = 32, cp_chunk_size = 128, cp_chunk_timeout_slots = 16,
      cp_proof_window_slots = 8, cp_finality_stall_threshold_slots = 64,
      cp_proposer_boost_fraction = (FIXED_U128_ONE * 2) div 5,
      cp_bft_prevote_quorum_numerator = 2, cp_bft_prevote_quorum_denominator = 3,
      cp_bft_precommit_quorum_numerator = 2, cp_bft_precommit_quorum_denominator = 3,
      cp_min_validator_withdrawal_delay_secs = DEFAULT_UNBONDING_DELAY_BLOCKS * 4,
      cp_lock_window_chunks = 64, cp_expected_proposers_per_slot = FIXED_U128_ONE,
      cp_expected_aggregators_per_round = FIXED_U128_ONE * 4, cp_vote_subnets = 16,
      cp_validator_subnets_per_chunk = 2, cp_bft_round_timeout_base_secs = 8,
      cp_bft_round_timeout_step_secs = 4, cp_epoch_length_in_chunks = 1,
      cp_activation_delay_epochs = 2, cp_exit_delay_epochs = 2\<rparr>"

subsection \<open>Votes and certificates\<close>

datatype finality_vote_phase = Prevote | Precommit

record finality_vote_data =
  fd_chunk_id :: u64
  fd_round :: u32
  fd_chunk_hash :: hash
  fd_phase :: finality_vote_phase

record aggregated_vote =
  av_bits :: bit_vec
  av_signature :: bls_signature

record quorum_certificate =
  qc_data :: finality_vote_data
  qc_aggregate :: aggregated_vote

record vote_attestation =
  va_vote_signature :: bls_signature
  va_validator_index :: u32
  va_vote :: finality_vote_data
  va_proof_hashes :: "hash list"
  va_unlock_quorum :: "quorum_certificate option"
  va_signature :: bls_signature

record finality_vote =
  fv_bits :: bit_vec
  fv_data :: finality_vote_data
  fv_signature :: bls_signature
  fv_attestations :: "vote_attestation list"

record indexed_vote =
  iv_data :: finality_vote_data
  iv_signature :: bls_signature

record lock_evidence =
  le_locked_prevote_quorum :: quorum_certificate
  le_attestation :: vote_attestation

record nil_vote_data =
  nd_chunk_id :: u64
  nd_round :: u32
  nd_phase :: finality_vote_phase

record nil_vote_attestation =
  na_validator_index :: u32
  na_vote :: nil_vote_data
  na_vote_signature :: bls_signature
  na_signature :: bls_signature

record nil_vote =
  nv_data :: nil_vote_data
  nv_bits :: bit_vec
  nv_signature :: bls_signature
  nv_attestations :: "nil_vote_attestation list"

record indexed_nil_vote =
  inv_data :: nil_vote_data
  inv_signature :: bls_signature

record round_change =
  rc_chunk_id :: u64
  rc_round :: u32
  rc_validator_index :: u32
  rc_highest_quorum :: "quorum_certificate option"
  rc_signature :: bls_signature

record round_change_certificate =
  rcc_chunk_id :: u64
  rcc_round :: u32
  rcc_reports :: "round_change list"

record chunk =
  ch_chunk_id :: u64
  ch_start_height :: u64
  ch_end_height :: u64
  ch_start_state_root :: hash
  ch_end_state_root :: hash
  ch_start_block_hash :: hash
  ch_end_block_hash :: hash
  ch_block_hash_root :: hash
  ch_block_proof_root :: hash
  ch_vrf_proof_root :: hash
  ch_active_validator_set_root :: hash
  ch_next_validator_set_root :: hash
  ch_da_root :: hash

record bft_proposal =
  bp_chunk :: chunk
  bp_round :: u32
  bp_proposer_index :: u32
  bp_valid_quorum :: "quorum_certificate option"
  bp_round_change_certificate :: "round_change_certificate option"
  bp_signature :: bls_signature

record finality_cert =
  fc_proposal :: bft_proposal
  fc_prevote_attestations :: "vote_attestation list"
  fc_precommit_attestations :: "vote_attestation list"
  fc_chunk_id :: u64
  fc_round :: u32
  fc_chunk_hash :: hash
  fc_prevote :: aggregated_vote
  fc_precommit :: aggregated_vote
  fc_active_validator_set_root :: hash

record consensus_domain =
  cd_chain_id :: u64
  cd_chain_spec_hash :: hash

subsection \<open>Code outside the repository\<close>

record bft_externals =
  bx_base :: externals
  vote_data_bytes :: "finality_vote_data \<Rightarrow> bytes"
  attestation_bytes :: "u32 \<times> finality_vote_data \<times> bls_signature \<times> hash list \<times> quorum_certificate option \<Rightarrow> bytes"
  nil_data_bytes :: "nil_vote_data \<Rightarrow> bytes"
  nil_attestation_bytes :: "u32 \<times> nil_vote_data \<times> bls_signature \<Rightarrow> bytes"
  round_change_bytes :: "u64 \<times> u32 \<times> u32 \<times> quorum_certificate option \<Rightarrow> bytes"
  proposal_bytes :: "chunk \<times> u32 \<times> u32 \<times> quorum_certificate option \<times> round_change_certificate option \<Rightarrow> bytes"
  chunk_bytes :: "chunk \<Rightarrow> bytes"
  validators_bytes :: "consensus_validator list \<Rightarrow> bytes"
  key_decodes :: "bls_public_key \<Rightarrow> bool"
  signature_decodes :: "bls_signature \<Rightarrow> bool"
  bls_verify :: "bls_public_key \<Rightarrow> bytes \<Rightarrow> bls_signature \<Rightarrow> bool"
  bls_aggregate_verify :: "bls_public_key list \<Rightarrow> bytes \<Rightarrow> bls_signature \<Rightarrow> bool"
  bls_aggregate_signatures :: "bls_signature list \<Rightarrow> bls_signature option"

abbreviation bx_blake3 :: "bft_externals \<Rightarrow> bytes \<Rightarrow> hash" where
  "bx_blake3 X \<equiv> blake3 (bx_base X)"

subsection \<open>Signed messages\<close>

definition DOMAIN_PREVOTE :: bytes where "DOMAIN_PREVOTE = ascii ''NEUTRINO_PREVOTE''"
definition DOMAIN_PRECOMMIT :: bytes where "DOMAIN_PRECOMMIT = ascii ''NEUTRINO_PRECOMM''"
definition DOMAIN_VOTE_ATTESTATION :: bytes where "DOMAIN_VOTE_ATTESTATION = ascii ''NEUTRINO_VOTE___''"
definition DOMAIN_BFT_PROPOSAL :: bytes where "DOMAIN_BFT_PROPOSAL = ascii ''NEUTRINO_BFTPROP''"
definition DOMAIN_BFT_NIL :: bytes where "DOMAIN_BFT_NIL = ascii ''NEUTRINO_BFTNIL_''"
definition DOMAIN_BFT_NIL_ATTESTATION :: bytes where "DOMAIN_BFT_NIL_ATTESTATION = ascii ''NEUTRINO_NILATT_''"
definition DOMAIN_BFT_ROUND_CHANGE :: bytes where "DOMAIN_BFT_ROUND_CHANGE = ascii ''NEUTRINO_ROUNDCH''"

definition signing_message :: "consensus_domain \<Rightarrow> bytes \<Rightarrow> bytes \<Rightarrow> bytes" where
  "signing_message d tag payload = tag @ le_bytes 8 (cd_chain_id d) @ be_bytes 32 (cd_chain_spec_hash d) @ payload"

definition vote_message :: "bft_externals \<Rightarrow> consensus_domain \<Rightarrow> finality_vote_data \<Rightarrow> bytes" where
  "vote_message X d data =
     signing_message d (case fd_phase data of Prevote \<Rightarrow> DOMAIN_PREVOTE | Precommit \<Rightarrow> DOMAIN_PRECOMMIT)
       (vote_data_bytes X data)"

definition attestation_message :: "bft_externals \<Rightarrow> consensus_domain \<Rightarrow> vote_attestation \<Rightarrow> bytes" where
  "attestation_message X d a =
     signing_message d DOMAIN_VOTE_ATTESTATION
       (attestation_bytes X (va_validator_index a, va_vote a, va_vote_signature a, va_proof_hashes a, va_unlock_quorum a))"

definition nil_message :: "bft_externals \<Rightarrow> consensus_domain \<Rightarrow> nil_vote_data \<Rightarrow> bytes" where
  "nil_message X d data = signing_message d DOMAIN_BFT_NIL (nil_data_bytes X data)"

definition nil_attestation_message ::
  "bft_externals \<Rightarrow> consensus_domain \<Rightarrow> nil_vote_attestation \<Rightarrow> bytes" where
  "nil_attestation_message X d a =
     signing_message d DOMAIN_BFT_NIL_ATTESTATION
       (nil_attestation_bytes X (na_validator_index a, na_vote a, na_vote_signature a))"

definition round_change_message :: "bft_externals \<Rightarrow> consensus_domain \<Rightarrow> round_change \<Rightarrow> bytes" where
  "round_change_message X d r =
     signing_message d DOMAIN_BFT_ROUND_CHANGE
       (round_change_bytes X (rc_chunk_id r, rc_round r, rc_validator_index r, rc_highest_quorum r))"

definition proposal_message :: "bft_externals \<Rightarrow> consensus_domain \<Rightarrow> bft_proposal \<Rightarrow> bytes" where
  "proposal_message X d p =
     signing_message d DOMAIN_BFT_PROPOSAL
       (proposal_bytes X (bp_chunk p, bp_round p, bp_proposer_index p, bp_valid_quorum p, bp_round_change_certificate p))"

definition chunk_hash :: "bft_externals \<Rightarrow> chunk \<Rightarrow> hash" where
  "chunk_hash X c = bx_blake3 X (chunk_bytes X c)"

definition validators_commitment :: "bft_externals \<Rightarrow> consensus_validator list \<Rightarrow> hash" where
  "validators_commitment X vs = bx_blake3 X (validators_bytes X vs)"

definition cert_vote_data :: "finality_cert \<Rightarrow> finality_vote_phase \<Rightarrow> finality_vote_data" where
  "cert_vote_data c phase =
     \<lparr>fd_chunk_id = fc_chunk_id c, fd_round = fc_round c, fd_chunk_hash = fc_chunk_hash c, fd_phase = phase\<rparr>"

definition cert_vote :: "finality_cert \<Rightarrow> finality_vote_phase \<Rightarrow> finality_vote" where
  "cert_vote c phase =
     (let (aggregate, attestations) =
        (case phase of Prevote \<Rightarrow> (fc_prevote c, fc_prevote_attestations c)
         | Precommit \<Rightarrow> (fc_precommit c, fc_precommit_attestations c))
      in \<lparr>fv_bits = av_bits aggregate, fv_data = cert_vote_data c phase, fv_signature = av_signature aggregate,
          fv_attestations = attestations\<rparr>)"

definition attested_vote :: "vote_attestation \<Rightarrow> indexed_vote" where
  "attested_vote a = \<lparr>iv_data = va_vote a, iv_signature = va_vote_signature a\<rparr>"

text \<open>\<open>max_by_key\<close> keeps the last of several greatest elements.\<close>

definition qc_key :: "quorum_certificate \<Rightarrow> u32 \<times> hash" where
  "qc_key q = (fd_round (qc_data q), fd_chunk_hash (qc_data q))"

definition key_le :: "u32 \<times> hash \<Rightarrow> u32 \<times> hash \<Rightarrow> bool" where
  "key_le a b \<longleftrightarrow> fst a < fst b \<or> fst a = fst b \<and> snd a \<le> snd b"

fun max_quorum :: "quorum_certificate option \<Rightarrow> quorum_certificate list \<Rightarrow> quorum_certificate option" where
  "max_quorum best [] = best"
| "max_quorum None (q # qs) = max_quorum (Some q) qs"
| "max_quorum (Some b) (q # qs) = max_quorum (Some (if key_le (qc_key b) (qc_key q) then q else b)) qs"

definition certificate_highest_quorum :: "round_change_certificate \<Rightarrow> quorum_certificate option" where
  "certificate_highest_quorum c = max_quorum None (List.map_filter rc_highest_quorum (rcc_reports c))"

subsection \<open>Signer coverage\<close>

definition bit_indices :: "bit_vec \<Rightarrow> nat list" where
  "bit_indices bits = filter (\<lambda>i. bitvec_get bits (of_nat i) = Some True) [0..<unat (bv_bit_len bits)]"

fun coverage_loop ::
  "finality_vote_data \<Rightarrow> bit_vec \<Rightarrow> u64 \<Rightarrow> u32 set \<Rightarrow> vote_attestation list \<Rightarrow> u32 set option" where
  "coverage_loop vote bits block_count seen [] = Some seen"
| "coverage_loop vote bits block_count seen (claim # claims) =
     (if va_vote claim \<noteq> vote
         \<or> bitvec_get bits (va_validator_index claim) \<noteq> Some True
         \<or> va_validator_index claim \<in> seen
         \<or> (case fd_phase vote of
              Prevote \<Rightarrow> va_proof_hashes claim \<noteq> []
            | Precommit \<Rightarrow> length (va_proof_hashes claim) \<noteq> unat block_count)
      then None
      else coverage_loop vote bits block_count (insert (va_validator_index claim) seen) claims)"

definition attestation_coverage_valid ::
  "finality_vote_data \<Rightarrow> bit_vec \<Rightarrow> vote_attestation list \<Rightarrow> u64 \<Rightarrow> bool" where
  "attestation_coverage_valid vote bits claims block_count =
     (if block_count = 0 \<or> claims = [] then False
      else (case coverage_loop vote bits block_count {} claims of
              None \<Rightarrow> False
            | Some seen \<Rightarrow> length (bit_indices bits) = card seen))"

subsection \<open>Round leaders (bft.rs)\<close>

definition eligible_indices :: "consensus_validator list \<Rightarrow> nat list" where
  "eligible_indices vs = filter (\<lambda>i. \<not> cv_slashed (vs ! i) \<and> cv_effective_stake (vs ! i) > 0) [0..<length vs]"

definition leader_input :: "u64 \<Rightarrow> u64 \<Rightarrow> hash \<Rightarrow> bytes" where
  "leader_input chain_id chunk_id root =
     DOMAIN_BFT_PROPOSAL @ le_bytes 8 chain_id @ le_bytes 8 chunk_id @ be_bytes 32 root"

text \<open>\<open>u64::from_le_bytes(offset[..8])\<close> of a digest kept as a big-endian word.\<close>

definition leading_u64 :: "hash \<Rightarrow> u64" where
  "leading_u64 h = word_rcat (rev (take 8 (be_bytes 32 h)))"

text \<open>
  \<open>None\<close> when no validator is eligible or an index does not fit \<open>u32\<close>; the sum of the offset and
  the round stays far below \<open>2 ^ 64\<close> because the count fits \<open>u32\<close>.
\<close>

definition bft_leader_with_root ::
  "bft_externals \<Rightarrow> u64 \<Rightarrow> u64 \<Rightarrow> u32 \<Rightarrow> consensus_validator list \<Rightarrow> hash \<Rightarrow> u32 option" where
  "bft_leader_with_root X chain_id chunk_id round vs root =
     (let eligible = eligible_indices vs in
      if \<not> list_all (\<lambda>i. i < 2 ^ 32) eligible then None
      else if eligible = [] then None
      else let count = of_nat (length eligible) :: u64;
               offset = leading_u64 (bx_blake3 X (leader_input chain_id chunk_id root)) mod count;
               index = (offset + ucast round) mod count
           in Some (of_nat (eligible ! unat index)))"

definition bft_leader :: "bft_externals \<Rightarrow> u64 \<Rightarrow> u64 \<Rightarrow> u32 \<Rightarrow> consensus_validator list \<Rightarrow> u32 option" where
  "bft_leader X chain_id chunk_id round vs =
     bft_leader_with_root X chain_id chunk_id round vs (validators_commitment X vs)"

end
