(* ===== verification/Finality.thy ===== *)
theory Finality
  imports Consensus_Types
begin

text \<open>
  Certificate and evidence verification of the chunk guest (\<open>prover-chunk/src/finality.rs\<close>,
  \<open>slashing.rs\<close>, \<open>bft.rs\<close>): finality certificates, prevote quorums with the cache of already
  verified ones, unlock claims, proposals, round changes, nil votes and the objective evidence
  checks. The signature verifier threaded through the Rust code is the pair of equations of
  \<open>bft_externals\<close>.
\<close>

subsection \<open>Stake of a bitmap (finality.rs)\<close>

datatype finality_error = FeTarget | FeMembership | FeQuorum | FeSignature

datatype evidence_error = EvBinding | EvSignature | EvQuorum | EvHonestUnlock

definition is_active :: "consensus_validator \<Rightarrow> bool" where
  "is_active v \<longleftrightarrow> \<not> cv_slashed v \<and> cv_effective_stake v > 0"

text \<open>The \<open>u128\<close> sum of \<open>u64\<close> stakes is exact: a set in memory has fewer than \<open>2 ^ 64\<close> entries.\<close>

definition active_stake_total :: "consensus_validator list \<Rightarrow> u64 option" where
  "active_stake_total vs =
     (let whole = sum_list (map (\<lambda>v. unat (cv_effective_stake v)) (filter (\<lambda>v. \<not> cv_slashed v) vs))
      in if whole < 2 ^ 64 \<and> whole > 0 then Some (of_nat whole) else None)"

fun signers_loop ::
  "nat \<Rightarrow> consensus_validator list \<Rightarrow> bit_vec \<Rightarrow> bls_public_key list \<Rightarrow> nat
     \<Rightarrow> (bls_public_key list \<times> nat) option" where
  "signers_loop index [] bits keys acc = Some (keys, acc)"
| "signers_loop index (v # vs) bits keys acc =
     (if \<not> index < 2 ^ 32 then None
      else if bitvec_get bits (of_nat index) = Some True
      then if \<not> is_active v then None
           else signers_loop (Suc index) vs bits (keys @ [cv_pubkey v]) (acc + unat (cv_effective_stake v))
      else signers_loop (Suc index) vs bits keys acc)"

definition signers :: "consensus_validator list \<Rightarrow> bit_vec \<Rightarrow> (bls_public_key list \<times> nat) option" where
  "signers vs bits = signers_loop 0 vs bits [] 0"

definition prevote_fraction :: "consensus_params \<Rightarrow> fraction" where
  "prevote_fraction p = (cp_bft_prevote_quorum_numerator p, cp_bft_prevote_quorum_denominator p)"

definition precommit_fraction :: "consensus_params \<Rightarrow> fraction" where
  "precommit_fraction p = (cp_bft_precommit_quorum_numerator p, cp_bft_precommit_quorum_denominator p)"

subsection \<open>Indexed votes and quorums (slashing.rs)\<close>

definition nth_opt :: "'a list \<Rightarrow> nat \<Rightarrow> 'a option" where
  "nth_opt xs i = (if i < length xs then Some (xs ! i) else None)"

definition verify_indexed_vote ::
  "bft_externals \<Rightarrow> consensus_domain \<Rightarrow> consensus_validator list \<Rightarrow> u32 \<Rightarrow> indexed_vote \<Rightarrow> evidence_error + unit" where
  "verify_indexed_vote X d vs index vote =
     res_bind (ok_or (nth_opt vs (unat index)) EvBinding) (\<lambda>key.
     require (bls_verify X (cv_pubkey key) (vote_message X d (iv_data vote)) (iv_signature vote)) EvSignature)"

definition verify_attestation_with ::
  "bft_externals \<Rightarrow> consensus_domain \<Rightarrow> consensus_validator list \<Rightarrow> u32 \<Rightarrow> finality_vote_data \<Rightarrow> bytes
     \<Rightarrow> vote_attestation \<Rightarrow> evidence_error + unit" where
  "verify_attestation_with X d vs index vote message att =
     (if va_validator_index att \<noteq> index \<or> va_vote att \<noteq> vote then Inl EvBinding
      else res_bind (ok_or (nth_opt vs (unat index)) EvBinding) (\<lambda>key.
        if \<not> bls_verify X (cv_pubkey key) message (va_vote_signature att) then Inl EvSignature
        else if \<not> bls_verify X (cv_pubkey key) (attestation_message X d att) (va_signature att) then Inl EvSignature
        else Inr ()))"

definition verify_attestation ::
  "bft_externals \<Rightarrow> consensus_domain \<Rightarrow> consensus_validator list \<Rightarrow> u32 \<Rightarrow> finality_vote_data
     \<Rightarrow> vote_attestation \<Rightarrow> evidence_error + unit" where
  "verify_attestation X d vs index vote att =
     verify_attestation_with X d vs index vote (vote_message X d vote) att"

definition verify_quorum ::
  "bft_externals \<Rightarrow> consensus_domain \<Rightarrow> consensus_validator list \<Rightarrow> quorum_certificate \<Rightarrow> fraction \<Rightarrow> evidence_error + unit" where
  "verify_quorum X d vs q frac =
     (let (numerator, denominator) = frac; bits = av_bits (qc_aggregate q) in
      if fd_phase (qc_data q) \<noteq> Prevote \<or> \<not> quorum_fraction_valid numerator denominator
         \<or> unat (bv_bit_len bits) \<noteq> length vs
      then Inl EvQuorum
      else (case signers vs bits of
              None \<Rightarrow> Inl EvQuorum
            | Some (keys, weight) \<Rightarrow>
                if \<not> weight < 2 ^ 64 then Inl EvQuorum
                else res_bind (ok_or (active_stake_total vs) EvQuorum) (\<lambda>whole.
                  if \<not> weight_quorum_reached (of_nat weight) whole numerator denominator then Inl EvQuorum
                  else require (bls_aggregate_verify X keys (vote_message X d (qc_data q)) (av_signature (qc_aggregate q)))
                    EvSignature)))"

text \<open>The cache: the fraction it was opened for, and the quorums that passed.\<close>

record verified_quorums =
  vq_fraction :: fraction
  vq_verified :: "quorum_certificate list"

definition verified_quorums_new :: "fraction \<Rightarrow> verified_quorums" where
  "verified_quorums_new frac = \<lparr>vq_fraction = frac, vq_verified = []\<rparr>"

definition verify_quorum_with ::
  "bft_externals \<Rightarrow> consensus_domain \<Rightarrow> consensus_validator list \<Rightarrow> quorum_certificate \<Rightarrow> fraction
     \<Rightarrow> verified_quorums \<Rightarrow> evidence_error + verified_quorums" where
  "verify_quorum_with X d vs q frac cache =
     (let cached = (vq_fraction cache = frac) in
      if cached \<and> q \<in> set (vq_verified cache) then Inr cache
      else res_bind (verify_quorum X d vs q frac) (\<lambda>_.
        Inr (if cached then cache\<lparr>vq_verified := vq_verified cache @ [q]\<rparr> else cache)))"

definition verify_unlock_with ::
  "bft_externals \<Rightarrow> consensus_domain \<Rightarrow> consensus_validator list \<Rightarrow> finality_vote_data \<Rightarrow> quorum_certificate
     \<Rightarrow> fraction \<Rightarrow> verified_quorums \<Rightarrow> evidence_error + verified_quorums" where
  "verify_unlock_with X d vs vote unlock frac cache =
     (if fd_chunk_id (qc_data unlock) \<noteq> fd_chunk_id vote
         \<or> fd_chunk_hash (qc_data unlock) \<noteq> fd_chunk_hash vote
         \<or> (case fd_phase vote of
              Prevote \<Rightarrow> fd_round (qc_data unlock) \<ge> fd_round vote
            | Precommit \<Rightarrow> fd_round (qc_data unlock) > fd_round vote)
      then Inl EvBinding
      else verify_quorum_with X d vs unlock frac cache)"

definition verify_unlock ::
  "bft_externals \<Rightarrow> consensus_domain \<Rightarrow> consensus_validator list \<Rightarrow> finality_vote_data \<Rightarrow> quorum_certificate
     \<Rightarrow> fraction \<Rightarrow> evidence_error + unit" where
  "verify_unlock X d vs vote unlock frac =
     res_bind (verify_unlock_with X d vs vote unlock frac (verified_quorums_new frac)) (\<lambda>_. Inr ())"

subsection \<open>Evidence (slashing.rs)\<close>

definition verify_conflicting_nil_vote ::
  "bft_externals \<Rightarrow> consensus_domain \<Rightarrow> consensus_validator list \<Rightarrow> u32 \<Rightarrow> indexed_vote \<Rightarrow> indexed_nil_vote
     \<Rightarrow> evidence_error + unit" where
  "verify_conflicting_nil_vote X d vs index vote nil =
     (if fd_chunk_id (iv_data vote) \<noteq> nd_chunk_id (inv_data nil)
         \<or> fd_round (iv_data vote) \<noteq> nd_round (inv_data nil)
         \<or> fd_phase (iv_data vote) \<noteq> nd_phase (inv_data nil)
      then Inl EvBinding
      else (case nth_opt vs (unat index) of
              None \<Rightarrow> Inl EvBinding
            | Some v \<Rightarrow>
                if \<not> is_active v then Inl EvBinding
                else res_bind (verify_indexed_vote X d vs index vote) (\<lambda>_.
                  require (bls_verify X (cv_pubkey v) (nil_message X d (inv_data nil)) (inv_signature nil)) EvSignature)))"

definition verify_double_bft_proposal ::
  "bft_externals \<Rightarrow> consensus_domain \<Rightarrow> consensus_validator list \<Rightarrow> u32 \<Rightarrow> bft_proposal \<Rightarrow> bft_proposal
     \<Rightarrow> evidence_error + unit" where
  "verify_double_bft_proposal X d vs index first second =
     (let root = validators_commitment X vs in
      if ch_chunk_id (bp_chunk first) \<noteq> ch_chunk_id (bp_chunk second)
         \<or> bp_round first \<noteq> bp_round second
         \<or> bp_proposer_index first \<noteq> index
         \<or> bp_proposer_index second \<noteq> index
         \<or> chunk_hash X (bp_chunk first) = chunk_hash X (bp_chunk second)
         \<or> bft_leader_with_root X (cd_chain_id d) (ch_chunk_id (bp_chunk first)) (bp_round first) vs root \<noteq> Some index
         \<or> ch_active_validator_set_root (bp_chunk first) \<noteq> root
         \<or> ch_active_validator_set_root (bp_chunk second) \<noteq> root
      then Inl EvBinding
      else res_bind (ok_or (nth_opt vs (unat index)) EvBinding) (\<lambda>v.
        require (bls_verify X (cv_pubkey v) (proposal_message X d first) (bp_signature first)
                 \<and> bls_verify X (cv_pubkey v) (proposal_message X d second) (bp_signature second)) EvSignature))"

definition verify_lock_violation ::
  "bft_externals \<Rightarrow> consensus_domain \<Rightarrow> consensus_validator list \<Rightarrow> u32 \<Rightarrow> indexed_vote \<Rightarrow> indexed_vote
     \<Rightarrow> lock_evidence \<Rightarrow> fraction \<Rightarrow> evidence_error + unit" where
  "verify_lock_violation X d vs index first later evidence frac =
     (if fd_phase (iv_data first) \<noteq> Precommit
         \<or> fd_chunk_id (iv_data first) \<noteq> fd_chunk_id (iv_data later)
         \<or> fd_round (iv_data first) \<ge> fd_round (iv_data later)
         \<or> fd_chunk_hash (iv_data first) = fd_chunk_hash (iv_data later)
      then Inl EvBinding
      else res_bind (verify_indexed_vote X d vs index first) (\<lambda>_.
        res_bind (verify_indexed_vote X d vs index later) (\<lambda>_.
        res_bind (verify_attestation X d vs index (iv_data later) (le_attestation evidence)) (\<lambda>_.
        let locked = le_locked_prevote_quorum evidence in
        if fd_chunk_id (qc_data locked) \<noteq> fd_chunk_id (iv_data first)
           \<or> fd_round (qc_data locked) \<noteq> fd_round (iv_data first)
           \<or> fd_chunk_hash (qc_data locked) \<noteq> fd_chunk_hash (iv_data first)
        then Inl EvBinding
        else res_bind (verify_quorum X d vs locked frac) (\<lambda>_.
          (case va_unlock_quorum (le_attestation evidence) of
             None \<Rightarrow> Inr ()
           | Some unlock \<Rightarrow>
               if fd_round (qc_data unlock) > fd_round (iv_data first)
                  \<and> verify_unlock X d vs (iv_data later) unlock frac = Inr ()
               then Inl EvHonestUnlock
               else Inr ()))))))"

subsection \<open>Proposals, round changes and nil votes (bft.rs)\<close>

definition verify_round_change_with ::
  "bft_externals \<Rightarrow> consensus_domain \<Rightarrow> consensus_validator list \<Rightarrow> round_change \<Rightarrow> fraction
     \<Rightarrow> verified_quorums \<Rightarrow> finality_error + verified_quorums" where
  "verify_round_change_with X d vs report frac cache =
     (case nth_opt vs (unat (rc_validator_index report)) of
        None \<Rightarrow> Inl FeMembership
      | Some v \<Rightarrow>
          if \<not> is_active v then Inl FeMembership
          else if rc_round report = 0 then Inl FeTarget
          else if \<not> bls_verify X (cv_pubkey v) (round_change_message X d report) (rc_signature report) then Inl FeSignature
          else (case rc_highest_quorum report of
                  None \<Rightarrow> Inr cache
                | Some q \<Rightarrow>
                    if fd_chunk_id (qc_data q) \<noteq> rc_chunk_id report \<or> fd_round (qc_data q) \<ge> rc_round report
                    then Inl FeTarget
                    else map_err (\<lambda>_. FeQuorum) (verify_quorum_with X d vs q frac cache)))"

fun round_reports_loop ::
  "bft_externals \<Rightarrow> consensus_domain \<Rightarrow> consensus_validator list \<Rightarrow> round_change_certificate \<Rightarrow> fraction
     \<Rightarrow> round_change list \<Rightarrow> u32 set \<Rightarrow> u64 \<Rightarrow> verified_quorums \<Rightarrow> finality_error + u64 \<times> verified_quorums" where
  "round_reports_loop X d vs cert frac [] seen acc cache = Inr (acc, cache)"
| "round_reports_loop X d vs cert frac (report # reports) seen acc cache =
     (if rc_chunk_id report \<noteq> rcc_chunk_id cert \<or> rc_round report \<noteq> rcc_round cert
         \<or> rc_validator_index report \<in> seen
      then Inl FeTarget
      else res_bind (verify_round_change_with X d vs report frac cache) (\<lambda>cache'.
        res_bind (ok_or (checked_add acc (cv_effective_stake (vs ! unat (rc_validator_index report)))) FeMembership) (\<lambda>acc'.
        round_reports_loop X d vs cert frac reports (insert (rc_validator_index report) seen) acc' cache')))"

definition verify_round_change_certificate_with ::
  "bft_externals \<Rightarrow> consensus_domain \<Rightarrow> consensus_validator list \<Rightarrow> round_change_certificate \<Rightarrow> fraction
     \<Rightarrow> verified_quorums \<Rightarrow> finality_error + verified_quorums" where
  "verify_round_change_certificate_with X d vs cert frac cache =
     (if rcc_reports cert = [] \<or> length (rcc_reports cert) > length vs
         \<or> \<not> quorum_fraction_valid (fst frac) (snd frac)
      then Inl FeMembership
      else res_bind (ok_or (active_stake_total vs) FeMembership) (\<lambda>whole.
        res_bind (round_reports_loop X d vs cert frac (rcc_reports cert) {} 0 cache) (\<lambda>(acc, cache').
        if \<not> weight_quorum_reached acc whole (fst frac) (snd frac) then Inl FeQuorum else Inr cache')))"

definition outranked :: "quorum_certificate \<Rightarrow> quorum_certificate option \<Rightarrow> bool" where
  "outranked highest valid =
     (case valid of
        None \<Rightarrow> True
      | Some v \<Rightarrow> fd_round (qc_data v) < fd_round (qc_data highest)
          \<or> fd_round (qc_data v) = fd_round (qc_data highest)
            \<and> fd_chunk_hash (qc_data v) \<noteq> fd_chunk_hash (qc_data highest))"

definition verify_round_entry ::
  "bft_externals \<Rightarrow> consensus_domain \<Rightarrow> consensus_validator list \<Rightarrow> bft_proposal \<Rightarrow> fraction
     \<Rightarrow> verified_quorums \<Rightarrow> finality_error + verified_quorums" where
  "verify_round_entry X d vs p frac cache =
     (case bp_round_change_certificate p of
        None \<Rightarrow> if bp_round p = 0 then Inr cache else Inl FeTarget
      | Some cert \<Rightarrow>
          if bp_round p = 0 then Inl FeTarget
          else if rcc_chunk_id cert \<noteq> ch_chunk_id (bp_chunk p) \<or> rcc_round cert \<noteq> bp_round p then Inl FeTarget
          else res_bind (verify_round_change_certificate_with X d vs cert frac cache) (\<lambda>cache'.
            (case certificate_highest_quorum cert of
               None \<Rightarrow> Inr cache'
             | Some highest \<Rightarrow> if outranked highest (bp_valid_quorum p) then Inl FeTarget else Inr cache')))"

definition verify_proposal_with ::
  "bft_externals \<Rightarrow> consensus_domain \<Rightarrow> consensus_validator list \<Rightarrow> hash \<Rightarrow> bft_proposal \<Rightarrow> fraction
     \<Rightarrow> verified_quorums \<Rightarrow> finality_error + verified_quorums" where
  "verify_proposal_with X d vs root p frac cache =
     (if bft_leader_with_root X (cd_chain_id d) (ch_chunk_id (bp_chunk p)) (bp_round p) vs root \<noteq> Some (bp_proposer_index p)
         \<or> ch_active_validator_set_root (bp_chunk p) \<noteq> root
      then Inl FeTarget
      else res_bind (ok_or (nth_opt vs (unat (bp_proposer_index p))) FeMembership) (\<lambda>v.
        if \<not> bls_verify X (cv_pubkey v) (proposal_message X d p) (bp_signature p) then Inl FeSignature
        else res_bind (verify_round_entry X d vs p frac cache) (\<lambda>cache'.
          (case bp_valid_quorum p of
             None \<Rightarrow> Inr cache'
           | Some q \<Rightarrow>
               if fd_chunk_id (qc_data q) \<noteq> ch_chunk_id (bp_chunk p)
                  \<or> fd_chunk_hash (qc_data q) \<noteq> chunk_hash X (bp_chunk p)
                  \<or> fd_round (qc_data q) \<ge> bp_round p
               then Inl FeTarget
               else map_err (\<lambda>_. FeQuorum) (verify_quorum_with X d vs q frac cache')))))"

fun nil_claims_loop ::
  "bft_externals \<Rightarrow> consensus_domain \<Rightarrow> consensus_validator list \<Rightarrow> nil_vote \<Rightarrow> u32 set \<Rightarrow> nil_vote_attestation list
     \<Rightarrow> finality_error + u32 set" where
  "nil_claims_loop X d vs vote seen [] = Inr seen"
| "nil_claims_loop X d vs vote seen (claim # claims) =
     (if na_vote claim \<noteq> nv_data vote \<or> na_validator_index claim \<in> seen
         \<or> bitvec_get (nv_bits vote) (na_validator_index claim) \<noteq> Some True
      then Inl FeMembership
      else res_bind (ok_or (nth_opt vs (unat (na_validator_index claim))) FeMembership) (\<lambda>v.
        if \<not> bls_verify X (cv_pubkey v) (nil_message X d (nv_data vote)) (na_vote_signature claim)
           \<or> \<not> bls_verify X (cv_pubkey v) (nil_attestation_message X d claim) (na_signature claim)
        then Inl FeSignature
        else nil_claims_loop X d vs vote (insert (na_validator_index claim) seen) claims))"

definition verify_nil_vote ::
  "bft_externals \<Rightarrow> consensus_domain \<Rightarrow> consensus_validator list \<Rightarrow> nil_vote \<Rightarrow> finality_error + unit" where
  "verify_nil_vote X d vs vote =
     (if unat (bv_bit_len (nv_bits vote)) \<noteq> length vs then Inl FeMembership
      else (case signers vs (nv_bits vote) of
              None \<Rightarrow> Inl FeMembership
            | Some (keys, _) \<Rightarrow>
                res_bind (nil_claims_loop X d vs vote {} (nv_attestations vote)) (\<lambda>seen.
                if keys = [] \<or> card seen \<noteq> length keys then Inl FeMembership
                else require (bls_aggregate_verify X keys (nil_message X d (nv_data vote)) (nv_signature vote)) FeSignature)))"

subsection \<open>Finality certificates (finality.rs)\<close>

fun claim_signatures_loop ::
  "bft_externals \<Rightarrow> consensus_domain \<Rightarrow> consensus_validator list \<Rightarrow> finality_vote_data \<Rightarrow> bytes
     \<Rightarrow> vote_attestation list \<Rightarrow> finality_error + unit" where
  "claim_signatures_loop X d vs data message [] = Inr ()"
| "claim_signatures_loop X d vs data message (claim # claims) =
     res_bind (map_err (\<lambda>_. FeSignature)
       (verify_attestation_with X d vs (va_validator_index claim) data message claim)) (\<lambda>_.
     claim_signatures_loop X d vs data message claims)"

fun unlock_claims_loop ::
  "bft_externals \<Rightarrow> consensus_domain \<Rightarrow> consensus_validator list \<Rightarrow> finality_vote_data \<Rightarrow> vote_attestation list
     \<Rightarrow> fraction \<Rightarrow> verified_quorums \<Rightarrow> finality_error + verified_quorums" where
  "unlock_claims_loop X d vs data [] frac cache = Inr cache"
| "unlock_claims_loop X d vs data (claim # claims) frac cache =
     res_bind (case va_unlock_quorum claim of
                 None \<Rightarrow> Inr cache
               | Some unlock \<Rightarrow> map_err (\<lambda>_. FeTarget) (verify_unlock_with X d vs data unlock frac cache)) (\<lambda>cache'.
     unlock_claims_loop X d vs data claims frac cache')"

definition verify_vote_signatures ::
  "bft_externals \<Rightarrow> consensus_domain \<Rightarrow> consensus_validator list \<Rightarrow> finality_vote \<Rightarrow> consensus_params \<Rightarrow> finality_error + unit" where
  "verify_vote_signatures X d vs vote params =
     (if \<not> attestation_coverage_valid (fv_data vote) (fv_bits vote) (fv_attestations vote) (cp_chunk_size params)
         \<or> unat (bv_bit_len (fv_bits vote)) \<noteq> length vs
      then Inl FeMembership
      else (case signers vs (fv_bits vote) of
              None \<Rightarrow> Inl FeMembership
            | Some (keys, _) \<Rightarrow>
                let message = vote_message X d (fv_data vote) in
                if keys = [] \<or> \<not> bls_aggregate_verify X keys message (fv_signature vote) then Inl FeSignature
                else claim_signatures_loop X d vs (fv_data vote) message (fv_attestations vote)))"

definition verify_vote ::
  "bft_externals \<Rightarrow> consensus_domain \<Rightarrow> consensus_validator list \<Rightarrow> finality_vote \<Rightarrow> consensus_params \<Rightarrow> finality_error + unit" where
  "verify_vote X d vs vote params =
     res_bind (verify_vote_signatures X d vs vote params) (\<lambda>_.
     res_bind (unlock_claims_loop X d vs (fv_data vote) (fv_attestations vote) (prevote_fraction params)
       (verified_quorums_new (prevote_fraction params))) (\<lambda>_. Inr ()))"

definition verify_phase_with ::
  "bft_externals \<Rightarrow> consensus_validator list \<Rightarrow> aggregated_vote \<Rightarrow> bytes \<Rightarrow> u64 \<Rightarrow> fraction \<Rightarrow> finality_error + unit" where
  "verify_phase_with X vs vote message whole frac =
     (if \<not> quorum_fraction_valid (fst frac) (snd frac) \<or> unat (bv_bit_len (av_bits vote)) \<noteq> length vs
      then Inl FeMembership
      else (case signers vs (av_bits vote) of
              None \<Rightarrow> Inl FeMembership
            | Some (keys, weight) \<Rightarrow>
                if \<not> weight < 2 ^ 64 then Inl FeMembership
                else if \<not> weight_quorum_reached (of_nat weight) whole (fst frac) (snd frac) then Inl FeQuorum
                else require (bls_aggregate_verify X keys message (av_signature vote)) FeSignature))"

definition verify_cert_phase ::
  "bft_externals \<Rightarrow> consensus_domain \<Rightarrow> consensus_validator list \<Rightarrow> consensus_params \<Rightarrow> u64 \<Rightarrow> finality_cert
     \<Rightarrow> finality_vote_phase \<Rightarrow> verified_quorums \<Rightarrow> finality_error + verified_quorums" where
  "verify_cert_phase X d vs params whole cert phase cache =
     (let (frac, vote, claims) =
        (case phase of
           Prevote \<Rightarrow> (prevote_fraction params, fc_prevote cert, fc_prevote_attestations cert)
         | Precommit \<Rightarrow> (precommit_fraction params, fc_precommit cert, fc_precommit_attestations cert));
          data = cert_vote_data cert phase;
          message = vote_message X d data
      in if \<not> attestation_coverage_valid data (av_bits vote) claims (cp_chunk_size params) then Inl FeMembership
         else res_bind (claim_signatures_loop X d vs data message claims) (\<lambda>_.
           res_bind (unlock_claims_loop X d vs data claims (prevote_fraction params) cache) (\<lambda>cache'.
           res_bind (verify_phase_with X vs vote message whole frac) (\<lambda>_. Inr cache'))))"

definition verify_finality_with_root ::
  "bft_externals \<Rightarrow> consensus_domain \<Rightarrow> consensus_params \<Rightarrow> consensus_validator list \<Rightarrow> hash \<Rightarrow> chunk \<Rightarrow> finality_cert
     \<Rightarrow> finality_error + unit" where
  "verify_finality_with_root X d params vs root chunk cert =
     (if fc_chunk_id cert \<noteq> ch_chunk_id chunk
         \<or> fc_chunk_hash cert \<noteq> chunk_hash X chunk
         \<or> fc_active_validator_set_root cert \<noteq> root
         \<or> ch_active_validator_set_root chunk \<noteq> root
         \<or> bp_chunk (fc_proposal cert) \<noteq> chunk
         \<or> bp_round (fc_proposal cert) \<noteq> fc_round cert
      then Inl FeTarget
      else res_bind (verify_proposal_with X d vs root (fc_proposal cert) (prevote_fraction params)
          (verified_quorums_new (prevote_fraction params))) (\<lambda>cache.
        res_bind (ok_or (active_stake_total vs) FeMembership) (\<lambda>whole.
        res_bind (verify_cert_phase X d vs params whole cert Prevote cache) (\<lambda>cache'.
        res_bind (verify_cert_phase X d vs params whole cert Precommit cache') (\<lambda>_. Inr ())))))"

definition verify_finality ::
  "bft_externals \<Rightarrow> consensus_domain \<Rightarrow> consensus_params \<Rightarrow> consensus_validator list \<Rightarrow> chunk \<Rightarrow> finality_cert
     \<Rightarrow> finality_error + unit" where
  "verify_finality X d params vs chunk cert =
     verify_finality_with_root X d params vs (validators_commitment X vs) chunk cert"

end
