(* ===== verification/Quorums.thy ===== *)
theory Quorums
  imports Finality
begin

text \<open>
  Stake arithmetic of the verifiers: the signers of a bitmap as a set of positions, their weight,
  and the intersection of quorums.
\<close>

definition signer_set :: "consensus_validator list \<Rightarrow> bit_vec \<Rightarrow> nat set" where
  "signer_set vs bits = {i. i < length vs \<and> bitvec_get bits (of_nat i) = Some True}"

definition weight_of :: "consensus_validator list \<Rightarrow> nat set \<Rightarrow> nat" where
  "weight_of vs I = (\<Sum>i\<in>I. unat (cv_effective_stake (vs ! i)))"

definition active_set :: "consensus_validator list \<Rightarrow> nat set" where
  "active_set vs = {i. i < length vs \<and> is_active (vs ! i)}"

lemma finite_active_set [simp]: "finite (active_set vs)"
  by (simp add: active_set_def)

lemma finite_signer_set [simp]: "finite (signer_set vs bits)"
  by (simp add: signer_set_def)

subsection \<open>Fractions\<close>

lemma unat_u128_mult: "unat ((ucast a :: u128) * ucast b) = unat a * unat b" for a b :: u64
proof -
  have "unat a < 2 ^ 64" "unat b < 2 ^ 64" using unat_lt [of a] unat_lt [of b] by simp_all
  then have "unat a * unat b < 2 ^ 64 * 2 ^ 64" by (intro mult_strict_mono') simp_all
  then have "unat a * unat b < 2 ^ 128" by simp
  moreover have "unat (ucast a :: u128) = unat a" "unat (ucast b :: u128) = unat b"
    by (simp_all add: unsigned_ucast_eq take_bit_nat_eq_self unat_lt less_le_trans [OF unat_lt])
  ultimately show ?thesis by (subst unat_mult_exact) simp_all
qed

lemma weight_quorum_reached_iff:
  "weight_quorum_reached w t n d \<longleftrightarrow> unat t * unat n \<le> unat w * unat d"
  by (simp add: weight_quorum_reached_def word_le_nat_alt unat_u128_mult)

lemma quorum_fraction_valid_iff:
  "quorum_fraction_valid n d \<longleftrightarrow> 0 < unat n \<and> 0 < unat d \<and> unat n \<le> unat d \<and> 2 * unat d \<le> 3 * unat n"
proof -
  have "unat ((ucast n :: u128) * 3) = unat n * 3" for n :: u64
    using unat_u128_mult [of n 3] by simp
  moreover have "unat ((ucast d :: u128) * 2) = unat d * 2" for d :: u64
    using unat_u128_mult [of d 2] by simp
  ultimately show ?thesis
    by (auto simp: quorum_fraction_valid_def word_le_nat_alt unat_gt_0 mult.commute)
qed

text \<open>A weight that reaches a valid fraction holds two thirds of the whole.\<close>

lemma quorum_two_thirds:
  assumes "weight_quorum_reached w t n d" and "quorum_fraction_valid n d"
  shows "2 * unat t \<le> 3 * unat w"
proof -
  have a: "unat t * unat n \<le> unat w * unat d" and b: "2 * unat d \<le> 3 * unat n" and d: "0 < unat d"
    using assms by (simp_all add: weight_quorum_reached_iff quorum_fraction_valid_iff)
  have "(2 * unat t) * unat d \<le> unat t * (3 * unat n)" using mult_left_mono [OF b, of "unat t"] by (simp add: ac_simps)
  also have "\<dots> \<le> (3 * unat w) * unat d" using mult_left_mono [OF a, of 3] by (simp add: ac_simps)
  finally show ?thesis using d by simp
qed

subsection \<open>Signers\<close>

definition marked :: "bit_vec \<Rightarrow> nat \<Rightarrow> consensus_validator list \<Rightarrow> (nat \<times> consensus_validator) list" where
  "marked bits k vs = filter (\<lambda>(i, v). bitvec_get bits (of_nat i) = Some True) (enumerate k vs)"

lemma marked_simps [simp]:
  "marked bits k [] = []"
  "marked bits k (v # vs) = (if bitvec_get bits (of_nat k) = Some True then (k, v) # marked bits (Suc k) vs else marked bits (Suc k) vs)"
  by (simp_all add: marked_def)

lemma signers_loop_marked:
  "signers_loop k vs bits keys acc =
     (if (vs \<noteq> [] \<longrightarrow> k + length vs \<le> 2 ^ 32) \<and> (\<forall>(i, v) \<in> set (marked bits k vs). is_active v)
      then Some (keys @ map (\<lambda>(i, v). cv_pubkey v) (marked bits k vs),
                 acc + (\<Sum>(i, v)\<leftarrow>marked bits k vs. unat (cv_effective_stake v)))
      else None)"
proof (induction vs arbitrary: k keys acc)
  case (Cons v vs)
  have len: "(vs \<noteq> [] \<longrightarrow> Suc k + length vs \<le> 2 ^ 32) \<and> k < 2 ^ 32 \<longleftrightarrow> k + length (v # vs) \<le> 2 ^ 32"
    by (cases vs) auto
  show ?case
  proof (cases "k < 2 ^ 32")
    case True
    then have "(vs \<noteq> [] \<longrightarrow> Suc k + length vs \<le> 2 ^ 32) \<longleftrightarrow> (v # vs \<noteq> [] \<longrightarrow> k + length (v # vs) \<le> 2 ^ 32)"
      using len by blast
    then show ?thesis using True Cons.IH [of "Suc k"]
      by (cases "bitvec_get bits (of_nat k) = Some True"; cases "is_active v") (simp_all only: signers_loop.simps marked_simps
        if_True if_False simp_thms list.set ball_simps prod.case list.map append.assoc append_Cons append_Nil sum_list.Cons add.assoc)
  next
    case False
    then show ?thesis by simp
  qed
qed simp

lemma set_marked: "set (marked bits 0 vs) = (\<lambda>i. (i, vs ! i)) ` signer_set vs bits"
  by (auto simp: marked_def signer_set_def in_set_enumerate_eq image_iff)

lemma distinct_marked: "distinct (marked bits k vs)"
  unfolding marked_def by (rule distinct_filter) (simp add: distinct_enumerate)

lemma marked_weight:
  "(\<Sum>(i, v)\<leftarrow>marked bits 0 vs. unat (cv_effective_stake v)) = weight_of vs (signer_set vs bits)"
proof -
  have "(\<Sum>(i, v)\<leftarrow>marked bits 0 vs. unat (cv_effective_stake v))
      = (\<Sum>(i, v)\<in>set (marked bits 0 vs). unat (cv_effective_stake v))"
    by (rule sum_list_distinct_conv_sum_set [OF distinct_marked])
  also have "\<dots> = (\<Sum>i\<in>signer_set vs bits. unat (cv_effective_stake (vs ! i)))"
    unfolding set_marked by (subst sum.reindex) (auto simp: inj_on_def)
  finally show ?thesis by (simp add: weight_of_def)
qed

definition signer_keys :: "consensus_validator list \<Rightarrow> bit_vec \<Rightarrow> bls_public_key list" where
  "signer_keys vs bits = map (\<lambda>(i, v). cv_pubkey v) (marked bits 0 vs)"

lemma set_signer_keys: "set (signer_keys vs bits) = (\<lambda>i. cv_pubkey (vs ! i)) ` signer_set vs bits"
  by (force simp: signer_keys_def set_marked)

lemma signers_eq:
  "signers vs bits =
     (if length vs \<le> 2 ^ 32 \<and> signer_set vs bits \<subseteq> active_set vs
      then Some (signer_keys vs bits, weight_of vs (signer_set vs bits)) else None)"
proof -
  have "(\<forall>(i, v) \<in> set (marked bits 0 vs). is_active v) \<longleftrightarrow> signer_set vs bits \<subseteq> active_set vs"
    by (auto simp: set_marked active_set_def signer_set_def)
  then show ?thesis
    by (auto simp: signers_def signers_loop_marked marked_weight signer_keys_def)
qed

lemma active_stake_total_eq:
  "active_stake_total vs = Some t \<longleftrightarrow> 0 < unat t \<and> unat t = weight_of vs (active_set vs)"
proof -
  let ?live = "{i. i < length vs \<and> \<not> cv_slashed (vs ! i)}"
  let ?sum = "sum_list (map (\<lambda>v. unat (cv_effective_stake v)) (filter (\<lambda>v. \<not> cv_slashed v) vs))"
  have "?sum = (\<Sum>i\<leftarrow>filter (\<lambda>i. \<not> cv_slashed (vs ! i)) [0..<length vs]. unat (cv_effective_stake (vs ! i)))"
    by (subst map_nth [symmetric, of vs], subst filter_map) (simp add: comp_def)
  also have "\<dots> = weight_of vs ?live"
    by (subst sum_list_distinct_conv_sum_set) (auto simp: weight_of_def intro!: sum.cong)
  also have "\<dots> = weight_of vs (active_set vs)"
    unfolding weight_of_def
    by (rule sum.mono_neutral_right) (auto simp: active_set_def is_active_def word_gt_0)
  finally have sum: "?sum = weight_of vs (active_set vs)" .
  show ?thesis
  proof
    assume "active_stake_total vs = Some t"
    then have "?sum < 2 ^ 64" "0 < ?sum" "t = of_nat ?sum"
      by (auto simp: active_stake_total_def Let_def split: if_splits)
    then show "0 < unat t \<and> unat t = weight_of vs (active_set vs)" using sum by (simp add: unat_of_nat)
  next
    assume "0 < unat t \<and> unat t = weight_of vs (active_set vs)"
    moreover from this have "?sum < 2 ^ 64" using unat_lt [of t] sum by simp
    moreover have "of_nat (unat t) = t" by simp
    ultimately show "active_stake_total vs = Some t"
      using sum by (simp add: active_stake_total_def Let_def)
  qed
qed

subsection \<open>Quorum intersection\<close>

lemma weight_of_mono: "finite J \<Longrightarrow> I \<subseteq> J \<Longrightarrow> weight_of vs I \<le> weight_of vs J"
  unfolding weight_of_def by (rule sum_mono2) auto

lemma weight_of_Un_Int: "finite I \<Longrightarrow> finite J \<Longrightarrow> weight_of vs (I \<union> J) + weight_of vs (I \<inter> J) = weight_of vs I + weight_of vs J"
  unfolding weight_of_def by (rule sum.union_inter)

lemma quorum_intersection:
  assumes "S \<subseteq> active_set vs" and "T \<subseteq> active_set vs"
    and "2 * weight_of vs (active_set vs) \<le> 3 * weight_of vs S"
    and "2 * weight_of vs (active_set vs) \<le> 3 * weight_of vs T"
  shows "weight_of vs (active_set vs) \<le> 3 * weight_of vs (S \<inter> T)"
proof -
  have "finite S" "finite T" using assms finite_subset finite_active_set by blast+
  moreover have "weight_of vs (S \<union> T) \<le> weight_of vs (active_set vs)"
    using assms by (intro weight_of_mono) auto
  ultimately show ?thesis using weight_of_Un_Int [of S T vs] assms(3,4) by linarith
qed

text \<open>A third of the stake always contains a validator outside a lighter set.\<close>

lemma third_meets_complement:
  assumes "weight_of vs (active_set vs) \<le> 3 * weight_of vs S" and "3 * weight_of vs F < weight_of vs (active_set vs)"
    and "finite F"
  shows "\<exists>i \<in> S. i \<notin> F"
proof (rule ccontr)
  assume "\<not> (\<exists>i \<in> S. i \<notin> F)"
  then have "S \<subseteq> F" by blast
  then have "weight_of vs S \<le> weight_of vs F" by (rule weight_of_mono [OF assms(3)])
  then show False using assms by linarith
qed

subsection \<open>Accepted quorums\<close>

lemma verify_quorum_iff:
  "verify_quorum X d vs q frac = Inr () \<longleftrightarrow>
     fd_phase (qc_data q) = Prevote \<and> quorum_fraction_valid (fst frac) (snd frac)
     \<and> unat (bv_bit_len (av_bits (qc_aggregate q))) = length vs
     \<and> length vs \<le> 2 ^ 32 \<and> signer_set vs (av_bits (qc_aggregate q)) \<subseteq> active_set vs
     \<and> (\<exists>whole. active_stake_total vs = Some whole
          \<and> weight_of vs (signer_set vs (av_bits (qc_aggregate q))) < 2 ^ 64
          \<and> weight_quorum_reached (of_nat (weight_of vs (signer_set vs (av_bits (qc_aggregate q))))) whole (fst frac) (snd frac))
     \<and> bls_aggregate_verify X (signer_keys vs (av_bits (qc_aggregate q))) (vote_message X d (qc_data q))
         (av_signature (qc_aggregate q))"
  by (auto simp: verify_quorum_def Let_def signers_eq res_bind_Inr_iff split: prod.splits if_splits)

definition qc_signers :: "consensus_validator list \<Rightarrow> quorum_certificate \<Rightarrow> nat set" where
  "qc_signers vs q = signer_set vs (av_bits (qc_aggregate q))"

lemma reached_two_thirds:
  assumes "active_stake_total vs = Some whole" and "weight_of vs S < 2 ^ 64"
    and "weight_quorum_reached (of_nat (weight_of vs S)) whole n d" and "quorum_fraction_valid n d"
  shows "2 * weight_of vs (active_set vs) \<le> 3 * weight_of vs S"
  using quorum_two_thirds [OF assms(3,4)] assms(1,2) by (simp add: active_stake_total_eq unat_of_nat)

lemma verify_quorum_weight:
  assumes "verify_quorum X d vs q frac = Inr ()"
  shows "qc_signers vs q \<subseteq> active_set vs" and "2 * weight_of vs (active_set vs) \<le> 3 * weight_of vs (qc_signers vs q)"
  using assms reached_two_thirds unfolding verify_quorum_iff qc_signers_def by blast+

lemma verify_phase_iff:
  "verify_phase_with X vs vote message whole frac = Inr () \<longleftrightarrow>
     quorum_fraction_valid (fst frac) (snd frac) \<and> unat (bv_bit_len (av_bits vote)) = length vs
     \<and> length vs \<le> 2 ^ 32 \<and> signer_set vs (av_bits vote) \<subseteq> active_set vs
     \<and> weight_of vs (signer_set vs (av_bits vote)) < 2 ^ 64
     \<and> weight_quorum_reached (of_nat (weight_of vs (signer_set vs (av_bits vote)))) whole (fst frac) (snd frac)
     \<and> bls_aggregate_verify X (signer_keys vs (av_bits vote)) message (av_signature vote)"
  by (auto simp: verify_phase_with_def signers_eq split: if_splits)

subsection \<open>Signer coverage\<close>

lemma bitvec_get_range: "bitvec_get bits i = Some b \<Longrightarrow> i < bv_bit_len bits"
  by (auto simp: bitvec_get_def not_le split: if_splits)

lemma coverage_loop_Some:
  "coverage_loop vote bits n seen claims = Some seen' \<Longrightarrow>
     seen' = seen \<union> va_validator_index ` set claims
     \<and> (\<forall>c \<in> set claims. va_vote c = vote \<and> bitvec_get bits (va_validator_index c) = Some True)"
proof (induction claims arbitrary: seen)
  case (Cons claim claims)
  then have "va_vote claim = vote" "bitvec_get bits (va_validator_index claim) = Some True"
    and run: "coverage_loop vote bits n (insert (va_validator_index claim) seen) claims = Some seen'"
    by (simp_all split: if_splits)
  then show ?case using Cons.IH [OF run] by auto
qed simp

lemma bit_indices_card: "length (bit_indices bits) = card {i. bitvec_get bits i = Some True}"
proof -
  let ?N = "{n. n < unat (bv_bit_len bits) \<and> bitvec_get bits (of_nat n) = Some True}"
  have "distinct (bit_indices bits)" by (simp add: bit_indices_def)
  then have "length (bit_indices bits) = card (set (bit_indices bits))" by (simp add: distinct_card)
  also have "set (bit_indices bits) = ?N" by (auto simp: bit_indices_def)
  also have "card ?N = card (of_nat ` ?N :: u32 set)"
  proof (rule card_image [symmetric], rule inj_onI)
    fix a b
    assume "a \<in> ?N" "b \<in> ?N" "(of_nat a :: u32) = of_nat b"
    moreover from this have "a < 2 ^ 32" "b < 2 ^ 32" using unat_lt [of "bv_bit_len bits"] by auto
    ultimately show "a = b" by (simp add: word_unat_eq_iff unat_of_nat)
  qed
  also have "(of_nat ` ?N :: u32 set) = {i. bitvec_get bits i = Some True}"
  proof (intro set_eqI iffI)
    fix i :: u32
    assume "i \<in> {i. bitvec_get bits i = Some True}"
    then have "unat i \<in> ?N" by (auto dest!: bitvec_get_range simp: word_less_nat_alt)
    then have "of_nat (unat i) \<in> (of_nat ` ?N :: u32 set)" by blast
    then show "i \<in> of_nat ` ?N" by simp
  qed auto
  finally show ?thesis .
qed

lemma attestation_coverage:
  assumes "attestation_coverage_valid vote bits claims n"
  shows "va_validator_index ` set claims = {i. bitvec_get bits i = Some True}"
    and "c \<in> set claims \<Longrightarrow> va_vote c = vote"
proof -
  obtain seen where run: "coverage_loop vote bits n {} claims = Some seen"
    and cnt: "length (bit_indices bits) = card seen"
    using assms by (auto simp: attestation_coverage_valid_def split: if_splits option.splits)
  have seen: "seen = va_validator_index ` set claims" and sub: "seen \<subseteq> {i. bitvec_get bits i = Some True}"
    using coverage_loop_Some [OF run] by auto
  have "seen = {i. bitvec_get bits i = Some True}"
    by (rule card_subset_eq) (use sub cnt in \<open>simp_all add: bit_indices_card\<close>)
  then show "va_validator_index ` set claims = {i. bitvec_get bits i = Some True}" using seen by simp
  show "c \<in> set claims \<Longrightarrow> va_vote c = vote" using coverage_loop_Some [OF run] by blast
qed

lemma covered_signer:
  assumes "attestation_coverage_valid vote bits claims n" and "i \<in> signer_set vs bits" and "length vs \<le> 2 ^ 32"
  obtains c where "c \<in> set claims" and "va_vote c = vote" and "unat (va_validator_index c) = i"
proof -
  have "of_nat i \<in> va_validator_index ` set claims"
    using assms(2) attestation_coverage(1) [OF assms(1)] by (simp add: signer_set_def)
  then obtain c where c: "c \<in> set claims" "va_validator_index c = of_nat i" by auto
  moreover have "unat (of_nat i :: u32) = i" using assms(2,3) by (simp add: signer_set_def unat_of_nat)
  ultimately show thesis using that attestation_coverage(2) [OF assms(1)] by metis
qed

end
