(* ===== verification/Chain_Spec.thy ===== *)
theory Chain_Spec
  imports Consensus_Types
begin

text \<open>
  The chain specification and its validation (\<open>crates/primitives/src/lib.rs\<close>). The borsh encoding
  behind the specification hash is the parameter \<open>spec_bytes\<close>.
\<close>

record proof_params =
  pfp_slot_budget_per_chunk :: u64
  pfp_fallback_premium :: fixed_u128

record state_params =
  sp_keep_state_blocks :: u64
  sp_pruning_delay_chunks :: u64
  sp_witness_retention_blocks :: u64
  sp_snapshot_interval_chunks :: u64

record light_client_params =
  lp_weak_subjectivity_period_secs :: u64
  lp_anchor_interval_chunks :: u64
  lp_stale_threshold_secs :: u64

definition default_proof_params :: proof_params where
  "default_proof_params = \<lparr>pfp_slot_budget_per_chunk = 128, pfp_fallback_premium = FIXED_U128_ONE div 2\<rparr>"

definition default_state_params :: state_params where
  "default_state_params =
     \<lparr>sp_keep_state_blocks = 128 * 4, sp_pruning_delay_chunks = 2, sp_witness_retention_blocks = 128,
      sp_snapshot_interval_chunks = 1024\<rparr>"

definition default_light_client_params :: light_client_params where
  "default_light_client_params =
     \<lparr>lp_weak_subjectivity_period_secs = DEFAULT_UNBONDING_DELAY_BLOCKS * 4, lp_anchor_interval_chunks = 1024,
      lp_stale_threshold_secs = 4 * 128 * 4\<rparr>"

record chain_spec =
  cs_name :: bytes
  cs_chain_id :: u64
  cs_genesis_time :: u64
  cs_genesis_gas_limit :: u64
  cs_runtime_info :: bytes
  cs_runtime_code_hash :: hash
  cs_genesis_seed :: hash
  cs_genesis_state_root :: hash
  cs_genesis_block_hash :: hash
  cs_genesis_validator_set_root :: hash
  cs_consensus :: consensus_params
  cs_proof :: proof_params
  cs_state :: state_params
  cs_light_client :: light_client_params
  cs_runtime :: runtime_params
  cs_initial_validators :: "consensus_validator list"
  cs_metadata :: bytes

datatype chain_spec_error =
    InvalidEvidencePolicy | ZeroGasPrice | ZeroMinValidatorStake | ZeroChainId | InvalidGenesisValidatorRoot
  | ZeroConsensusParameter | InvalidQuorum | InvalidFixedPointParameter | ZeroProofParameter
  | SlotBudgetDoesNotMatchChunkSize | ZeroStateParameter | ZeroLightClientParameter
  | WeakSubjectivityOutlivesAccountability | EmptyValidatorSet | ZeroValidatorStake | ValidatorStakeOverflow
  | NonGenesisInitialValidator

definition spec_validate_quorum :: "u64 \<Rightarrow> u64 \<Rightarrow> chain_spec_error + unit" where
  "spec_validate_quorum numerator denominator = require (quorum_fraction_valid numerator denominator) InvalidQuorum"

definition consensus_params_validate :: "consensus_params \<Rightarrow> chain_spec_error + unit" where
  "consensus_params_validate p =
     (if cp_slot_duration_secs p = 0 \<or> cp_epoch_length p = 0 \<or> cp_chunk_size p = 0 \<or> cp_chunk_timeout_slots p = 0
         \<or> cp_proof_window_slots p = 0 \<or> cp_finality_stall_threshold_slots p = 0
         \<or> cp_bft_round_timeout_base_secs p = 0 \<or> cp_bft_round_timeout_step_secs p = 0
      then Inl ZeroConsensusParameter
      else res_bind (spec_validate_quorum (cp_bft_prevote_quorum_numerator p) (cp_bft_prevote_quorum_denominator p)) (\<lambda>_.
        res_bind (spec_validate_quorum (cp_bft_precommit_quorum_numerator p) (cp_bft_precommit_quorum_denominator p)) (\<lambda>_.
        if cp_vote_subnets p = 0 \<or> cp_validator_subnets_per_chunk p = 0 then Inl ZeroConsensusParameter
        else if cp_expected_proposers_per_slot p = 0 \<or> cp_expected_aggregators_per_round p = 0
          \<or> cp_proposer_boost_fraction p > FIXED_U128_ONE then Inl InvalidFixedPointParameter
        else if cp_epoch_length_in_chunks p = 0 \<or> cp_activation_delay_epochs p = 0 \<or> cp_exit_delay_epochs p = 0
        then Inl ZeroConsensusParameter
        else Inr ())))"

definition proof_params_validate :: "proof_params \<Rightarrow> consensus_params \<Rightarrow> chain_spec_error + unit" where
  "proof_params_validate p consensus =
     (if pfp_slot_budget_per_chunk p = 0 then Inl ZeroProofParameter
      else if pfp_slot_budget_per_chunk p \<noteq> cp_chunk_size consensus then Inl SlotBudgetDoesNotMatchChunkSize
      else Inr ())"

definition state_params_validate :: "state_params \<Rightarrow> chain_spec_error + unit" where
  "state_params_validate p =
     (if sp_keep_state_blocks p = 0 \<or> sp_pruning_delay_chunks p = 0 \<or> sp_witness_retention_blocks p = 0
         \<or> sp_snapshot_interval_chunks p = 0
      then Inl ZeroStateParameter else Inr ())"

definition light_client_params_validate :: "light_client_params \<Rightarrow> chain_spec_error + unit" where
  "light_client_params_validate p =
     (if lp_weak_subjectivity_period_secs p = 0 \<or> lp_anchor_interval_chunks p = 0 \<or> lp_stale_threshold_secs p = 0
      then Inl ZeroLightClientParameter else Inr ())"

fun genesis_validators_loop :: "consensus_validator list \<Rightarrow> u64 \<Rightarrow> chain_spec_error + unit" where
  "genesis_validators_loop [] acc = Inr ()"
| "genesis_validators_loop (v # vs) acc =
     (if cv_effective_stake v = 0 then Inl ZeroValidatorStake
      else if cv_activation_epoch v \<noteq> 0 \<or> cv_exit_epoch v \<noteq> - 1 then Inl NonGenesisInitialValidator
      else res_bind (ok_or (checked_add acc (cv_effective_stake v)) ValidatorStakeOverflow) (\<lambda>acc'.
        genesis_validators_loop vs acc'))"

definition chain_spec_validate :: "bft_externals \<Rightarrow> chain_spec \<Rightarrow> chain_spec_error + unit" where
  "chain_spec_validate X s =
     (if cs_chain_id s = 0 then Inl ZeroChainId
      else res_bind (consensus_params_validate (cs_consensus s)) (\<lambda>_.
        res_bind (proof_params_validate (cs_proof s) (cs_consensus s)) (\<lambda>_.
        res_bind (state_params_validate (cs_state s)) (\<lambda>_.
        res_bind (light_client_params_validate (cs_light_client s)) (\<lambda>_.
        let r = cs_runtime s in
        if rp_evidence_max_age_blocks r = 0 \<or> rp_evidence_max_age_blocks r \<ge> rp_unbonding_delay_blocks r
           \<or> rp_unbonding_delay_blocks r \<le> cp_chunk_size (cs_consensus s)
           \<or> rp_evidence_max_pending r = 0 \<or> rp_evidence_max_pending r > 4096
           \<or> rp_evidence_executions_per_block r = 0 \<or> rp_evidence_executions_per_block r > rp_evidence_max_pending r
           \<or> rp_evidence_admissions_per_block r = 0 \<or> rp_evidence_admissions_per_block r > rp_evidence_max_pending r
        then Inl InvalidEvidencePolicy
        else if rp_gas_price r = 0 then Inl ZeroGasPrice
        else if rp_min_validator_stake r = 0 then Inl ZeroMinValidatorStake
        else if (case checked_mul (rp_unbonding_delay_blocks r) (cp_slot_duration_secs (cs_consensus s)) of
                   None \<Rightarrow> True
                 | Some secs \<Rightarrow> lp_weak_subjectivity_period_secs (cs_light_client s) > secs)
        then Inl WeakSubjectivityOutlivesAccountability
        else if cs_initial_validators s = [] then Inl EmptyValidatorSet
        else if cs_genesis_validator_set_root s \<noteq> validators_commitment X (cs_initial_validators s)
        then Inl InvalidGenesisValidatorRoot
        else genesis_validators_loop (cs_initial_validators s) 0)))))"

definition chain_spec_hash :: "bft_externals \<Rightarrow> (chain_spec \<Rightarrow> bytes) \<Rightarrow> chain_spec \<Rightarrow> hash" where
  "chain_spec_hash X spec_bytes s = bx_blake3 X (spec_bytes s)"

definition spec_consensus_domain :: "bft_externals \<Rightarrow> (chain_spec \<Rightarrow> bytes) \<Rightarrow> chain_spec \<Rightarrow> consensus_domain" where
  "spec_consensus_domain X spec_bytes s =
     \<lparr>cd_chain_id = cs_chain_id s, cd_chain_spec_hash = chain_spec_hash X spec_bytes s\<rparr>"

end
