(* ===== verification/Vrf_Threshold.thy ===== *)
theory Vrf_Threshold
  imports Prelude
begin

text \<open>
  Stake-weighted proposer eligibility (\<open>crates/vrf/src/threshold.rs\<close>): 384-bit limb arithmetic on
  little-endian \<open>u64\<close> arrays, compared with the exact rational threshold of its specification. An
  out-of-range limb index, a panic of the source, is \<open>None\<close>.
\<close>

subsection \<open>Limbs\<close>

text \<open>\<open>(low_128_bits, high_64_bits)\<close> of a \<open>u128\<close> by \<open>u64\<close> product; the high limb fits \<open>u64\<close>.\<close>

definition MASK_LO_64 :: u128 where "MASK_LO_64 = 0xFFFFFFFFFFFFFFFF"

definition wide_mul_u128_u64 :: "u128 \<Rightarrow> u64 \<Rightarrow> u128 \<times> u64" where
  "wide_mul_u128_u64 a b =
     (let b128 = ucast b :: u128;
          a_lo = and a MASK_LO_64;
          a_hi = drop_bit 64 a;
          prod0 = a_lo * b128;
          prod1 = a_hi * b128;
          mid = and prod1 MASK_LO_64 + drop_bit 64 prod0;
          result_lo = or (push_bit 64 (and mid MASK_LO_64)) (and prod0 MASK_LO_64);
          result_hi = drop_bit 64 prod1 + drop_bit 64 mid
      in (result_lo, ucast result_hi))"

definition is_max_output :: "hash \<Rightarrow> bool" where
  "is_max_output output = list_all (\<lambda>byte. byte = 0xFF) (be_bytes 32 output)"

text \<open>\<open>rchunks_exact(8)\<close> of the big-endian output yields its 64-bit limbs, least significant first.\<close>

definition output_limbs :: "hash \<Rightarrow> u64 list" where
  "output_limbs output = map (\<lambda>i. ucast (drop_bit (64 * i) output)) [0..<4]"

fun increment_loop :: "u64 list \<Rightarrow> u64 \<Rightarrow> u64 list \<times> u64" where
  "increment_loop [] carry = ([], carry)"
| "increment_loop (limb # limbs) carry =
     (let total = limb + carry; overflow = (if unat limb + unat carry \<ge> 2 ^ 64 then 1 else 0)
      in if overflow = 0 then (total # limbs, 0)
         else let (limbs', carry') = increment_loop limbs overflow in (total # limbs', carry'))"

definition u256_plus_one_limbs :: "hash \<Rightarrow> u64 list" where
  "u256_plus_one_limbs output = (let (limbs, carry) = increment_loop (output_limbs output) 1 in limbs @ [carry])"

definition u128_to_limbs :: "u128 \<Rightarrow> u64 list" where
  "u128_to_limbs v = [ucast v, ucast (drop_bit 64 v)]"

fun mul_row :: "u64 list \<Rightarrow> u64 \<Rightarrow> nat \<Rightarrow> u64 list \<Rightarrow> u128 \<Rightarrow> (u64 list \<times> u128) option" where
  "mul_row out a_limb k [] carry = Some (out, carry)"
| "mul_row out a_limb k (b_limb # bs) carry =
     (if k < length out
      then let total = ucast (out ! k) + ucast a_limb * ucast b_limb + carry
           in mul_row (out[k := ucast (and total MASK_LO_64)]) a_limb (Suc k) bs (drop_bit 64 total)
      else None)"

function carry_loop :: "u64 list \<Rightarrow> nat \<Rightarrow> u128 \<Rightarrow> u64 list option" where
  "carry_loop out k carry =
     (if carry = 0 then Some out
      else if k < length out
      then let total = ucast (out ! k) + carry
           in carry_loop (out[k := ucast (and total MASK_LO_64)]) (Suc k) (drop_bit 64 total)
      else None)"
  by pat_completeness auto
termination by (relation "measure (\<lambda>(out, k, carry). length out - k)") auto

declare carry_loop.simps [simp del]

fun mul_loop :: "nat \<Rightarrow> u64 list \<Rightarrow> u64 list \<Rightarrow> u64 list \<Rightarrow> u64 list option" where
  "mul_loop i [] b out = Some out"
| "mul_loop i (a_limb # a) b out =
     (if a_limb = 0 then mul_loop (Suc i) a b out
      else Option.bind (mul_row out a_limb i b 0) (\<lambda>(out', carry).
        Option.bind (carry_loop out' (i + length b) carry) (\<lambda>out''. mul_loop (Suc i) a b out'')))"

definition mul_limbs_to_6 :: "u64 list \<Rightarrow> u64 list \<Rightarrow> u64 list option" where
  "mul_limbs_to_6 a b = mul_loop 0 a b (replicate 6 0)"

definition max_u256_times_u128 :: "u128 \<Rightarrow> u64 list option" where
  "max_u256_times_u128 v = mul_limbs_to_6 (replicate 4 (- 1)) (u128_to_limbs v)"

text \<open>\<open>limbs_le_cmp(a, b).is_le()\<close>: the first difference from the most significant limb decides.\<close>

fun limbs_le :: "nat \<Rightarrow> u64 list \<Rightarrow> u64 list \<Rightarrow> bool" where
  "limbs_le 0 a b = True"
| "limbs_le (Suc n) a b = (if a ! n = b ! n then limbs_le n a b else a ! n < b ! n)"

definition is_eligible :: "hash \<Rightarrow> u64 \<Rightarrow> u64 \<Rightarrow> u128 \<Rightarrow> bool option" where
  "is_eligible output weight whole expected =
     (if weight = 0 \<or> whole = 0 then Some False
      else let (numerator_lo, numerator_hi) = wide_mul_u128_u64 expected weight;
               denominator = push_bit 64 (ucast whole) :: u128
           in if numerator_hi \<noteq> 0 \<or> numerator_lo \<ge> denominator then Some (\<not> is_max_output output)
              else if numerator_lo = 0 then Some False
              else Option.bind (mul_limbs_to_6 (u256_plus_one_limbs output) (u128_to_limbs denominator)) (\<lambda>lhs.
                   Option.bind (max_u256_times_u128 numerator_lo) (\<lambda>rhs. Some (limbs_le 6 lhs rhs))))"

subsection \<open>Values\<close>

primrec limbs_val :: "u64 list \<Rightarrow> nat" where
  "limbs_val [] = 0"
| "limbs_val (l # ls) = unat l + 2 ^ 64 * limbs_val ls"

lemma limbs_val_append: "limbs_val (xs @ ys) = limbs_val xs + 2 ^ (64 * length xs) * limbs_val ys"
  by (induction xs) (simp_all add: power_add algebra_simps)

lemma limbs_val_bound: "limbs_val xs < 2 ^ (64 * length xs)"
proof (induction xs)
  case (Cons l ls)
  have "unat l + 2 ^ 64 * limbs_val ls < 2 ^ 64 * (limbs_val ls + 1)" using unat_lt [of l] by simp
  also have "\<dots> \<le> 2 ^ 64 * 2 ^ (64 * length ls)" using Cons.IH by (intro mult_left_mono) simp_all
  finally show ?case by (simp add: power_add)
qed simp

lemma limbs_val_update:
  "k < length xs \<Longrightarrow> limbs_val (xs[k := v]) + 2 ^ (64 * k) * unat (xs ! k) = limbs_val xs + 2 ^ (64 * k) * unat v"
proof (induction xs arbitrary: k)
  case (Cons x xs)
  show ?case
  proof (cases k)
    case (Suc j)
    then have "limbs_val (xs[j := v]) + 2 ^ (64 * j) * unat (xs ! j) = limbs_val xs + 2 ^ (64 * j) * unat v"
      using Cons by simp
    then have "2 ^ 64 * (limbs_val (xs[j := v]) + 2 ^ (64 * j) * unat (xs ! j)) = 2 ^ 64 * (limbs_val xs + 2 ^ (64 * j) * unat v)"
      by (simp only:)
    then show ?thesis using Suc by (simp add: power_add algebra_simps)
  qed simp
qed simp

lemma unat_low: "unat (and t MASK_LO_64) = unat t mod 2 ^ 64" for t :: u128
proof -
  have m: "MASK_LO_64 = mask 64" by (simp add: MASK_LO_64_def mask_eq_exp_minus_1)
  show ?thesis unfolding m take_bit_eq_mask [symmetric] unsigned_take_bit_eq by (simp only: take_bit_eq_mod)
qed

lemma low_limb: "unat (ucast (and t MASK_LO_64) :: u64) = unat t mod 2 ^ 64" for t :: u128
  by (simp add: unsigned_ucast_eq take_bit_eq_mod unat_low)

lemma unat_high: "unat (drop_bit 64 t) = unat t div 2 ^ 64" for t :: u128
  unfolding unsigned_drop_bit_eq by (simp only: drop_bit_eq_div take_bit_nat_eq_self [OF unat_lt])

lemma unat_wide: "unat (ucast a :: u128) = unat a" for a :: u64
  using unat_lt [of a] by (simp add: unsigned_ucast_eq take_bit_nat_eq_self)

lemma split_limb: "unat (ucast (and t MASK_LO_64) :: u64) + 2 ^ 64 * unat (drop_bit 64 t) = unat t" for t :: u128
  by (simp add: low_limb unat_high)

lemma row_total:
  fixes x a b :: u64
  assumes "unat c < 2 ^ 64"
  shows "unat (ucast x + ucast a * ucast b + c :: u128) = unat x + unat a * unat b + unat c"
proof -
  have x: "unat x \<le> 2 ^ 64 - 1" and a: "unat a \<le> 2 ^ 64 - 1" and b: "unat b \<le> 2 ^ 64 - 1" and c: "unat c \<le> 2 ^ 64 - 1"
    using unat_lt [of x] unat_lt [of a] unat_lt [of b] assms by simp_all
  have ab: "unat a * unat b \<le> (2 ^ 64 - 1) * (2 ^ 64 - 1)" by (rule mult_le_mono [OF a b])
  have p: "unat (ucast a * ucast b :: u128) = unat a * unat b"
    by (subst unat_mult_exact) (use ab in \<open>simp_all add: unat_wide\<close>)
  have q: "unat (ucast x + ucast a * ucast b :: u128) = unat x + unat a * unat b"
    by (subst unat_add_exact) (use ab x in \<open>simp_all add: p unat_wide\<close>)
  show ?thesis by (subst unat_add_exact) (use ab x c in \<open>simp_all add: q\<close>)
qed

lemma mul_row_value:
  assumes "k + length bs \<le> length out" and "unat c < 2 ^ 64"
  shows "\<exists>out' c'. mul_row out a k bs c = Some (out', c') \<and> length out' = length out \<and> unat c' < 2 ^ 64
    \<and> limbs_val out' + 2 ^ (64 * (k + length bs)) * unat c' = limbs_val out + 2 ^ (64 * k) * (unat a * limbs_val bs + unat c)"
  using assms
proof (induction bs arbitrary: out k c)
  case (Cons b bs)
  let ?t = "ucast (out ! k) + ucast a * ucast b + c :: u128"
  let ?lo = "ucast (and ?t MASK_LO_64) :: u64" and ?hi = "drop_bit 64 ?t"
  let ?out = "out[k := ?lo]"
  have t: "unat ?t = unat (out ! k) + unat a * unat b + unat c" by (rule row_total [OF Cons.prems(2)])
  have k: "k < length out" using Cons.prems(1) by simp
  have hi: "unat ?hi < 2 ^ 64" using unat_lt [of ?t] by (simp add: unat_high less_mult_imp_div_less)
  have "Suc k + length bs \<le> length ?out" using Cons.prems(1) by simp
  from Cons.IH [OF this hi] obtain out' c' where run: "mul_row ?out a (Suc k) bs ?hi = Some (out', c')"
    and len: "length out' = length out" and c': "unat c' < 2 ^ 64"
    and v: "limbs_val out' + 2 ^ (64 * (Suc k + length bs)) * unat c'
      = limbs_val ?out + 2 ^ (64 * Suc k) * (unat a * limbs_val bs + unat ?hi)" by auto
  have upd: "limbs_val ?out + 2 ^ (64 * k) * unat (out ! k) = limbs_val out + 2 ^ (64 * k) * unat ?lo"
    by (rule limbs_val_update [OF k])
  have "2 ^ (64 * k) * (unat ?lo + 2 ^ 64 * unat ?hi) = 2 ^ (64 * k) * (unat (out ! k) + unat a * unat b + unat c)"
    by (simp only: split_limb t)
  then have "2 ^ (64 * Suc k) * unat ?hi + 2 ^ (64 * k) * unat ?lo
      = 2 ^ (64 * k) * unat (out ! k) + 2 ^ (64 * k) * (unat a * unat b + unat c)"
    by (simp add: power_add algebra_simps)
  then have "limbs_val out' + 2 ^ (64 * (k + length (b # bs))) * unat c'
      = limbs_val out + 2 ^ (64 * k) * (unat a * limbs_val (b # bs) + unat c)"
    using v upd by (simp add: power_add algebra_simps)
  then show ?case using run len c' k by (simp add: Let_def)
qed auto

lemma carry_loop_value:
  assumes "limbs_val out + 2 ^ (64 * k) * unat c < 2 ^ (64 * length out)" and "unat c < 2 ^ 64"
  shows "\<exists>out'. carry_loop out k c = Some out' \<and> length out' = length out
    \<and> limbs_val out' = limbs_val out + 2 ^ (64 * k) * unat c"
  using assms
proof (induction out k c rule: carry_loop.induct)
  case (1 out k c)
  show ?case
  proof (cases "c = 0")
    case True
    then show ?thesis by (simp add: carry_loop.simps)
  next
    case nz: False
    have k: "k < length out"
    proof (rule ccontr)
      assume "\<not> k < length out"
      then have "(2 :: nat) ^ (64 * length out) \<le> 2 ^ (64 * k)" by (intro power_increasing) simp_all
      also have "\<dots> \<le> 2 ^ (64 * k) * unat c" using nz by (simp add: unat_gt_0 Suc_le_eq)
      finally show False using "1.prems"(1) by linarith
    qed
    let ?t = "ucast (out ! k) + c :: u128"
    let ?lo = "ucast (and ?t MASK_LO_64) :: u64" and ?hi = "drop_bit 64 ?t"
    have t: "unat ?t = unat (out ! k) + unat c" using row_total [OF "1.prems"(2), of "out ! k" 0 0] by simp
    have upd: "limbs_val (out[k := ?lo]) + 2 ^ (64 * k) * unat (out ! k) = limbs_val out + 2 ^ (64 * k) * unat ?lo"
      by (rule limbs_val_update [OF k])
    have "2 ^ (64 * k) * (unat ?lo + 2 ^ 64 * unat ?hi) = 2 ^ (64 * k) * (unat (out ! k) + unat c)"
      by (simp only: split_limb t)
    then have "2 ^ (64 * Suc k) * unat ?hi + 2 ^ (64 * k) * unat ?lo = 2 ^ (64 * k) * unat (out ! k) + 2 ^ (64 * k) * unat c"
      by (simp add: power_add algebra_simps)
    then have v: "limbs_val (out[k := ?lo]) + 2 ^ (64 * Suc k) * unat ?hi = limbs_val out + 2 ^ (64 * k) * unat c"
      using upd by linarith
    have "unat ?hi < 2 ^ 64" using unat_lt [of ?t] by (simp add: unat_high less_mult_imp_div_less)
    then obtain out' where "carry_loop (out[k := ?lo]) (Suc k) ?hi = Some out'" "length out' = length out"
      "limbs_val out' = limbs_val out + 2 ^ (64 * k) * unat c"
      using "1.IH" [OF nz k refl] v "1.prems"(1) by auto
    then show ?thesis using nz k by (subst carry_loop.simps) (simp add: Let_def)
  qed
qed

lemma mul_loop_value:
  assumes "limbs_val out + 2 ^ (64 * i) * (limbs_val a * limbs_val b) < 2 ^ (64 * length out)"
    and "i + length a + length b \<le> length out + 1"
  shows "\<exists>out'. mul_loop i a b out = Some out' \<and> length out' = length out
    \<and> limbs_val out' = limbs_val out + 2 ^ (64 * i) * (limbs_val a * limbs_val b)"
  using assms
proof (induction i a b out rule: mul_loop.induct)
  case (2 i a_limb a b out)
  have split: "2 ^ (64 * i) * (limbs_val (a_limb # a) * limbs_val b)
      = 2 ^ (64 * i) * (unat a_limb * limbs_val b) + 2 ^ (64 * Suc i) * (limbs_val a * limbs_val b)"
    by (simp add: power_add algebra_simps)
  show ?case
  proof (cases "a_limb = 0")
    case True
    then have "2 ^ (64 * i) * (limbs_val (a_limb # a) * limbs_val b) = 2 ^ (64 * Suc i) * (limbs_val a * limbs_val b)"
      using split by (simp only: unat_0 mult_0 mult_0_right add_0)
    then show ?thesis using "2.IH"(1) [OF True] "2.prems" True by (simp only: mul_loop.simps if_True list.size) simp
  next
    case False
    have "i + length b \<le> length out" "unat (0 :: u128) < 2 ^ 64" using "2.prems"(2) by simp_all
    from mul_row_value [OF this, of a_limb] obtain out1 c where r: "mul_row out a_limb i b 0 = Some (out1, c)"
      and l1: "length out1 = length out" and c: "unat c < 2 ^ 64"
      and v1: "limbs_val out1 + 2 ^ (64 * (i + length b)) * unat c = limbs_val out + 2 ^ (64 * i) * (unat a_limb * limbs_val b)"
      by auto
    have "limbs_val out1 + 2 ^ (64 * (i + length b)) * unat c < 2 ^ (64 * length out1)"
      unfolding l1 v1 using "2.prems"(1) split by linarith
    from carry_loop_value [OF this c] obtain out2 where c2: "carry_loop out1 (i + length b) c = Some out2"
      and l2: "length out2 = length out" and v2: "limbs_val out2 = limbs_val out + 2 ^ (64 * i) * (unat a_limb * limbs_val b)"
      using v1 l1 by auto
    have lt: "limbs_val out2 + 2 ^ (64 * Suc i) * (limbs_val a * limbs_val b) < 2 ^ (64 * length out2)"
      unfolding l2 v2 using "2.prems"(1) split by linarith
    have "Suc i + length a + length b \<le> length out2 + 1" using "2.prems"(2) l2 by simp
    from "2.IH"(2) [OF False r refl c2 lt this] obtain out' where "mul_loop (Suc i) a b out2 = Some out'"
      "length out' = length out" "limbs_val out' = limbs_val out2 + 2 ^ (64 * Suc i) * (limbs_val a * limbs_val b)"
      using l2 by metis
    then show ?thesis using r c2 False v2 split by (simp del: power_Suc mult_Suc_right limbs_val.simps)
  qed
qed auto

lemma limbs_val_zero [simp]: "limbs_val (replicate n 0) = 0"
  by (induction n) simp_all

lemma mul_limbs_value:
  assumes "limbs_val a * limbs_val b < 2 ^ 384" and "length a + length b \<le> 7"
  shows "\<exists>out. mul_limbs_to_6 a b = Some out \<and> length out = 6 \<and> limbs_val out = limbs_val a * limbs_val b"
proof -
  define z where "z = replicate 6 (0 :: u64)"
  have l: "length z = 6" and v: "limbs_val z = 0" unfolding z_def by (rule length_replicate, rule limbs_val_zero)
  show ?thesis
    using mul_loop_value [of z 0 a b] assms unfolding mul_limbs_to_6_def z_def [symmetric] by (simp add: l v)
qed

lemma limbs_le_value:
  "n \<le> length a \<Longrightarrow> n \<le> length b \<Longrightarrow> limbs_le n a b \<longleftrightarrow> limbs_val (take n a) \<le> limbs_val (take n b)"
proof (induction n)
  case (Suc n)
  have a: "limbs_val (take (Suc n) a) = limbs_val (take n a) + 2 ^ (64 * n) * unat (a ! n)"
    and b: "limbs_val (take (Suc n) b) = limbs_val (take n b) + 2 ^ (64 * n) * unat (b ! n)"
    using Suc.prems by (simp_all add: take_Suc_conv_app_nth limbs_val_append)
  have low: "limbs_val (take n a) < 2 ^ (64 * n)" "limbs_val (take n b) < 2 ^ (64 * n)"
    using limbs_val_bound [of "take n a"] limbs_val_bound [of "take n b"] Suc.prems by simp_all
  show ?case
  proof (cases "a ! n" "b ! n" rule: linorder_cases)
    case less
    then have "unat (a ! n) + 1 \<le> unat (b ! n)" by (simp add: word_less_nat_alt)
    then have "2 ^ (64 * n) * unat (a ! n) + 2 ^ (64 * n) \<le> 2 ^ (64 * n) * unat (b ! n)"
      using mult_le_mono2 [of _ _ "2 ^ (64 * n)"] by fastforce
    then have "limbs_val (take (Suc n) a) \<le> limbs_val (take (Suc n) b)" using low a b by linarith
    then show ?thesis using less by auto
  next
    case greater
    then have "unat (b ! n) + 1 \<le> unat (a ! n)" by (simp add: word_less_nat_alt)
    then have "2 ^ (64 * n) * unat (b ! n) + 2 ^ (64 * n) \<le> 2 ^ (64 * n) * unat (a ! n)"
      using mult_le_mono2 [of _ _ "2 ^ (64 * n)"] by fastforce
    then have "\<not> limbs_val (take (Suc n) a) \<le> limbs_val (take (Suc n) b)" using low a b by linarith
    then show ?thesis using greater by auto
  next
    case equal
    then show ?thesis using Suc a b by simp
  qed
qed simp

lemma increment_loop_value:
  assumes "unat c \<le> 1"
  shows "(let (ls', c') = increment_loop ls c in length ls' = length ls \<and> unat c' \<le> 1
    \<and> limbs_val ls' + 2 ^ (64 * length ls) * unat c' = limbs_val ls + unat c)"
  using assms
proof (induction ls arbitrary: c)
  case (Cons l ls)
  show ?case
  proof (cases "unat l + unat c \<ge> 2 ^ 64")
    case True
    have "unat (l + c) = unat l + unat c - 2 ^ 64"
      using True unat_lt [of l] Cons.prems by (simp add: unat_word_ariths le_mod_geq)
    then show ?thesis using True Cons.IH [of 1] by (auto simp: Let_def power_add algebra_simps split: prod.splits)
  next
    case False
    then have "unat (l + c) = unat l + unat c" by (subst unat_add_exact) simp_all
    then show ?thesis using False by simp
  qed
qed simp

lemma output_limbs_value: "limbs_val (output_limbs w) = unat w"
proof -
  have limb: "unat (ucast (drop_bit k w) :: u64) = unat w div 2 ^ k mod 2 ^ 64" for k
    unfolding unsigned_ucast_eq unsigned_drop_bit_eq by (simp only: take_bit_nat_eq_self [OF unat_lt] drop_bit_eq_div) (simp add: take_bit_eq_mod)
  have lt: "unat w < 2 ^ 256" using unat_lt [of w] by simp
  define x where "x = unat w"
  have "[0..<4] = [0, 1, 2, 3 :: nat]" by (simp add: upt_rec)
  then have "limbs_val (output_limbs w)
      = x mod 2 ^ 64 + 2 ^ 64 * (x div 2 ^ 64 mod 2 ^ 64 + 2 ^ 64 * (x div 2 ^ 128 mod 2 ^ 64 + 2 ^ 64 * (x div 2 ^ 192 mod 2 ^ 64)))"
    using limb [of 0] limb [of 64] limb [of 128] limb [of 192] by (simp add: output_limbs_def x_def)
  also have "x div 2 ^ 192 mod 2 ^ 64 = x div 2 ^ 192" using lt by (simp add: x_def less_mult_imp_div_less)
  also have "x div 2 ^ 128 mod 2 ^ 64 + 2 ^ 64 * (x div 2 ^ 192) = x div 2 ^ 128"
    using mod_mult_div_eq [of "x div 2 ^ 128" "2 ^ 64"] by (simp add: div_mult2_eq [symmetric])
  also have "x div 2 ^ 64 mod 2 ^ 64 + 2 ^ 64 * (x div 2 ^ 128) = x div 2 ^ 64"
    using mod_mult_div_eq [of "x div 2 ^ 64" "2 ^ 64"] by (simp add: div_mult2_eq [symmetric])
  finally show ?thesis by (simp add: x_def)
qed

lemma plus_one_value: "length (u256_plus_one_limbs w) = 5 \<and> limbs_val (u256_plus_one_limbs w) = unat w + 1"
proof -
  have l: "length (output_limbs w) = 4" by (simp add: output_limbs_def)
  obtain ls c where inc: "increment_loop (output_limbs w) 1 = (ls, c)" by (metis surj_pair)
  have "length ls = 4" "limbs_val ls + 2 ^ 256 * unat c = unat w + 1"
    using increment_loop_value [of 1 "output_limbs w"] by (simp_all add: inc l output_limbs_value)
  then show ?thesis by (simp add: u256_plus_one_limbs_def inc limbs_val_append)
qed

lemma u128_limbs_value: "length (u128_to_limbs v) = 2" "limbs_val (u128_to_limbs v) = unat v"
proof -
  have "unat (ucast v :: u64) = unat v mod 2 ^ 64" by (simp add: unsigned_ucast_eq take_bit_eq_mod)
  moreover have "unat (ucast (drop_bit 64 v) :: u64) = unat v div 2 ^ 64"
    using unat_lt [of v] unat_high [of v] unfolding unsigned_ucast_eq by (simp add: take_bit_eq_mod less_mult_imp_div_less)
  ultimately have "unat (ucast v :: u64) = unat v mod 2 ^ 64" "unat (ucast (drop_bit 64 v) :: u64) = unat v div 2 ^ 64" by simp_all
  then show "limbs_val (u128_to_limbs v) = unat v" by (simp add: u128_to_limbs_def)
qed (simp add: u128_to_limbs_def)

subsection \<open>Wide products and the boundary output\<close>

lemma unat_push64: "unat t < 2 ^ 64 \<Longrightarrow> unat (push_bit 64 t) = 2 ^ 64 * unat t" for t :: u128
  unfolding push_bit_eq_mult by (subst unat_mult_exact) simp_all

lemma limb_sum:
  "z = yl + xh \<Longrightarrow> 2 ^ 64 * xh + xl = x \<Longrightarrow> 2 ^ 64 * yh + yl = y \<Longrightarrow> 2 ^ 64 * zh + zl = z \<Longrightarrow>
     2 ^ 64 * zl + xl + 2 ^ 128 * (yh + zh) = x + 2 ^ 64 * y" for x y z :: nat
  by simp

lemma wide_mul_value:
  "wide_mul_u128_u64 a b = (lo, hi) \<Longrightarrow> unat lo + 2 ^ 128 * unat hi = unat a * unat b"
proof -
  let ?p0 = "and a MASK_LO_64 * ucast b :: u128" and ?p1 = "drop_bit 64 a * ucast b :: u128"
  let ?mid = "and ?p1 MASK_LO_64 + drop_bit 64 ?p0"
  assume "wide_mul_u128_u64 a b = (lo, hi)"
  then have lo: "lo = or (push_bit 64 (and ?mid MASK_LO_64)) (and ?p0 MASK_LO_64)"
    and hi: "hi = ucast (drop_bit 64 ?p1 + drop_bit 64 ?mid)"
    by (simp_all only: wide_mul_u128_u64_def Let_def prod.inject)
  define A where "A = unat a mod 2 ^ 64"
  define B where "B = unat a div 2 ^ 64"
  have b: "unat b \<le> 2 ^ 64 - 1" and A: "A \<le> 2 ^ 64 - 1" using unat_lt [of b] by (simp_all add: A_def)
  have B: "B \<le> 2 ^ 64 - 1" using unat_lt [of a] less_mult_imp_div_less [of "unat a" "2 ^ 64" "2 ^ 64"] by (simp add: B_def)
  have "A * unat b \<le> (2 ^ 64 - 1) * (2 ^ 64 - 1)" "B * unat b \<le> (2 ^ 64 - 1) * (2 ^ 64 - 1)"
    using mult_le_mono [OF A b] mult_le_mono [OF B b] by simp_all
  then have small: "A * unat b < 2 ^ 128" "B * unat b < 2 ^ 128" "B * unat b div 2 ^ 64 < 2 ^ 64 - 1" by simp_all
  have p0: "unat ?p0 = A * unat b"
    by (subst unat_mult_exact) (use small in \<open>simp_all add: unat_low unat_wide A_def\<close>)
  have p1: "unat ?p1 = B * unat b"
    by (subst unat_mult_exact) (use small in \<open>simp_all add: unat_high unat_wide B_def\<close>)
  have mid: "unat ?mid = B * unat b mod 2 ^ 64 + A * unat b div 2 ^ 64"
    by (subst unat_add_exact) (use small in \<open>simp_all add: unat_low unat_high p0 p1 less_mult_imp_div_less add_less_le_mono\<close>)
  have m: "MASK_LO_64 = mask 64" by (simp add: MASK_LO_64_def mask_eq_exp_minus_1)
  have "lo = push_bit 64 (and ?mid MASK_LO_64) + and ?p0 MASK_LO_64"
    unfolding lo by (rule disjunctive_add [symmetric]) (auto simp: m bit_simps)
  moreover have "unat (push_bit 64 (and ?mid MASK_LO_64)) = 2 ^ 64 * (unat ?mid mod 2 ^ 64)"
    by (subst unat_push64) (simp_all only: unat_low, simp)
  ultimately have vlo: "unat lo = 2 ^ 64 * (unat ?mid mod 2 ^ 64) + unat ?p0 mod 2 ^ 64"
    by (simp only:, subst unat_add_exact) (simp_all only: unat_low, use mod_less_divisor [of "2 ^ 64"] in simp)
  have "unat ?mid div 2 ^ 64 \<le> 1" unfolding mid using small(1) less_mult_imp_div_less [of "A * unat b" "2 ^ 64" "2 ^ 64"] by simp
  then have "unat (drop_bit 64 ?p1 + drop_bit 64 ?mid) = B * unat b div 2 ^ 64 + unat ?mid div 2 ^ 64"
    by (subst unat_add_exact) (use small(3) in \<open>simp_all add: unat_high p1\<close>)
  moreover have "B * unat b div 2 ^ 64 + unat ?mid div 2 ^ 64 < 2 ^ 64"
    using \<open>unat ?mid div 2 ^ 64 \<le> 1\<close> small(3) by simp
  ultimately have vhi: "unat hi = B * unat b div 2 ^ 64 + unat ?mid div 2 ^ 64"
    unfolding hi by (simp add: unsigned_ucast_eq take_bit_nat_eq_self)
  have "unat lo + 2 ^ 128 * unat hi = A * unat b + 2 ^ 64 * (B * unat b)"
    unfolding vlo vhi p0 by (rule limb_sum [OF mid]) (simp_all only: mult_div_mod_eq)
  also have "\<dots> = unat a * unat b"
    using mult_div_mod_eq [of "2 ^ 64" "unat a"] unfolding A_def B_def by (metis add.commute distrib_right mult.assoc)
  finally show ?thesis .
qed

lemma be_bytes_nth: "i < n \<Longrightarrow> be_bytes n w ! i = ucast (drop_bit (8 * (n - Suc i)) w)"
  by (simp add: be_bytes_def rev_nth)

lemma is_max_output_iff: "is_max_output w \<longleftrightarrow> unat w = 2 ^ 256 - 1"
proof -
  have byte: "ucast (drop_bit k (- 1 :: hash)) = (mask 8 :: u8)" if "k \<le> 248" for k
    by (rule bit_word_eqI) (use that in \<open>simp add: bit_simps\<close>)
  have ff: "be_bytes 32 (- 1 :: hash) ! i = 0xFF" if "i < 32" for i
    unfolding be_bytes_nth [OF that] using that byte [of "8 * (32 - Suc i)"] by (simp add: mask_eq_exp_minus_1)
  have "is_max_output w \<longleftrightarrow> (\<forall>i < 32. be_bytes 32 w ! i = be_bytes 32 (- 1 :: hash) ! i)"
    unfolding is_max_output_def list_all_length length_be_bytes using ff by simp
  also have "\<dots> \<longleftrightarrow> be_bytes 32 w = be_bytes 32 (- 1 :: hash)"
    unfolding list_eq_iff_nth_eq length_be_bytes by blast
  also have "\<dots> \<longleftrightarrow> w = - 1" using be_bytes_inject [of 32 w "- 1"] by auto
  also have "\<dots> \<longleftrightarrow> unat w = 2 ^ 256 - 1" by (simp add: word_unat_eq_iff unat_max_word)
  finally show ?thesis .
qed

subsection \<open>Exactness\<close>

text \<open>The documented threshold, on the natural numbers.\<close>

definition eligibility_threshold :: "u64 \<Rightarrow> u64 \<Rightarrow> u128 \<Rightarrow> nat" where
  "eligibility_threshold weight whole expected =
     (let n = unat expected * unat weight; d = unat whole * 2 ^ 64
      in if n \<ge> d then 2 ^ 256 - 1 else (2 ^ 256 - 1) * n div d)"

lemma denominator_value: "unat (push_bit 64 (ucast t) :: u128) = unat t * 2 ^ 64" for t :: u64
  by (subst unat_push64) (use unat_lt [of t] in \<open>simp_all add: unat_wide mult.commute\<close>)

lemma max_times_value:
  "\<exists>out. max_u256_times_u128 v = Some out \<and> length out = 6 \<and> limbs_val out = (2 ^ 256 - 1) * unat v"
proof -
  define m where "m = replicate 4 (- 1 :: u64)"
  have "limbs_val (replicate n (- 1)) = 2 ^ (64 * n) - 1" for n
  proof (induction n)
    case (Suc n)
    have "(1 :: nat) \<le> 2 ^ (64 * n)" by simp
    then show ?case using Suc by (simp add: unat_max_word power_add diff_mult_distrib2)
  qed simp
  from this [of 4] have m: "limbs_val m = 2 ^ 256 - 1" "length m = 4" by (simp_all only: m_def length_replicate) simp
  have "limbs_val m * limbs_val (u128_to_limbs v) < 2 ^ 384"
    using mult_strict_mono [of "2 ^ 256 - 1" "2 ^ 256" "unat v" "2 ^ 128 :: nat"] unat_lt [of v]
    by (simp add: m u128_limbs_value)
  from mul_limbs_value [OF this] show ?thesis
    unfolding max_u256_times_u128_def m_def [symmetric] by (simp add: m u128_limbs_value)
qed

text \<open>
  C29. Proposer eligibility is the documented threshold, exactly: for every output, stake, total and
  expected proposer count the limb arithmetic stays in range and decides whether the output is
  below the stake-weighted share of the output space, with no rounding error, saturating when the
  implied probability reaches one and never electing a validator without stake.
\<close>

theorem is_eligible_exact:
  "is_eligible output weight whole expected =
     Some (weight \<noteq> 0 \<and> whole \<noteq> 0 \<and> unat output < eligibility_threshold weight whole expected)"
proof (cases "weight = 0 \<or> whole = 0")
  case True
  then show ?thesis by (auto simp: is_eligible_def)
next
  case nz: False
  obtain lo hi where w: "wide_mul_u128_u64 expected weight = (lo, hi)" by (metis surj_pair)
  let ?n = "unat expected * unat weight" and ?den = "push_bit 64 (ucast whole) :: u128"
  have n: "unat lo + 2 ^ 128 * unat hi = ?n" by (rule wide_mul_value [OF w])
  have den: "unat ?den = unat whole * 2 ^ 64" by (rule denominator_value)
  have out: "unat output \<le> 2 ^ 256 - 1" using unat_lt [of "output"] by simp
  have big: "hi \<noteq> 0 \<or> lo \<ge> ?den \<longleftrightarrow> ?n \<ge> unat whole * 2 ^ 64"
  proof (cases "hi = 0")
    case True
    then show ?thesis using n by (simp add: word_le_nat_alt den)
  next
    case False
    then have "1 \<le> unat hi" by (simp add: unat_gt_0 Suc_le_eq)
    then have "2 ^ 128 * 1 \<le> (2 :: nat) ^ 128 * unat hi" by (rule mult_le_mono2)
    then have "2 ^ 128 \<le> ?n" unfolding n [symmetric] by simp
    then show ?thesis using False unat_lt [of ?den] den by simp
  qed
  show ?thesis
  proof (cases "hi \<noteq> 0 \<or> lo \<ge> ?den")
    case True
    then have "is_eligible output weight whole expected = Some (\<not> is_max_output output)"
      using nz w by (simp add: is_eligible_def)
    then show ?thesis using nz True big out by (auto simp: is_max_output_iff eligibility_threshold_def Let_def)
  next
    case small: False
    then have lo: "unat lo = ?n" and lt: "?n < unat whole * 2 ^ 64" using n big by auto
    have thr: "eligibility_threshold weight whole expected = (2 ^ 256 - 1) * ?n div (unat whole * 2 ^ 64)"
      using lt by (simp add: eligibility_threshold_def Let_def)
    show ?thesis
    proof (cases "lo = 0")
      case True
      then have "?n = 0" using lo by simp
      then show ?thesis using True small nz w thr by (simp only: mult_0_right div_0) (simp add: is_eligible_def)
    next
      case False
      let ?a = "u256_plus_one_limbs output"
      have "limbs_val ?a * limbs_val (u128_to_limbs ?den) < 2 ^ 384"
        using mult_le_less_imp_less [of "unat output + 1" "2 ^ 256" "unat ?den" "2 ^ 128"] out unat_lt [of ?den]
        by (simp add: plus_one_value u128_limbs_value)
      from mul_limbs_value [OF this] obtain lhs where l: "mul_limbs_to_6 ?a (u128_to_limbs ?den) = Some lhs" "length lhs = 6"
        "limbs_val lhs = (unat output + 1) * (unat whole * 2 ^ 64)"
        by (auto simp: plus_one_value u128_limbs_value den)
      obtain rhs where r: "max_u256_times_u128 lo = Some rhs" "length rhs = 6" "limbs_val rhs = (2 ^ 256 - 1) * ?n"
        using max_times_value [of lo] lo by auto
      have "is_eligible output weight whole expected = Some (limbs_le 6 lhs rhs)"
        using nz w small False l(1) r(1) by (simp add: is_eligible_def)
      moreover have "limbs_le 6 lhs rhs \<longleftrightarrow> (unat output + 1) * (unat whole * 2 ^ 64) \<le> (2 ^ 256 - 1) * ?n"
        using limbs_le_value [of 6 lhs rhs] l r by simp
      moreover have "\<dots> \<longleftrightarrow> unat output + 1 \<le> (2 ^ 256 - 1) * ?n div (unat whole * 2 ^ 64)"
        using nz by (subst less_eq_div_iff_mult_less_eq) (simp_all add: unat_gt_0)
      ultimately show ?thesis using nz thr by (simp add: Suc_le_eq)
    qed
  qed
qed

end
