(* ===== verification/Evidence_Guest.thy ===== *)
theory Evidence_Guest
  imports Finality Chain_Spec Vrf_Threshold Merkle History
begin

text \<open>
  The evidence guest (\<open>prover-chunk/src/history.rs\<close>, \<open>evidence.rs\<close>, \<open>proposer.rs\<close>): which signed
  artifacts establish an offence, and the statement the runtime later admits. SHA-256, the borsh
  encodings hashed here and the block-proof verifier are the fields of \<open>evidence_externals\<close>.
\<close>

subsection \<open>Headers, proofs and bodies (consensus-types)\<close>

record header =
  hd_height :: u64
  hd_slot :: u64
  hd_parent_hash :: hash
  hd_proposer_index :: u32
  hd_vrf_proof :: bls_signature
  hd_state_root :: hash
  hd_transactions_root :: hash
  hd_votes_root :: hash
  hd_da_root :: hash
  hd_runtime_extra :: hash
  hd_receipts_root :: hash
  hd_gas_used :: u64
  hd_gas_limit :: u64
  hd_timestamp :: u64
  hd_signature :: bls_signature

record block_proof_public_inputs =
  pi_chain_id :: u64
  pi_height :: u64
  pi_parent_block_hash :: hash
  pi_block_hash :: hash
  pi_state_root_before :: hash
  pi_state_root_after :: hash
  pi_transactions_root :: hash
  pi_receipt_root :: hash
  pi_da_root :: hash
  pi_vm_code_hash :: hash
  pi_block_program :: vk_digest
  pi_gas_used :: u64
  pi_gas_limit :: u64
  pi_proposer_address :: hash
  pi_runtime_extra :: hash

record block_proof =
  bpr_height :: u64
  bpr_block_hash :: hash
  bpr_public_inputs :: block_proof_public_inputs
  bpr_proof_bytes :: bytes

record evidence_batch =
  eb_fact_guest_vk_digest :: vk_digest
  eb_count :: u32
  eb_root :: hash

record evidence_membership =
  em_batch :: evidence_batch
  em_opening :: merkle_opening

record evidence_artifact =
  art_membership :: evidence_membership
  art_evidence_guest_vk_digest :: vk_digest
  art_statement :: evidence_statement
  art_proof_bytes :: bytes

record program_piece =
  pp_root :: hash
  pp_total_len :: u32
  pp_offset :: u32
  pp_bytes :: bytes
  pp_opening :: merkle_opening

record body =
  bd_transactions :: "bytes list"
  bd_finality_votes :: "finality_vote list"
  bd_evidence_proofs :: "evidence_artifact list"
  bd_programs :: "program_piece list"

record da_fraud_proof =
  df_publication_signature :: bls_signature
  df_expected_da_root :: hash
  df_computed_da_root :: hash
  df_bundle_hash :: hash
  df_offending_bundle :: bytes

datatype vrf_rejection_reason = BadSignature | WrongDomain | WrongFinalizedSeed | WrongSlot | ThresholdNotMet

datatype proof_rejection_reason = MalformedProof | PublicInputsMismatch | VerifierRejected

datatype slashing_evidence =
    DoubleBftProposal u32 bft_proposal bft_proposal
  | ConflictingNilVote u32 indexed_vote indexed_nil_vote
  | DoubleProposal u32 header header
  | InvalidVrfClaim u32 header vrf_rejection_reason
  | DoublePrevote u32 indexed_vote indexed_vote
  | DoublePrecommit u32 indexed_vote indexed_vote
  | LockViolation u32 indexed_vote indexed_vote lock_evidence
  | InvalidProofSigning u32 indexed_vote vote_attestation block_proof proof_rejection_reason
  | LongRangeForkParticipation u32 indexed_vote indexed_vote
  | DaCommitmentFraud u32 header da_fraud_proof

fun offender_index :: "slashing_evidence \<Rightarrow> u32" where
  "offender_index (DoubleBftProposal i _ _) = i"
| "offender_index (ConflictingNilVote i _ _) = i"
| "offender_index (DoubleProposal i _ _) = i"
| "offender_index (InvalidVrfClaim i _ _) = i"
| "offender_index (DoublePrevote i _ _) = i"
| "offender_index (DoublePrecommit i _ _) = i"
| "offender_index (LockViolation i _ _ _) = i"
| "offender_index (InvalidProofSigning i _ _ _ _) = i"
| "offender_index (LongRangeForkParticipation i _ _) = i"
| "offender_index (DaCommitmentFraud i _ _) = i"

datatype evidence_claim = SlashClaim slashing_evidence | InactivityClaim u32 finality_cert

datatype history_error = HeAnchor | HeEvidence | HeTransaction | HeProgram | HeUnsupported

record historical_chunk =
  hc_chunk :: chunk
  hc_validators :: "consensus_validator list"
  hc_seed :: hash
  hc_block_guest_vk_digest :: vk_digest
  hc_runtime_code_hash :: hash
  hc_finality :: finality_cert

text \<open>\<open>header_payload_bytes\<close> encodes every field of a header but its signature.\<close>

record evidence_externals =
  ev_bft :: bft_externals
  sha256 :: "bytes \<Rightarrow> hash"
  header_payload_bytes :: "header \<Rightarrow> bytes"
  block_proof_bytes :: "block_proof \<Rightarrow> bytes"
  finality_vote_bytes :: "finality_vote \<Rightarrow> bytes"
  transaction_blob_bytes :: "bytes \<Rightarrow> bytes"
  program_piece_bytes :: "program_piece \<Rightarrow> bytes"
  body_decode :: "bytes \<Rightarrow> body option"
  claim_bytes :: "evidence_claim \<Rightarrow> bytes"
  penalty_bytes :: "u8 \<times> bls_public_key \<times> hash \<times> u64 \<times> u32 \<Rightarrow> bytes"
  chain_spec_bytes :: "chain_spec \<Rightarrow> bytes"
  statement_bytes :: "evidence_statement \<Rightarrow> bytes"
  rejects_block :: "block_proof \<Rightarrow> vk_digest \<Rightarrow> history_error + bool"

abbreviation ev_blake3 :: "evidence_externals \<Rightarrow> bytes \<Rightarrow> hash" where
  "ev_blake3 Y \<equiv> bx_blake3 (ev_bft Y)"

subsection \<open>Proposers (proposer.rs, vrf)\<close>

datatype proposer_error = PeValidator | PeSignature | PeVrf | PeIneligible

definition DOMAIN_VRF :: bytes where "DOMAIN_VRF = ascii ''NEUTRINO_VRF____''"
definition DOMAIN_PROPOSER_SIG :: bytes where "DOMAIN_PROPOSER_SIG = ascii ''NEUTRINO_PROPOSE''"
definition DOMAIN_DA_PUBLICATION :: bytes where "DOMAIN_DA_PUBLICATION = ascii ''NEUTRINO_DA_PUB_''"

definition header_hash :: "evidence_externals \<Rightarrow> header \<Rightarrow> hash" where
  "header_hash Y h = ev_blake3 Y (header_payload_bytes Y h)"

definition vrf_message :: "consensus_domain \<Rightarrow> hash \<Rightarrow> u64 \<Rightarrow> bytes" where
  "vrf_message d seed slot = signing_message d DOMAIN_VRF (be_bytes 32 seed @ le_bytes 8 slot)"

definition fold_seed :: "evidence_externals \<Rightarrow> hash \<Rightarrow> bls_signature list \<Rightarrow> hash" where
  "fold_seed Y prev_seed proofs = sha256 Y (be_bytes 32 prev_seed @ concat (map (be_bytes 96) proofs))"

definition verify_header_signature ::
  "evidence_externals \<Rightarrow> header \<Rightarrow> hash \<Rightarrow> consensus_domain \<Rightarrow> consensus_validator list \<Rightarrow> proposer_error + unit" where
  "verify_header_signature Y h hsh d vs =
     (case nth_opt vs (unat (hd_proposer_index h)) of
        None \<Rightarrow> Inl PeValidator
      | Some v \<Rightarrow>
          if \<not> is_active v then Inl PeValidator
          else require (bls_verify (ev_bft Y) (cv_pubkey v) (signing_message d DOMAIN_PROPOSER_SIG (be_bytes 32 hsh))
            (hd_signature h)) PeSignature)"

text \<open>\<open>None\<close> of the threshold check, a panic, is excluded by its exactness and read as ineligible.\<close>

definition verify_proposer ::
  "evidence_externals \<Rightarrow> header \<Rightarrow> hash \<Rightarrow> consensus_domain \<Rightarrow> consensus_validator list \<Rightarrow> hash \<Rightarrow> u128 \<Rightarrow> proposer_error + unit" where
  "verify_proposer Y h hsh d vs seed expected =
     res_bind (verify_header_signature Y h hsh d vs) (\<lambda>_.
     (case nth_opt vs (unat (hd_proposer_index h)) of
        None \<Rightarrow> Inl PeValidator
      | Some v \<Rightarrow>
          if \<not> is_active v then Inl PeValidator
          else res_bind (ok_or (active_stake_total vs) PeValidator) (\<lambda>whole.
            if \<not> bls_verify (ev_bft Y) (cv_pubkey v) (vrf_message d seed (hd_slot h)) (hd_vrf_proof h) then Inl PeVrf
            else require (is_eligible (sha256 Y (be_bytes 96 (hd_vrf_proof h))) (cv_effective_stake v) whole expected = Some True)
              PeIneligible)))"

subsection \<open>Data availability fraud and proof acceptance (slashing.rs, consensus.rs)\<close>

definition lane_root :: "evidence_externals \<Rightarrow> ('a \<Rightarrow> bytes) \<Rightarrow> 'a list \<Rightarrow> u32 \<times> hash" where
  "lane_root Y encode lane =
     (of_nat (length lane), merkle_root_from_hashes (bx_base (ev_bft Y)) (map (\<lambda>x. ev_blake3 Y (encode x)) lane))"

definition body_da_root :: "evidence_externals \<Rightarrow> body \<Rightarrow> hash" where
  "body_da_root Y b =
     da_root_from_lane_roots (bx_base (ev_bft Y)) (lane_root Y (transaction_blob_bytes Y) (bd_transactions b))
       (lane_root Y (finality_vote_bytes Y) (bd_finality_votes b))
       (lane_root Y (program_piece_bytes Y) (bd_programs b))"

definition da_publication_message :: "consensus_domain \<Rightarrow> hash \<Rightarrow> hash \<Rightarrow> bytes" where
  "da_publication_message d hsh bundle_hash =
     signing_message d DOMAIN_DA_PUBLICATION (be_bytes 32 hsh @ be_bytes 32 bundle_hash)"

definition verify_da_fraud ::
  "evidence_externals \<Rightarrow> consensus_domain \<Rightarrow> consensus_validator list \<Rightarrow> header \<Rightarrow> da_fraud_proof \<Rightarrow> evidence_error + unit" where
  "verify_da_fraud Y d vs h fraud =
     res_bind (map_err (\<lambda>_. EvSignature) (verify_header_signature Y h (header_hash Y h) d vs)) (\<lambda>_.
     res_bind (ok_or (nth_opt vs (unat (hd_proposer_index h))) EvBinding) (\<lambda>v.
     let hsh = ev_blake3 Y (df_offending_bundle fraud) in
     if hsh \<noteq> df_bundle_hash fraud \<or> df_expected_da_root fraud \<noteq> hd_da_root h then Inl EvBinding
     else if \<not> bls_verify (ev_bft Y) (cv_pubkey v) (da_publication_message d (header_hash Y h) hsh) (df_publication_signature fraud)
     then Inl EvSignature
     else res_bind (ok_or (body_decode Y (df_offending_bundle fraud)) EvBinding) (\<lambda>b.
       let actual = body_da_root Y b in
       if actual \<noteq> df_computed_da_root fraud \<or> actual = hd_da_root h then Inl EvBinding else Inr ())))"

definition verify_proof_acceptance ::
  "evidence_externals \<Rightarrow> vote_attestation \<Rightarrow> block_proof \<Rightarrow> u64 \<Rightarrow> evidence_error + unit" where
  "verify_proof_acceptance Y att proof chunk_size =
     (case Option.bind (checked_mul (fd_chunk_id (va_vote att)) chunk_size)
             (\<lambda>start. Option.bind (checked_sub (bpr_height proof) start) (\<lambda>position. checked_sub position 1)) of
        None \<Rightarrow> Inl EvBinding
      | Some offset \<Rightarrow>
          if fd_phase (va_vote att) \<noteq> Precommit \<or> chunk_size = 0
             \<or> unat chunk_size \<noteq> length (va_proof_hashes att)
             \<or> nth_opt (va_proof_hashes att) (unat offset) \<noteq> Some (ev_blake3 Y (block_proof_bytes Y proof))
          then Inl EvBinding else Inr ())"

subsection \<open>Offences (history.rs)\<close>

definition PENALTY_DOUBLE_PROPOSAL :: u8 where "PENALTY_DOUBLE_PROPOSAL = 0"
definition PENALTY_INVALID_VRF :: u8 where "PENALTY_INVALID_VRF = 1"
definition PENALTY_PREVOTE_EQUIVOCATION :: u8 where "PENALTY_PREVOTE_EQUIVOCATION = 2"
definition PENALTY_PRECOMMIT_EQUIVOCATION :: u8 where "PENALTY_PRECOMMIT_EQUIVOCATION = 3"
definition PENALTY_LOCK_VIOLATION :: u8 where "PENALTY_LOCK_VIOLATION = 4"
definition PENALTY_INVALID_PROOF_SIGNING :: u8 where "PENALTY_INVALID_PROOF_SIGNING = 5"
definition PENALTY_DA_COMMITMENT_FRAUD :: u8 where "PENALTY_DA_COMMITMENT_FRAUD = 6"
definition PENALTY_INACTIVITY :: u8 where "PENALTY_INACTIVITY = 7"
definition PENALTY_DOUBLE_BFT_PROPOSAL :: u8 where "PENALTY_DOUBLE_BFT_PROPOSAL = 8"

definition vote_kind :: "finality_vote_phase \<Rightarrow> u8" where
  "vote_kind phase = (case phase of Prevote \<Rightarrow> PENALTY_PREVOTE_EQUIVOCATION | Precommit \<Rightarrow> PENALTY_PRECOMMIT_EQUIVOCATION)"

definition penalty_id :: "evidence_externals \<Rightarrow> u8 \<Rightarrow> consensus_validator \<Rightarrow> u64 \<Rightarrow> u32 \<Rightarrow> hash" where
  "penalty_id Y kind v scope round =
     ev_blake3 Y (penalty_bytes Y (kind, cv_pubkey v, cv_withdrawal_credentials v, scope, round))"

definition evidence_context_of :: "evidence_externals \<Rightarrow> historical_chunk \<Rightarrow> evidence_context" where
  "evidence_context_of Y hc =
     \<lparr>ec_chunk_id = ch_chunk_id (hc_chunk hc), ec_chunk_hash = chunk_hash (ev_bft Y) (hc_chunk hc),
      ec_end_height = ch_end_height (hc_chunk hc),
      ec_validators_root = validators_commitment (ev_bft Y) (hc_validators hc), ec_seed = hc_seed hc,
      ec_source_block_guest_vk_digest = hc_block_guest_vk_digest hc,
      ec_source_runtime_code_hash = hc_runtime_code_hash hc\<rparr>"

definition active_validator :: "consensus_validator list \<Rightarrow> u32 \<Rightarrow> history_error + consensus_validator" where
  "active_validator vs index =
     (case nth_opt vs (unat index) of
        None \<Rightarrow> Inl HeEvidence
      | Some v \<Rightarrow> if is_active v then Inr v else Inl HeEvidence)"

definition record_at :: "historical_chunk \<Rightarrow> u64 \<Rightarrow> history_error + historical_chunk" where
  "record_at source chunk_id = (if ch_chunk_id (hc_chunk source) = chunk_id then Inr source else Inl HeAnchor)"

definition chunk_for_height :: "u64 \<Rightarrow> u64 \<Rightarrow> history_error + u64" where
  "chunk_for_height chunk_size height =
     (case checked_sub height 1 of
        None \<Rightarrow> Inl HeEvidence
      | Some h \<Rightarrow> if chunk_size = 0 then Inl HeEvidence else Inr (h div chunk_size))"

definition authorize_double_vote ::
  "evidence_externals \<Rightarrow> consensus_domain \<Rightarrow> historical_chunk \<Rightarrow> finality_vote_phase \<Rightarrow> u32 \<Rightarrow> indexed_vote \<Rightarrow> indexed_vote
     \<Rightarrow> history_error + consensus_validator \<times> hash" where
  "authorize_double_vote Y d source phase index a b =
     (if fd_phase (iv_data a) \<noteq> phase \<or> fd_phase (iv_data b) \<noteq> phase
         \<or> fd_chunk_id (iv_data a) \<noteq> fd_chunk_id (iv_data b)
         \<or> fd_round (iv_data a) \<noteq> fd_round (iv_data b)
         \<or> fd_chunk_hash (iv_data a) = fd_chunk_hash (iv_data b)
      then Inl HeEvidence
      else res_bind (record_at source (fd_chunk_id (iv_data a))) (\<lambda>record.
        res_bind (active_validator (hc_validators record) index) (\<lambda>v.
        res_bind (map_err (\<lambda>_. HeEvidence) (verify_indexed_vote (ev_bft Y) d (hc_validators record) index a)) (\<lambda>_.
        res_bind (map_err (\<lambda>_. HeEvidence) (verify_indexed_vote (ev_bft Y) d (hc_validators record) index b)) (\<lambda>_.
        Inr (v, penalty_id Y (vote_kind phase) v (fd_chunk_id (iv_data a)) (fd_round (iv_data a))))))))"

fun authorize_evidence ::
  "evidence_externals \<Rightarrow> consensus_params \<Rightarrow> consensus_domain \<Rightarrow> historical_chunk \<Rightarrow> slashing_evidence \<Rightarrow> vk_digest
     \<Rightarrow> history_error + consensus_validator \<times> hash" where
  "authorize_evidence Y params d source (DoubleBftProposal index a b) block_key =
     res_bind (record_at source (ch_chunk_id (bp_chunk a))) (\<lambda>record.
     res_bind (active_validator (hc_validators record) index) (\<lambda>v.
     res_bind (map_err (\<lambda>_. HeEvidence) (verify_double_bft_proposal (ev_bft Y) d (hc_validators record) index a b)) (\<lambda>_.
     Inr (v, penalty_id Y PENALTY_DOUBLE_BFT_PROPOSAL v (ch_chunk_id (hc_chunk record)) (bp_round a)))))"
| "authorize_evidence Y params d source (ConflictingNilVote index vote nil) block_key =
     res_bind (record_at source (fd_chunk_id (iv_data vote))) (\<lambda>record.
     res_bind (active_validator (hc_validators record) index) (\<lambda>v.
     res_bind (map_err (\<lambda>_. HeEvidence) (verify_conflicting_nil_vote (ev_bft Y) d (hc_validators record) index vote nil)) (\<lambda>_.
     Inr (v, penalty_id Y (vote_kind (fd_phase (iv_data vote))) v (fd_chunk_id (iv_data vote)) (fd_round (iv_data vote))))))"
| "authorize_evidence Y params d source (DoubleProposal index a b) block_key =
     res_bind (chunk_for_height (cp_chunk_size params) (hd_height a)) (\<lambda>chunk_id.
     res_bind (chunk_for_height (cp_chunk_size params) (hd_height b)) (\<lambda>other.
     if other \<noteq> chunk_id \<or> hd_proposer_index a \<noteq> index \<or> hd_proposer_index b \<noteq> index
        \<or> hd_slot a \<noteq> hd_slot b \<or> header_hash Y a = header_hash Y b
     then Inl HeEvidence
     else res_bind (record_at source chunk_id) (\<lambda>record.
       res_bind (active_validator (hc_validators record) index) (\<lambda>v.
       res_bind (map_err (\<lambda>_. HeEvidence) (verify_header_signature Y a (header_hash Y a) d (hc_validators record))) (\<lambda>_.
       res_bind (map_err (\<lambda>_. HeEvidence) (verify_header_signature Y b (header_hash Y b) d (hc_validators record))) (\<lambda>_.
       Inr (v, penalty_id Y PENALTY_DOUBLE_PROPOSAL v (hd_slot a) 0)))))))"
| "authorize_evidence Y params d source (InvalidVrfClaim index h reason) block_key =
     res_bind (chunk_for_height (cp_chunk_size params) (hd_height h)) (\<lambda>chunk_id.
     res_bind (record_at source chunk_id) (\<lambda>record.
     res_bind (active_validator (hc_validators record) index) (\<lambda>v.
     if hd_proposer_index h \<noteq> index then Inl HeEvidence
     else res_bind (map_err (\<lambda>_. HeEvidence) (verify_header_signature Y h (header_hash Y h) d (hc_validators record))) (\<lambda>_.
       let actual = verify_proposer Y h (header_hash Y h) d (hc_validators record) (hc_seed record)
             (cp_expected_proposers_per_slot params)
       in if \<not> (actual = Inl PeVrf \<and> reason = BadSignature \<or> actual = Inl PeIneligible \<and> reason = ThresholdNotMet)
          then Inl HeEvidence
          else Inr (v, penalty_id Y PENALTY_INVALID_VRF v (hd_slot h) 0)))))"
| "authorize_evidence Y params d source (DoublePrevote index a b) block_key =
     authorize_double_vote Y d source Prevote index a b"
| "authorize_evidence Y params d source (DoublePrecommit index a b) block_key =
     authorize_double_vote Y d source Precommit index a b"
| "authorize_evidence Y params d source (LockViolation index a b lock) block_key =
     res_bind (record_at source (fd_chunk_id (iv_data a))) (\<lambda>record.
     res_bind (active_validator (hc_validators record) index) (\<lambda>v.
     res_bind (map_err (\<lambda>_. HeEvidence)
       (verify_lock_violation (ev_bft Y) d (hc_validators record) index a b lock (prevote_fraction params))) (\<lambda>_.
     Inr (v, penalty_id Y PENALTY_LOCK_VIOLATION v (fd_chunk_id (iv_data b)) (fd_round (iv_data b))))))"
| "authorize_evidence Y params d source (InvalidProofSigning index vote att proof reason) block_key =
     res_bind (record_at source (fd_chunk_id (iv_data vote))) (\<lambda>record.
     res_bind (active_validator (hc_validators record) index) (\<lambda>v.
     res_bind (map_err (\<lambda>_. HeEvidence) (verify_indexed_vote (ev_bft Y) d (hc_validators record) index vote)) (\<lambda>_.
     res_bind (map_err (\<lambda>_. HeEvidence) (verify_attestation (ev_bft Y) d (hc_validators record) index (iv_data vote) att)) (\<lambda>_.
     res_bind (map_err (\<lambda>_. HeEvidence) (verify_proof_acceptance Y att proof (cp_chunk_size params))) (\<lambda>_.
     res_bind (rejects_block Y proof block_key) (\<lambda>rejected.
     if \<not> rejected then Inl HeEvidence
     else Inr (v, penalty_id Y PENALTY_INVALID_PROOF_SIGNING v (bpr_height proof) 0)))))))"
| "authorize_evidence Y params d source (LongRangeForkParticipation index vote canonical) block_key =
     res_bind (record_at source (fd_chunk_id (iv_data vote))) (\<lambda>record.
     if fd_chunk_hash (iv_data canonical) \<noteq> chunk_hash (ev_bft Y) (hc_chunk record)
        \<or> fd_chunk_id (iv_data canonical) \<noteq> fd_chunk_id (iv_data vote)
        \<or> fd_round (iv_data canonical) \<noteq> fd_round (iv_data vote)
        \<or> fd_phase (iv_data canonical) \<noteq> fd_phase (iv_data vote)
        \<or> fd_chunk_hash (iv_data vote) = fd_chunk_hash (iv_data canonical)
     then Inl HeEvidence
     else res_bind (active_validator (hc_validators record) index) (\<lambda>v.
       res_bind (map_err (\<lambda>_. HeEvidence) (verify_indexed_vote (ev_bft Y) d (hc_validators record) index vote)) (\<lambda>_.
       res_bind (map_err (\<lambda>_. HeEvidence) (verify_indexed_vote (ev_bft Y) d (hc_validators record) index canonical)) (\<lambda>_.
       Inr (v, penalty_id Y (vote_kind (fd_phase (iv_data vote))) v (fd_chunk_id (iv_data vote)) (fd_round (iv_data vote)))))))"
| "authorize_evidence Y params d source (DaCommitmentFraud index h fraud) block_key =
     res_bind (chunk_for_height (cp_chunk_size params) (hd_height h)) (\<lambda>chunk_id.
     res_bind (record_at source chunk_id) (\<lambda>record.
     res_bind (active_validator (hc_validators record) index) (\<lambda>v.
     if hd_proposer_index h \<noteq> index then Inl HeEvidence
     else res_bind (map_err (\<lambda>_. HeEvidence) (verify_da_fraud Y d (hc_validators record) h fraud)) (\<lambda>_.
       Inr (v, penalty_id Y PENALTY_DA_COMMITMENT_FRAUD v (hd_slot h) 0)))))"

subsection \<open>Statements (evidence.rs)\<close>

record evidence_witness =
  ew_chain_spec :: chain_spec
  ew_source :: historical_chunk
  ew_claim :: evidence_claim
  ew_block_guest_vk_digest :: vk_digest
  ew_reporter :: "address option"

definition authorize_claim ::
  "evidence_externals \<Rightarrow> consensus_params \<Rightarrow> consensus_domain \<Rightarrow> historical_chunk \<Rightarrow> evidence_claim
     \<Rightarrow> history_error + consensus_validator \<times> hash \<times> sanction_kind" where
  "authorize_claim Y params d source claim =
     (case claim of
        SlashClaim evidence \<Rightarrow>
          res_bind (authorize_evidence Y params d source evidence (hc_block_guest_vk_digest source)) (\<lambda>(v, oid).
          Inr (v, oid, Slash))
      | InactivityClaim index cert \<Rightarrow>
          res_bind (map_err (\<lambda>_. HeEvidence)
            (verify_finality_with_root (ev_bft Y) d params (hc_validators source)
              (validators_commitment (ev_bft Y) (hc_validators source)) (hc_chunk source) cert)) (\<lambda>_.
          res_bind (active_validator (hc_validators source) index) (\<lambda>v.
          if bitvec_get (av_bits (fc_precommit cert)) index \<noteq> Some False then Inl HeEvidence
          else Inr (v, penalty_id Y PENALTY_INACTIVITY v (ch_chunk_id (hc_chunk source)) 0, Inactivity))))"

definition validate_evidence :: "evidence_externals \<Rightarrow> evidence_witness \<Rightarrow> history_error + evidence_statement" where
  "validate_evidence Y input =
     (let spec = ew_chain_spec input; source = ew_source input; params = cs_consensus spec;
          context = evidence_context_of Y source; d = spec_consensus_domain (ev_bft Y) (chain_spec_bytes Y) spec in
      res_bind (map_err (\<lambda>_. HeAnchor) (chain_spec_validate (ev_bft Y) spec)) (\<lambda>_.
      if ch_active_validator_set_root (hc_chunk source) \<noteq> ec_validators_root context
         \<or> Option.bind (checked_add (ch_chunk_id (hc_chunk source)) 1) (\<lambda>n. checked_mul n (cp_chunk_size params))
             \<noteq> Some (ch_end_height (hc_chunk source))
      then Inl HeAnchor
      else res_bind (authorize_claim Y params d source (ew_claim input)) (\<lambda>(offender, oid, kind).
        Inr \<lparr>es_chain_id = cs_chain_id spec, es_chain_spec_hash = cd_chain_spec_hash d,
             es_block_guest_vk_digest = ew_block_guest_vk_digest input, es_context = context,
             es_offender = offender, es_kind = kind, es_offence_id = oid,
             es_facts_commitment = ev_blake3 Y (claim_bytes Y (ew_claim input)), es_reporter = ew_reporter input\<rparr>)))"

subsection \<open>Batches (consensus-types/evidence.rs)\<close>

definition MAX_EVIDENCE_BATCH :: nat where "MAX_EVIDENCE_BATCH = 16"

definition statement_leaf :: "evidence_externals \<Rightarrow> evidence_statement \<Rightarrow> hash" where
  "statement_leaf Y st = ev_blake3 Y (statement_bytes Y st)"

definition evidence_batch_new :: "evidence_externals \<Rightarrow> evidence_statement list \<Rightarrow> vk_digest \<Rightarrow> evidence_batch option" where
  "evidence_batch_new Y statements fact_key =
     (if statements = [] \<or> length statements > MAX_EVIDENCE_BATCH then None
      else if \<not> distinct (map es_offence_id statements) then None
      else Some \<lparr>eb_fact_guest_vk_digest = fact_key, eb_count = of_nat (length statements),
             eb_root = merkle_root_from_hashes (bx_base (ev_bft Y)) (map (statement_leaf Y) statements)\<rparr>)"

definition evidence_membership_build ::
  "evidence_externals \<Rightarrow> evidence_statement list \<Rightarrow> nat \<Rightarrow> vk_digest \<Rightarrow> evidence_membership option" where
  "evidence_membership_build Y statements index fact_key =
     Option.bind (evidence_batch_new Y statements fact_key) (\<lambda>batch.
     Option.bind (opening_build (bx_base (ev_bft Y)) (map (statement_leaf Y) statements) index) (\<lambda>opening.
     Some \<lparr>em_batch = batch, em_opening = opening\<rparr>))"

definition evidence_membership_binds ::
  "evidence_externals \<Rightarrow> (bytes \<times> u64 \<times> hash \<Rightarrow> bytes) \<Rightarrow> evidence_membership \<Rightarrow> evidence_statement \<Rightarrow> vk_digest \<Rightarrow> bool" where
  "evidence_membership_binds Y menc m st fact_key \<longleftrightarrow>
     eb_fact_guest_vk_digest (em_batch m) = fact_key
     \<and> eb_count (em_batch m) > 0
     \<and> unat (eb_count (em_batch m)) \<le> MAX_EVIDENCE_BATCH
     \<and> mo_count (em_opening m) = ucast (eb_count (em_batch m))
     \<and> opening_verify (bx_base (ev_bft Y)) menc (em_opening m) (statement_leaf Y st)
         (counted_merkle_root (bx_base (ev_bft Y)) menc (mo_count (em_opening m)) (eb_root (em_batch m)))"

end
