(* ===== verification/Accountable_Safety.thy ===== *)
theory Accountable_Safety
  imports Quorums Evidence_Guest
begin

text \<open>
  Accountable safety of chunk finality: what a verified certificate contains, and that two verified
  certificates for different candidates of one chunk expose a third of the stake to the evidence
  rules of the guest.
\<close>

subsection \<open>Contents of a verified certificate\<close>

definition cert_aggregate :: "finality_cert \<Rightarrow> finality_vote_phase \<Rightarrow> aggregated_vote" where
  "cert_aggregate c phase = (case phase of Prevote \<Rightarrow> fc_prevote c | Precommit \<Rightarrow> fc_precommit c)"

definition cert_claims :: "finality_cert \<Rightarrow> finality_vote_phase \<Rightarrow> vote_attestation list" where
  "cert_claims c phase = (case phase of Prevote \<Rightarrow> fc_prevote_attestations c | Precommit \<Rightarrow> fc_precommit_attestations c)"

definition phase_fraction :: "consensus_params \<Rightarrow> finality_vote_phase \<Rightarrow> fraction" where
  "phase_fraction p phase = (case phase of Prevote \<Rightarrow> prevote_fraction p | Precommit \<Rightarrow> precommit_fraction p)"

definition cert_signers :: "consensus_validator list \<Rightarrow> finality_cert \<Rightarrow> finality_vote_phase \<Rightarrow> nat set" where
  "cert_signers vs c phase = signer_set vs (av_bits (cert_aggregate c phase))"

definition prevote_quorum_of :: "finality_cert \<Rightarrow> quorum_certificate" where
  "prevote_quorum_of c = \<lparr>qc_data = cert_vote_data c Prevote, qc_aggregate = fc_prevote c\<rparr>"

lemma claim_signatures_iff:
  "claim_signatures_loop X d vs data message claims = Inr () \<longleftrightarrow>
     (\<forall>c \<in> set claims. verify_attestation_with X d vs (va_validator_index c) data message c = Inr ())"
  by (induction claims) (auto simp: res_bind_Inr_iff)

lemma verify_cert_phase_Inr:
  "verify_cert_phase X d vs params whole cert phase cache = Inr cache' \<Longrightarrow>
     attestation_coverage_valid (cert_vote_data cert phase) (av_bits (cert_aggregate cert phase)) (cert_claims cert phase)
       (cp_chunk_size params)
     \<and> claim_signatures_loop X d vs (cert_vote_data cert phase) (vote_message X d (cert_vote_data cert phase))
         (cert_claims cert phase) = Inr ()
     \<and> verify_phase_with X vs (cert_aggregate cert phase) (vote_message X d (cert_vote_data cert phase)) whole
         (phase_fraction params phase) = Inr ()"
  by (cases phase)
    (auto simp: verify_cert_phase_def cert_aggregate_def cert_claims_def phase_fraction_def Let_def res_bind_Inr_iff
      split: if_splits)

lemma verified_cert:
  assumes "verify_finality X d params vs chunk cert = Inr ()"
  shows "fc_chunk_id cert = ch_chunk_id chunk" and "fc_chunk_hash cert = chunk_hash X chunk"
    and "attestation_coverage_valid (cert_vote_data cert phase) (av_bits (cert_aggregate cert phase))
      (cert_claims cert phase) (cp_chunk_size params)"
    and "c \<in> set (cert_claims cert phase) \<Longrightarrow>
      verify_attestation X d vs (va_validator_index c) (cert_vote_data cert phase) c = Inr ()"
    and "\<exists>whole. active_stake_total vs = Some whole
      \<and> verify_phase_with X vs (cert_aggregate cert phase) (vote_message X d (cert_vote_data cert phase)) whole
          (phase_fraction params phase) = Inr ()"
proof -
  obtain cache whole cache' cache'' where ids: "fc_chunk_id cert = ch_chunk_id chunk" "fc_chunk_hash cert = chunk_hash X chunk"
    and whole: "active_stake_total vs = Some whole"
    and pre: "verify_cert_phase X d vs params whole cert Prevote cache = Inr cache'"
    and com: "verify_cert_phase X d vs params whole cert Precommit cache' = Inr cache''"
    using assms by (auto simp: verify_finality_def verify_finality_with_root_def res_bind_Inr_iff split: if_splits)
  note facts = verify_cert_phase_Inr [OF pre] verify_cert_phase_Inr [OF com]
  show "fc_chunk_id cert = ch_chunk_id chunk" "fc_chunk_hash cert = chunk_hash X chunk" by (fact ids)+
  show "attestation_coverage_valid (cert_vote_data cert phase) (av_bits (cert_aggregate cert phase))
      (cert_claims cert phase) (cp_chunk_size params)" using facts by (cases phase) blast+
  show "c \<in> set (cert_claims cert phase) \<Longrightarrow>
      verify_attestation X d vs (va_validator_index c) (cert_vote_data cert phase) c = Inr ()"
    using facts unfolding claim_signatures_iff verify_attestation_def by (cases phase) blast+
  show "\<exists>whole. active_stake_total vs = Some whole
      \<and> verify_phase_with X vs (cert_aggregate cert phase) (vote_message X d (cert_vote_data cert phase)) whole
          (phase_fraction params phase) = Inr ()"
    using facts whole by (cases phase) blast+
qed

lemma verified_cert_weight:
  assumes "verify_finality X d params vs chunk cert = Inr ()"
  shows "cert_signers vs cert phase \<subseteq> active_set vs"
    and "2 * weight_of vs (active_set vs) \<le> 3 * weight_of vs (cert_signers vs cert phase)"
    and "length vs \<le> 2 ^ 32"
  using verified_cert(5) [OF assms, of phase] reached_two_thirds
  unfolding verify_phase_iff cert_signers_def by blast+

lemma verified_cert_signer:
  assumes "verify_finality X d params vs chunk cert = Inr ()" and "i \<in> cert_signers vs cert phase"
  obtains c where "verify_attestation X d vs (of_nat i) (cert_vote_data cert phase) c = Inr ()"
    and "va_vote c = cert_vote_data cert phase"
proof -
  note len = verified_cert_weight(3) [OF assms(1)]
  obtain c where c: "c \<in> set (cert_claims cert phase)" "va_vote c = cert_vote_data cert phase" "unat (va_validator_index c) = i"
    by (rule covered_signer [OF verified_cert(3) [OF assms(1)] assms(2) [unfolded cert_signers_def] len])
  then have "va_validator_index c = of_nat i" by auto
  with verified_cert(4) [OF assms(1) c(1)] c(2) show thesis using that by metis
qed

lemma prevote_quorum_verified:
  assumes "verify_finality X d params vs chunk cert = Inr ()"
  shows "verify_quorum X d vs (prevote_quorum_of cert) (prevote_fraction params) = Inr ()"
  using verified_cert(5) [OF assms, of Prevote]
  by (auto simp: verify_phase_iff verify_quorum_iff prevote_quorum_of_def cert_aggregate_def cert_vote_data_def
      phase_fraction_def)

subsection \<open>Votes in evidence\<close>

lemma verify_attestation_iff:
  "verify_attestation X d vs index vote att = Inr () \<longleftrightarrow>
     va_validator_index att = index \<and> va_vote att = vote \<and> unat index < length vs
     \<and> bls_verify X (cv_pubkey (vs ! unat index)) (vote_message X d vote) (va_vote_signature att)
     \<and> bls_verify X (cv_pubkey (vs ! unat index)) (attestation_message X d att) (va_signature att)"
  by (auto simp: verify_attestation_def verify_attestation_with_def nth_opt_def)

lemma attested_vote_verified:
  assumes "verify_attestation X d vs index vote att = Inr ()"
  shows "verify_indexed_vote X d vs index (attested_vote att) = Inr ()" and "iv_data (attested_vote att) = vote"
  using assms by (simp_all add: verify_attestation_iff verify_indexed_vote_def attested_vote_def nth_opt_def)

lemma active_validator_at:
  assumes "i \<in> active_set vs" and "length vs \<le> 2 ^ 32"
  shows "active_validator vs (of_nat i) = Inr (vs ! i)"
proof -
  have "unat (of_nat i :: u32) = i" using assms by (simp add: active_set_def unat_of_nat)
  then show ?thesis using assms by (simp add: active_validator_def nth_opt_def active_set_def)
qed

lemma double_precommit_authorized:
  assumes "ch_chunk_id (hc_chunk source) = fd_chunk_id (iv_data a)" and "hc_validators source = vs"
    and "active_validator vs index = Inr v"
    and "verify_indexed_vote (ev_bft Y) d vs index a = Inr ()" and "verify_indexed_vote (ev_bft Y) d vs index b = Inr ()"
    and "fd_phase (iv_data a) = Precommit" and "fd_phase (iv_data b) = Precommit"
    and "fd_chunk_id (iv_data a) = fd_chunk_id (iv_data b)" and "fd_round (iv_data a) = fd_round (iv_data b)"
    and "fd_chunk_hash (iv_data a) \<noteq> fd_chunk_hash (iv_data b)"
  shows "\<exists>oid. authorize_evidence Y params d source (DoublePrecommit index a b) key = Inr (v, oid)"
  using assms by (simp add: authorize_double_vote_def record_at_def)

text \<open>A later vote by a signer of the locking precommit is an offence when no valid unlock exists.\<close>

lemma lock_violation_authorized:
  assumes "ch_chunk_id (hc_chunk source) = fd_chunk_id (iv_data a)" and "hc_validators source = vs"
    and "active_validator vs index = Inr v"
    and a: "verify_indexed_vote (ev_bft Y) d vs index a = Inr ()" "fd_phase (iv_data a) = Precommit"
    and att: "verify_attestation (ev_bft Y) d vs index later att = Inr ()"
    and order: "fd_chunk_id later = fd_chunk_id (iv_data a)" "fd_round (iv_data a) < fd_round later"
      "fd_chunk_hash (iv_data a) \<noteq> fd_chunk_hash later"
    and q: "verify_quorum (ev_bft Y) d vs q (prevote_fraction params) = Inr ()"
      "fd_chunk_id (qc_data q) = fd_chunk_id (iv_data a)" "fd_round (qc_data q) = fd_round (iv_data a)"
      "fd_chunk_hash (qc_data q) = fd_chunk_hash (iv_data a)"
    and no_unlock: "\<And>u. va_unlock_quorum att = Some u \<Longrightarrow> fd_round (qc_data u) > fd_round (iv_data a) \<Longrightarrow>
      verify_unlock (ev_bft Y) d vs later u (prevote_fraction params) \<noteq> Inr ()"
  shows "\<exists>oid. authorize_evidence Y params d source
    (LockViolation index a (attested_vote att) \<lparr>le_locked_prevote_quorum = q, le_attestation = att\<rparr>) key = Inr (v, oid)"
proof -
  note later = attested_vote_verified [OF att]
  have "verify_lock_violation (ev_bft Y) d vs index a (attested_vote att)
      \<lparr>le_locked_prevote_quorum = q, le_attestation = att\<rparr> (prevote_fraction params) = Inr ()"
    using a att order q no_unlock later
    by (auto simp: verify_lock_violation_def Let_def split: option.splits)
  then show ?thesis using assms(1-3) by (simp add: record_at_def)
qed

lemma verify_unlock_iff:
  "verify_unlock X d vs vote u frac = Inr () \<longleftrightarrow>
     fd_chunk_id (qc_data u) = fd_chunk_id vote \<and> fd_chunk_hash (qc_data u) = fd_chunk_hash vote
     \<and> (case fd_phase vote of Prevote \<Rightarrow> fd_round (qc_data u) < fd_round vote | Precommit \<Rightarrow> fd_round (qc_data u) \<le> fd_round vote)
     \<and> verify_quorum X d vs u frac = Inr ()"
  by (cases "fd_phase vote")
    (auto simp: verify_unlock_def verify_unlock_with_def verify_quorum_with_def verified_quorums_new_def res_bind_Inr_iff Let_def)

subsection \<open>The first conflicting quorum after a certificate\<close>

definition conflicting_quorum ::
  "bft_externals \<Rightarrow> consensus_domain \<Rightarrow> consensus_validator list \<Rightarrow> fraction \<Rightarrow> finality_cert \<Rightarrow> quorum_certificate \<Rightarrow> bool" where
  "conflicting_quorum X d vs frac cert q \<longleftrightarrow>
     verify_quorum X d vs q frac = Inr () \<and> fd_chunk_id (qc_data q) = fc_chunk_id cert
     \<and> fd_chunk_hash (qc_data q) \<noteq> fc_chunk_hash cert \<and> fd_round (qc_data q) > fc_round cert"

lemma first_conflicting_quorum:
  assumes "conflicting_quorum X d vs frac cert q0"
  obtains q where "conflicting_quorum X d vs frac cert q"
    and "\<And>u. conflicting_quorum X d vs frac cert u \<Longrightarrow> fd_round (qc_data q) \<le> fd_round (qc_data u)"
proof -
  define R where "R n \<longleftrightarrow> (\<exists>q. conflicting_quorum X d vs frac cert q \<and> unat (fd_round (qc_data q)) = n)" for n
  have "R (LEAST n. R n)" by (rule LeastI) (use assms in \<open>auto simp: R_def\<close>)
  then obtain q where q: "conflicting_quorum X d vs frac cert q" "unat (fd_round (qc_data q)) = (LEAST n. R n)"
    by (auto simp: R_def)
  have "fd_round (qc_data q) \<le> fd_round (qc_data u)" if "conflicting_quorum X d vs frac cert u" for u
    using q(2) that Least_le [of R "unat (fd_round (qc_data u))"] by (auto simp: R_def word_le_nat_alt)
  with q(1) show thesis by (rule that)
qed

text \<open>Whoever precommitted the certificate and signed the first conflicting quorum is exposed.\<close>

lemma exposed_by_first_conflict:
  assumes cert: "verify_finality (ev_bft Y) d params vs chunk cert = Inr ()"
    and q: "conflicting_quorum (ev_bft Y) d vs (prevote_fraction params) cert q"
    and first: "\<And>u. conflicting_quorum (ev_bft Y) d vs (prevote_fraction params) cert u \<Longrightarrow> fd_round (qc_data q) \<le> fd_round (qc_data u)"
    and source: "hc_validators source = vs" "ch_chunk_id (hc_chunk source) = fc_chunk_id cert"
    and i: "i \<in> cert_signers vs cert Precommit"
    and att: "verify_attestation (ev_bft Y) d vs (of_nat i) (qc_data q) att = Inr ()"
  shows "\<exists>a oid. authorize_evidence Y params d source
    (LockViolation (of_nat i) a (attested_vote att)
      \<lparr>le_locked_prevote_quorum = prevote_quorum_of cert, le_attestation = att\<rparr>) key = Inr (vs ! i, oid)"
proof -
  obtain c where c: "verify_attestation (ev_bft Y) d vs (of_nat i) (cert_vote_data cert Precommit) c = Inr ()"
    by (rule verified_cert_signer [OF cert i])
  note a = attested_vote_verified [OF c]
  have v: "active_validator vs (of_nat i) = Inr (vs ! i)"
    by (rule active_validator_at) (use verified_cert_weight [OF cert] i in blast)+
  have pre: "fd_phase (qc_data q) = Prevote" using q by (simp add: conflicting_quorum_def verify_quorum_iff)
  have "\<exists>oid. authorize_evidence Y params d source
      (LockViolation (of_nat i) (attested_vote c) (attested_vote att)
        \<lparr>le_locked_prevote_quorum = prevote_quorum_of cert, le_attestation = att\<rparr>) key = Inr (vs ! i, oid)"
  proof (rule lock_violation_authorized [OF _ source(1) v a(1) _ att])
    fix u :: quorum_certificate
    assume "fd_round (iv_data (attested_vote c)) < fd_round (qc_data u)"
    then have after: "fc_round cert < fd_round (qc_data u)" using a(2) by (simp add: cert_vote_data_def)
    show "verify_unlock (ev_bft Y) d vs (qc_data q) u (prevote_fraction params) \<noteq> Inr ()"
    proof
      assume "verify_unlock (ev_bft Y) d vs (qc_data q) u (prevote_fraction params) = Inr ()"
      then have "conflicting_quorum (ev_bft Y) d vs (prevote_fraction params) cert u"
        and "fd_round (qc_data u) < fd_round (qc_data q)"
        using q after pre by (simp_all add: verify_unlock_iff conflicting_quorum_def)
      then show False using first [of u] by simp
    qed
  qed (use a(2) source q prevote_quorum_verified [OF cert] in
      \<open>auto simp: cert_vote_data_def prevote_quorum_of_def conflicting_quorum_def\<close>)
  then show ?thesis by blast
qed

lemma conflict_exposes_third:
  assumes a: "verify_finality (ev_bft Y) d params vs chunk_a a = Inr ()"
    and b: "verify_finality (ev_bft Y) d params vs chunk_b b = Inr ()"
    and conflict: "fc_chunk_id a = fc_chunk_id b" "fc_chunk_hash a \<noteq> fc_chunk_hash b" "fc_round a < fc_round b"
    and source: "hc_validators source = vs" "ch_chunk_id (hc_chunk source) = fc_chunk_id a"
  shows "\<exists>q. conflicting_quorum (ev_bft Y) d vs (prevote_fraction params) a q \<and> fd_round (qc_data q) \<le> fc_round b
    \<and> weight_of vs (active_set vs) \<le> 3 * weight_of vs (cert_signers vs a Precommit \<inter> qc_signers vs q)
    \<and> (\<forall>i \<in> cert_signers vs a Precommit \<inter> qc_signers vs q. \<forall>att.
         verify_attestation (ev_bft Y) d vs (of_nat i) (qc_data q) att = Inr () \<longrightarrow>
         (\<exists>first oid. authorize_evidence Y params d source
           (LockViolation (of_nat i) first (attested_vote att)
             \<lparr>le_locked_prevote_quorum = prevote_quorum_of a, le_attestation = att\<rparr>) key = Inr (vs ! i, oid)))"
proof -
  have q0: "conflicting_quorum (ev_bft Y) d vs (prevote_fraction params) a (prevote_quorum_of b)"
    using prevote_quorum_verified [OF b] conflict
    by (auto simp: conflicting_quorum_def prevote_quorum_of_def cert_vote_data_def)
  obtain q where q: "conflicting_quorum (ev_bft Y) d vs (prevote_fraction params) a q"
    and first: "\<And>u. conflicting_quorum (ev_bft Y) d vs (prevote_fraction params) a u \<Longrightarrow> fd_round (qc_data q) \<le> fd_round (qc_data u)"
    by (rule first_conflicting_quorum [OF q0]) blast
  have ok: "verify_quorum (ev_bft Y) d vs q (prevote_fraction params) = Inr ()" using q by (simp add: conflicting_quorum_def)
  have "weight_of vs (active_set vs) \<le> 3 * weight_of vs (cert_signers vs a Precommit \<inter> qc_signers vs q)"
    by (rule quorum_intersection [OF verified_cert_weight(1) [OF a] verify_quorum_weight(1) [OF ok]
        verified_cert_weight(2) [OF a] verify_quorum_weight(2) [OF ok]])
  moreover have "fd_round (qc_data q) \<le> fc_round b"
    using first [OF q0] by (simp add: prevote_quorum_of_def cert_vote_data_def)
  ultimately show ?thesis using q exposed_by_first_conflict [OF a q first source] by blast
qed

lemma same_round_exposes_third:
  assumes a: "verify_finality (ev_bft Y) d params vs chunk_a a = Inr ()"
    and b: "verify_finality (ev_bft Y) d params vs chunk_b b = Inr ()"
    and conflict: "fc_chunk_id a = fc_chunk_id b" "fc_chunk_hash a \<noteq> fc_chunk_hash b" "fc_round a = fc_round b"
    and source: "hc_validators source = vs" "ch_chunk_id (hc_chunk source) = fc_chunk_id a"
  shows "weight_of vs (active_set vs) \<le> 3 * weight_of vs (cert_signers vs a Precommit \<inter> cert_signers vs b Precommit)
    \<and> (\<forall>i \<in> cert_signers vs a Precommit \<inter> cert_signers vs b Precommit. \<exists>u w oid.
         authorize_evidence Y params d source (DoublePrecommit (of_nat i) u w) key = Inr (vs ! i, oid))"
proof (intro conjI ballI)
  show "weight_of vs (active_set vs) \<le> 3 * weight_of vs (cert_signers vs a Precommit \<inter> cert_signers vs b Precommit)"
    by (rule quorum_intersection) (use verified_cert_weight [OF a] verified_cert_weight [OF b] in blast)+
next
  fix i
  assume i: "i \<in> cert_signers vs a Precommit \<inter> cert_signers vs b Precommit"
  obtain u where u: "verify_attestation (ev_bft Y) d vs (of_nat i) (cert_vote_data a Precommit) u = Inr ()"
    by (rule verified_cert_signer [OF a]) (use i in blast)
  obtain w where w: "verify_attestation (ev_bft Y) d vs (of_nat i) (cert_vote_data b Precommit) w = Inr ()"
    by (rule verified_cert_signer [OF b]) (use i in blast)
  have v: "active_validator vs (of_nat i) = Inr (vs ! i)"
    by (rule active_validator_at) (use verified_cert_weight [OF a] i in blast)+
  have "\<exists>oid. authorize_evidence Y params d source (DoublePrecommit (of_nat i) (attested_vote u) (attested_vote w)) key
      = Inr (vs ! i, oid)"
    by (rule double_precommit_authorized [OF _ source(1) v attested_vote_verified(1) [OF u] attested_vote_verified(1) [OF w]])
      (use attested_vote_verified(2) [OF u] attested_vote_verified(2) [OF w] conflict source in \<open>auto simp: cert_vote_data_def\<close>)
  then show "\<exists>u w oid. authorize_evidence Y params d source (DoublePrecommit (of_nat i) u w) key = Inr (vs ! i, oid)"
    by blast
qed

end
