(* ===== verification/Sample_Consensus.thy ===== *)
theory Sample_Consensus
  imports Accountable_Safety Codec_Instance
begin

text \<open>
  A concrete consensus instance for the witnesses: exact fixed-width encodings of votes, one
  validator holding the whole stake, and a signature scheme in which every signature verifies.
\<close>

definition phase_byte :: "finality_vote_phase \<Rightarrow> u8" where
  "phase_byte phase = (case phase of Prevote \<Rightarrow> 0 | Precommit \<Rightarrow> 1)"

definition sample_vote_bytes :: "finality_vote_data \<Rightarrow> bytes" where
  "sample_vote_bytes v =
     le_bytes 8 (fd_chunk_id v) @ le_bytes 4 (fd_round v) @ be_bytes 32 (fd_chunk_hash v) @ [phase_byte (fd_phase v)]"

definition sample_bft :: bft_externals where
  "sample_bft =
     \<lparr>bx_base = wire_externals, vote_data_bytes = sample_vote_bytes,
      attestation_bytes = (\<lambda>_. []), nil_data_bytes = (\<lambda>_. []), nil_attestation_bytes = (\<lambda>_. []),
      round_change_bytes = (\<lambda>_. []), proposal_bytes = (\<lambda>_. []),
      chunk_bytes = (\<lambda>c. le_bytes 32 (ch_da_root c)), validators_bytes = (\<lambda>_. []),
      key_decodes = (\<lambda>_. True), signature_decodes = (\<lambda>_. True), bls_verify = (\<lambda>_ _ _. True),
      bls_aggregate_verify = (\<lambda>_ _ _. True), bls_aggregate_signatures = (\<lambda>_. Some 0)\<rparr>"

definition sample_guest :: evidence_externals where
  "sample_guest =
     \<lparr>ev_bft = sample_bft, sha256 = blake3 wire_externals, header_payload_bytes = (\<lambda>_. []), block_proof_bytes = (\<lambda>_. []),
      finality_vote_bytes = (\<lambda>_. []), transaction_blob_bytes = id, program_piece_bytes = (\<lambda>_. []),
      body_decode = (\<lambda>_. None), claim_bytes = (\<lambda>_. []), penalty_bytes = (\<lambda>_. []), chain_spec_bytes = (\<lambda>_. []),
      statement_bytes = (\<lambda>_. []), rejects_block = (\<lambda>_ _. Inr False)\<rparr>"

definition sample_seat :: consensus_validator where
  "sample_seat =
     \<lparr>cv_pubkey = 7, cv_withdrawal_credentials = 0, cv_effective_stake = 5, cv_slashed = False,
      cv_activation_epoch = 0, cv_exit_epoch = 0, cv_last_active_chunk = 0\<rparr>"

definition sample_domain :: consensus_domain where
  "sample_domain = \<lparr>cd_chain_id = 1, cd_chain_spec_hash = 9\<rparr>"

definition sample_params :: consensus_params where
  "sample_params = default_consensus_params\<lparr>cp_chunk_size := 1\<rparr>"

definition sample_bits :: bit_vec where
  "sample_bits = \<lparr>bv_bit_len = 1, bv_bytes = [1]\<rparr>"

definition sample_chunk :: "hash \<Rightarrow> chunk" where
  "sample_chunk da =
     \<lparr>ch_chunk_id = 3, ch_start_height = 3, ch_end_height = 4, ch_start_state_root = 0, ch_end_state_root = 0,
      ch_start_block_hash = 0, ch_end_block_hash = 0, ch_block_hash_root = 0, ch_block_proof_root = 0,
      ch_vrf_proof_root = 0, ch_active_validator_set_root = 0, ch_next_validator_set_root = 0, ch_da_root = da\<rparr>"

definition sample_vote_data :: "hash \<Rightarrow> u32 \<Rightarrow> finality_vote_phase \<Rightarrow> finality_vote_data" where
  "sample_vote_data h r phase = \<lparr>fd_chunk_id = 3, fd_round = r, fd_chunk_hash = h, fd_phase = phase\<rparr>"

definition sample_claim :: "hash \<Rightarrow> u32 \<Rightarrow> finality_vote_phase \<Rightarrow> vote_attestation" where
  "sample_claim h r phase =
     \<lparr>va_vote_signature = 0, va_validator_index = 0, va_vote = sample_vote_data h r phase,
      va_proof_hashes = (case phase of Prevote \<Rightarrow> [] | Precommit \<Rightarrow> [0]), va_unlock_quorum = None, va_signature = 0\<rparr>"

definition signed_cert :: "bls_signature \<Rightarrow> hash \<Rightarrow> finality_cert" where
  "signed_cert sig da =
     \<lparr>fc_proposal =
        \<lparr>bp_chunk = sample_chunk da, bp_round = 0, bp_proposer_index = 0, bp_valid_quorum = None,
         bp_round_change_certificate = None, bp_signature = 0\<rparr>,
      fc_prevote_attestations = [sample_claim da 0 Prevote],
      fc_precommit_attestations = [sample_claim da 0 Precommit],
      fc_chunk_id = 3, fc_round = 0, fc_chunk_hash = da,
      fc_prevote = \<lparr>av_bits = sample_bits, av_signature = 0\<rparr>,
      fc_precommit = \<lparr>av_bits = sample_bits, av_signature = sig\<rparr>, fc_active_validator_set_root = 0\<rparr>"

abbreviation sample_cert :: "hash \<Rightarrow> finality_cert" where
  "sample_cert \<equiv> signed_cert 0"

definition sample_source :: historical_chunk where
  "sample_source =
     \<lparr>hc_chunk = sample_chunk 0, hc_validators = [sample_seat], hc_seed = 0, hc_block_guest_vk_digest = 0,
      hc_runtime_code_hash = 0, hc_finality = sample_cert 0\<rparr>"

lemmas sample_consensus_defs =
  sample_bft_def sample_seat_def sample_domain_def sample_params_def sample_bits_def sample_chunk_def
  sample_vote_data_def sample_claim_def signed_cert_def default_consensus_params_def wire_externals_def

lemma sample_signers: "signers [sample_seat] sample_bits = Some ([7], 5)"
  by (simp add: signers_def sample_seat_def sample_bits_def bitvec_get_def is_active_def)

lemma sample_total: "active_stake_total [sample_seat] = Some 5"
  by (simp add: active_stake_total_def sample_seat_def)

lemma sample_fractions:
  "prevote_fraction sample_params = (2, 3)" "precommit_fraction sample_params = (2, 3)" "cp_chunk_size sample_params = 1"
  by (simp_all add: prevote_fraction_def precommit_fraction_def sample_params_def default_consensus_params_def)

lemma sample_indices: "bit_indices sample_bits = [0]"
  by (simp add: bit_indices_def sample_bits_def bitvec_get_def)

lemma sample_coverage:
  "attestation_coverage_valid (sample_vote_data h r phase) sample_bits [sample_claim h r phase] 1"
  by (cases phase)
    (simp_all add: attestation_coverage_valid_def sample_indices sample_claim_def sample_vote_data_def,
     simp_all add: sample_bits_def bitvec_get_def)

lemma sample_root: "validators_commitment sample_bft vs = 0"
  by (simp add: validators_commitment_def sample_bft_def wire_externals_def of_le_bytes_def)

lemma sample_chunk_hash: "chunk_hash sample_bft (sample_chunk da) = da"
  by (simp add: chunk_hash_def sample_bft_def wire_externals_def sample_chunk_def of_le_bytes_le_bytes)

lemma sample_leader: "bft_leader_with_root sample_bft c k r [sample_seat] root = Some 0"
  by (simp add: bft_leader_with_root_def eligible_indices_def sample_seat_def)

lemma sample_aggregate: "verify_phase_with sample_bft [sample_seat] \<lparr>av_bits = sample_bits, av_signature = sig\<rparr> m 5 (2, 3) = Inr ()"
  by (simp add: verify_phase_with_def sample_signers)
   (simp add: quorum_fraction_valid_def weight_quorum_reached_def sample_bits_def sample_bft_def require_def)

lemma sample_claims:
  "claim_signatures_loop sample_bft d [sample_seat] (sample_vote_data h r phase) m [sample_claim h r phase] = Inr ()"
  by (simp add: verify_attestation_with_def nth_opt_def sample_claim_def sample_bft_def ok_or_def)

lemma sample_unlock: "va_unlock_quorum (sample_claim h r phase) = None"
  by (simp add: sample_claim_def)

lemma sample_cert_vote: "cert_vote_data (signed_cert sig da) phase = sample_vote_data da 0 phase"
  by (simp add: cert_vote_data_def signed_cert_def sample_vote_data_def)

lemma sample_cert_phase:
  "verify_cert_phase sample_bft d [sample_seat] sample_params 5 (signed_cert sig da) phase cache = Inr cache"
proof (cases phase)
  case Prevote
  have "fc_prevote (signed_cert sig da) = \<lparr>av_bits = sample_bits, av_signature = 0\<rparr>"
    "fc_prevote_attestations (signed_cert sig da) = [sample_claim da 0 Prevote]" by (simp_all add: signed_cert_def)
  with Prevote show ?thesis
    by (simp add: verify_cert_phase_def sample_cert_vote sample_fractions sample_coverage sample_claims sample_aggregate
        sample_unlock Let_def del: claim_signatures_loop.simps)
next
  case Precommit
  have "fc_precommit (signed_cert sig da) = \<lparr>av_bits = sample_bits, av_signature = sig\<rparr>"
    "fc_precommit_attestations (signed_cert sig da) = [sample_claim da 0 Precommit]" by (simp_all add: signed_cert_def)
  with Precommit show ?thesis
    by (simp add: verify_cert_phase_def sample_cert_vote sample_fractions sample_coverage sample_claims sample_aggregate
        sample_unlock Let_def del: claim_signatures_loop.simps)
qed

lemma sample_cert_verifies:
  "verify_finality sample_bft d sample_params [sample_seat] (sample_chunk da) (signed_cert sig da) = Inr ()"
proof -
  have p: "verify_proposal_with sample_bft d [sample_seat] 0 (fc_proposal (signed_cert sig da)) f c = Inr c" for f c
    by (simp add: verify_proposal_with_def sample_leader signed_cert_def nth_opt_def verify_round_entry_def ok_or_def)
      (simp add: sample_chunk_def sample_bft_def)
  have "fc_chunk_id (signed_cert sig da) = ch_chunk_id (sample_chunk da)" "fc_chunk_hash (signed_cert sig da) = da"
    "fc_active_validator_set_root (signed_cert sig da) = 0" "ch_active_validator_set_root (sample_chunk da) = 0"
    "bp_chunk (fc_proposal (signed_cert sig da)) = sample_chunk da"
    "bp_round (fc_proposal (signed_cert sig da)) = fc_round (signed_cert sig da)"
    by (simp_all add: signed_cert_def sample_chunk_def)
  then show ?thesis
    by (simp add: verify_finality_def verify_finality_with_root_def sample_root sample_chunk_hash p sample_total ok_or_def
        sample_cert_phase)
qed

end
