(* ===== verification/Consensus_Properties.thy ===== *)
theory Consensus_Properties
  imports Sample_Consensus
begin

text \<open>
  The headline properties of chunk finality, with a concrete instance of every property that has
  hypotheses.
\<close>

text \<open>
  C3. Accountable safety. If two certificates for different candidates of one chunk both pass
  verification against one validator set, validators holding at least a third of the active stake
  are exposed. In the same round they signed both precommit aggregates, and the evidence guest
  convicts each of them of a double precommit from the attestations of the certificates. Across
  rounds they signed the earlier precommit and a later prevote quorum for another candidate, and
  the attestation of that prevote convicts each of them of a lock violation, whatever unlock claim
  it carries.
\<close>

theorem accountable_safety:
  assumes "verify_finality (ev_bft Y) d params vs chunk_a a = Inr ()"
    and "verify_finality (ev_bft Y) d params vs chunk_b b = Inr ()"
    and "fc_chunk_id a = fc_chunk_id b" and "fc_chunk_hash a \<noteq> fc_chunk_hash b" and "fc_round a \<le> fc_round b"
    and "hc_validators source = vs" and "ch_chunk_id (hc_chunk source) = fc_chunk_id a"
  shows "if fc_round a = fc_round b
    then weight_of vs (active_set vs) \<le> 3 * weight_of vs (cert_signers vs a Precommit \<inter> cert_signers vs b Precommit)
      \<and> (\<forall>i \<in> cert_signers vs a Precommit \<inter> cert_signers vs b Precommit. \<exists>u w oid.
           authorize_evidence Y params d source (DoublePrecommit (of_nat i) u w) key = Inr (vs ! i, oid))
    else \<exists>q. verify_quorum (ev_bft Y) d vs q (prevote_fraction params) = Inr ()
      \<and> fc_round a < fd_round (qc_data q) \<and> fd_round (qc_data q) \<le> fc_round b
      \<and> weight_of vs (active_set vs) \<le> 3 * weight_of vs (cert_signers vs a Precommit \<inter> qc_signers vs q)
      \<and> (\<forall>i \<in> cert_signers vs a Precommit \<inter> qc_signers vs q. \<forall>att.
           verify_attestation (ev_bft Y) d vs (of_nat i) (qc_data q) att = Inr () \<longrightarrow>
           (\<exists>first oid. authorize_evidence Y params d source
             (LockViolation (of_nat i) first (attested_vote att)
               \<lparr>le_locked_prevote_quorum = prevote_quorum_of a, le_attestation = att\<rparr>) key = Inr (vs ! i, oid)))"
proof (cases "fc_round a = fc_round b")
  case True
  with same_round_exposes_third [OF assms(1,2,3,4) True assms(6,7)] show ?thesis by simp
next
  case False
  then have "fc_round a < fc_round b" using assms(5) by simp
  from conflict_exposes_third [OF assms(1,2,3,4) this assms(6,7)] False show ?thesis
    by (auto simp: conflicting_quorum_def)
qed

theorem accountable_safety_witness:
  "weight_of [sample_seat] (active_set [sample_seat])
     \<le> 3 * weight_of [sample_seat] (cert_signers [sample_seat] (sample_cert 1) Precommit
          \<inter> cert_signers [sample_seat] (sample_cert 2) Precommit)
   \<and> (\<exists>u w oid. authorize_evidence sample_guest sample_params sample_domain sample_source (DoublePrecommit 0 u w) 0
        = Inr (sample_seat, oid))"
proof -
  have v: "verify_finality (ev_bft sample_guest) sample_domain sample_params [sample_seat] (sample_chunk da) (sample_cert da)
    = Inr ()" for da
    by (simp add: sample_guest_def sample_cert_verifies)
  have c: "fc_chunk_id (sample_cert 1) = fc_chunk_id (sample_cert 2)" "fc_chunk_hash (sample_cert 1) \<noteq> fc_chunk_hash (sample_cert 2)"
    "fc_round (sample_cert 1) \<le> fc_round (sample_cert 2)" "hc_validators sample_source = [sample_seat]"
    "ch_chunk_id (hc_chunk sample_source) = fc_chunk_id (sample_cert 1)"
    by (simp_all add: signed_cert_def sample_source_def sample_chunk_def)
  have "0 \<in> cert_signers [sample_seat] (sample_cert da) Precommit" for da
    by (simp add: cert_signers_def cert_aggregate_def signed_cert_def signer_set_def sample_bits_def bitvec_get_def)
  moreover have "fc_round (sample_cert 1) = fc_round (sample_cert 2)" by (simp add: signed_cert_def)
  ultimately show ?thesis
    using accountable_safety [OF v v c, of 0] by force
qed

end
