(* ===== verification/Signing.thy ===== *)
theory Signing
  imports Evidence_Guest Keys
begin

text \<open>
  Durable local signing reservations (\<open>consensus-engine/src/signing.rs\<close>): the journal column with
  its keys, the vote watermark with its lock, and the operations that reserve a position before the
  key signs. The journal is a map from key bytes to value bytes; a batch is the list of its writes.
  Database failures are not modelled. Whether the artifact store accepts the signed artifact, which
  the code asks only after the reservation is durable, is an argument of each operation.
\<close>

subsection \<open>Records\<close>

datatype signing_violation = SvConflict | SvRegression | SvFinalizedChunk | SvKeyNotActive

datatype engine_error = Signing signing_violation | Corrupt string | Codec

record vote_intent =
  vi_data :: finality_vote_data
  vi_validator_index :: u32
  vi_proof_hashes :: "hash list"
  vi_unlock_quorum :: "quorum_certificate option"

record vote_watermark =
  vw_spec :: hash
  vw_identity :: bls_public_key
  vw_chunk_id :: u64
  vw_round :: u32
  vw_prevote :: "vote_intent option"
  vw_precommit :: "vote_intent option"
  vw_locked :: "quorum_certificate option"

record proposal_watermark =
  pw_spec :: hash
  pw_identity :: bls_public_key
  pw_slot :: u64
  pw_hash :: hash

record nil_intent =
  ni_spec :: hash
  ni_identity :: bls_public_key
  ni_data :: nil_vote_data
  ni_validator_index :: u32

record message_intent =
  mi_spec :: hash
  mi_identity :: bls_public_key
  mi_message :: bytes

record message_watermark =
  mw_spec :: hash
  mw_identity :: bls_public_key
  mw_chunk_id :: u64
  mw_round :: u32

record signing_codecs =
  watermark_codec :: "vote_watermark codec"
  intent_codec :: "vote_intent codec"
  nil_intent_codec :: "nil_intent codec"
  message_intent_codec :: "message_intent codec"
  message_watermark_codec :: "message_watermark codec"
  proposal_watermark_codec :: "proposal_watermark codec"

text \<open>The engine fields the journal reads, and the local key with its deterministic signature function.\<close>

record signing_engine =
  se_domain :: consensus_domain
  se_params :: consensus_params
  se_validators :: "consensus_validator list"
  se_latest_finalized :: "u64 option"
  se_finalized_next :: u64
  se_journal :: state

record proposer_key =
  pk_sign :: "bytes \<Rightarrow> bls_signature"
  pk_public_key :: bls_public_key
  pk_validator_index :: u32

subsection \<open>Journal keys\<close>

definition VOTE_WATERMARK_TAG :: u8 where "VOTE_WATERMARK_TAG = 0"
definition PROPOSER_WATERMARK_TAG :: u8 where "PROPOSER_WATERMARK_TAG = 1"
definition VOTE_INTENT_TAG :: u8 where "VOTE_INTENT_TAG = 2"
definition NIL_INTENT_TAG :: u8 where "NIL_INTENT_TAG = 3"
definition PROPOSAL_MESSAGE_TAG :: u8 where "PROPOSAL_MESSAGE_TAG = 4"
definition ROUND_CHANGE_MESSAGE_TAG :: u8 where "ROUND_CHANGE_MESSAGE_TAG = 5"
definition MESSAGE_WATERMARK_OFFSET :: u8 where "MESSAGE_WATERMARK_OFFSET = 2"

definition vote_key :: "bls_public_key \<Rightarrow> u64 \<Rightarrow> bytes" where
  "vote_key identity chunk_id = [VOTE_WATERMARK_TAG] @ be_bytes 48 identity @ be_bytes 8 chunk_id"

definition proposal_key :: "bls_public_key \<Rightarrow> bytes" where
  "proposal_key identity = [PROPOSER_WATERMARK_TAG] @ be_bytes 48 identity"

definition intent_key :: "bls_public_key \<Rightarrow> finality_vote_data \<Rightarrow> bytes" where
  "intent_key identity data =
     (vote_key identity (fd_chunk_id data))[0 := VOTE_INTENT_TAG] @ be_bytes 4 (fd_round data)
       @ [if fd_phase data = Precommit then 1 else 0]"

definition nil_key :: "bls_public_key \<Rightarrow> nil_vote_data \<Rightarrow> bytes" where
  "nil_key identity data =
     (vote_key identity (nd_chunk_id data))[0 := NIL_INTENT_TAG] @ be_bytes 4 (nd_round data)
       @ [if nd_phase data = Precommit then 1 else 0]"

definition round_message_key :: "u8 \<Rightarrow> bls_public_key \<Rightarrow> u64 \<Rightarrow> u32 \<Rightarrow> bytes" where
  "round_message_key tag identity chunk_id round = (vote_key identity chunk_id)[0 := tag] @ be_bytes 4 round"

definition message_watermark_key :: "u8 \<Rightarrow> bls_public_key \<Rightarrow> u64 \<Rightarrow> bytes" where
  "message_watermark_key tag identity chunk_id = (vote_key identity chunk_id)[0 := tag + MESSAGE_WATERMARK_OFFSET]"

subsection \<open>Batches\<close>

type_synonym batch = "(bytes \<times> bytes option) list"

definition write_batch :: "signing_engine \<Rightarrow> batch \<Rightarrow> signing_engine" where
  "write_batch e batch = e\<lparr>se_journal := foldl (\<lambda>j (k, v). j(k := v)) (se_journal e) batch\<rparr>"

definition vote_at :: "u64 \<Rightarrow> u32 \<Rightarrow> finality_vote_phase \<Rightarrow> finality_vote_data" where
  "vote_at chunk_id round phase = \<lparr>fd_chunk_id = chunk_id, fd_round = round, fd_chunk_hash = 0, fd_phase = phase\<rparr>"

definition nil_at :: "u64 \<Rightarrow> u32 \<Rightarrow> finality_vote_phase \<Rightarrow> nil_vote_data" where
  "nil_at chunk_id round phase = \<lparr>nd_chunk_id = chunk_id, nd_round = round, nd_phase = phase\<rparr>"

definition compact_round_intents ::
  "bls_public_key \<Rightarrow> u64 \<Rightarrow> u32 \<Rightarrow> u32 \<Rightarrow> quorum_certificate option \<Rightarrow> batch" where
  "compact_round_intents identity chunk_id old_round new_round lock =
     (if new_round \<le> old_round then []
      else concat (map (\<lambda>phase.
          (if phase \<noteq> Precommit \<or> (case lock of None \<Rightarrow> True | Some l \<Rightarrow> fd_round (qc_data l) \<noteq> old_round)
           then [(intent_key identity (vote_at chunk_id old_round phase), None)] else [])
          @ [(nil_key identity (nil_at chunk_id old_round phase), None)]) [Prevote, Precommit])
        @ [(round_message_key PROPOSAL_MESSAGE_TAG identity chunk_id old_round, None),
           (round_message_key ROUND_CHANGE_MESSAGE_TAG identity chunk_id old_round, None)]
        @ (case checked_add old_round 1 of
             None \<Rightarrow> []
           | Some reported \<Rightarrow>
               if reported < new_round
               then [(round_message_key ROUND_CHANGE_MESSAGE_TAG identity chunk_id reported, None)] else []))"

definition single_signer_bits :: "nat \<Rightarrow> u32 \<Rightarrow> bit_vec" where
  "single_signer_bits len signer = foldl (\<lambda>bits index. bitvec_push bits (index = unat signer)) bitvec_empty [0..<len]"

subsection \<open>Watermarks\<close>

definition watermark_advance :: "vote_watermark \<Rightarrow> u32 \<Rightarrow> signing_violation + vote_watermark" where
  "watermark_advance w round =
     (if round < vw_round w then Inl SvRegression
      else if round > vw_round w then Inr (w\<lparr>vw_round := round, vw_prevote := None, vw_precommit := None\<rparr>)
      else Inr w)"

definition verify_bft_unlock_quorum ::
  "bft_externals \<Rightarrow> signing_engine \<Rightarrow> finality_vote_data \<Rightarrow> quorum_certificate \<Rightarrow> evidence_error + unit" where
  "verify_bft_unlock_quorum X e vote q =
     verify_unlock X (se_domain e) (se_validators e) vote q (prevote_fraction (se_params e))"

definition validate_watermark_intent ::
  "signing_codecs \<Rightarrow> signing_engine \<Rightarrow> vote_watermark \<Rightarrow> finality_vote_phase \<Rightarrow> vote_intent option \<Rightarrow> engine_error + unit" where
  "validate_watermark_intent S e w phase entry =
     (case entry of
        None \<Rightarrow> Inr ()
      | Some intent \<Rightarrow>
          if fd_chunk_id (vi_data intent) \<noteq> vw_chunk_id w \<or> fd_round (vi_data intent) \<noteq> vw_round w
             \<or> fd_phase (vi_data intent) \<noteq> phase
          then Inl (Corrupt ''signing watermark intent target mismatch'')
          else res_bind (ok_or (se_journal e (intent_key (vw_identity w) (vi_data intent)))
              (Corrupt ''signing watermark intent missing'')) (\<lambda>b.
            res_bind (ok_or (dec (intent_codec S) b) Codec) (\<lambda>saved.
            require (saved = intent) (Corrupt ''signing watermark intent changed''))))"

definition validate_watermark_lock ::
  "bft_externals \<Rightarrow> signing_codecs \<Rightarrow> signing_engine \<Rightarrow> vote_watermark \<Rightarrow> engine_error + unit" where
  "validate_watermark_lock X S e w =
     (case vw_locked w of
        None \<Rightarrow> Inr ()
      | Some lock \<Rightarrow>
          let precommit = (qc_data lock)\<lparr>fd_phase := Precommit\<rparr> in
          res_bind (ok_or (se_journal e (intent_key (vw_identity w) precommit))
            (Corrupt ''journal lock has no signed precommit'')) (\<lambda>b.
          res_bind (ok_or (dec (intent_codec S) b) Codec) (\<lambda>intent.
          require (vi_data intent = precommit \<and> vi_unlock_quorum intent = Some lock
              \<and> \<not> fd_round (qc_data lock) > vw_round w
              \<and> verify_bft_unlock_quorum X e precommit lock = Inr ())
            (Corrupt ''invalid durable signing lock''))))"

definition validate_vote_watermark ::
  "bft_externals \<Rightarrow> signing_codecs \<Rightarrow> signing_engine \<Rightarrow> vote_watermark \<Rightarrow> engine_error + unit" where
  "validate_vote_watermark X S e w =
     (if vw_spec w \<noteq> cd_chain_spec_hash (se_domain e) then Inl (Corrupt ''invalid signing watermark context'')
      else res_bind (validate_watermark_intent S e w Prevote (vw_prevote w)) (\<lambda>_.
        res_bind (validate_watermark_intent S e w Precommit (vw_precommit w)) (\<lambda>_.
        res_bind (validate_watermark_lock X S e w) (\<lambda>_.
        require (case vw_precommit w of None \<Rightarrow> True | Some intent \<Rightarrow> vi_unlock_quorum intent = vw_locked w)
          (Corrupt ''journal precommit lock mismatch'')))))"

definition read_vote_watermark ::
  "bft_externals \<Rightarrow> signing_codecs \<Rightarrow> signing_engine \<Rightarrow> bls_public_key \<Rightarrow> u64 \<Rightarrow> string \<Rightarrow> bool
     \<Rightarrow> engine_error + vote_watermark option" where
  "read_vote_watermark X S e identity chunk_id mismatch bind_spec =
     (case se_journal e (vote_key identity chunk_id) of
        None \<Rightarrow> Inr None
      | Some b \<Rightarrow>
          res_bind (ok_or (dec (watermark_codec S) b) Codec) (\<lambda>w.
          if bind_spec \<and> vw_spec w \<noteq> cd_chain_spec_hash (se_domain e)
             \<or> vw_identity w \<noteq> identity \<or> vw_chunk_id w \<noteq> chunk_id
          then Inl (Corrupt mismatch)
          else res_bind (validate_vote_watermark X S e w) (\<lambda>_. Inr (Some w))))"

definition validate_signing_key :: "signing_engine \<Rightarrow> proposer_key \<Rightarrow> engine_error + unit" where
  "validate_signing_key e voter =
     (case nth_opt (se_validators e) (unat (pk_validator_index voter)) of
        None \<Rightarrow> Inl (Signing SvKeyNotActive)
      | Some v \<Rightarrow>
          require (cv_pubkey v = pk_public_key voter \<and> \<not> cv_slashed v \<and> cv_effective_stake v > 0) (Signing SvKeyNotActive))"

definition signing_finalized_floor :: "signing_engine \<Rightarrow> engine_error + u64" where
  "signing_finalized_floor e =
     res_bind (case se_latest_finalized e of
         None \<Rightarrow> Inr 0
       | Some n \<Rightarrow> ok_or (checked_add n 1) (Corrupt ''signing finality floor overflow'')) (\<lambda>persisted.
     Inr (max persisted (se_finalized_next e)))"

definition ensure_signable :: "signing_engine \<Rightarrow> proposer_key \<Rightarrow> u64 \<Rightarrow> engine_error + unit" where
  "ensure_signable e voter chunk_id =
     res_bind (validate_signing_key e voter) (\<lambda>_.
     res_bind (signing_finalized_floor e) (\<lambda>floor.
     require (\<not> chunk_id < floor) (Signing SvFinalizedChunk)))"

definition load_vote_watermark ::
  "bft_externals \<Rightarrow> signing_codecs \<Rightarrow> signing_engine \<Rightarrow> proposer_key \<Rightarrow> u64 \<Rightarrow> u32 \<Rightarrow> engine_error + vote_watermark" where
  "load_vote_watermark X S e voter chunk_id round =
     res_bind (read_vote_watermark X S e (pk_public_key voter) chunk_id ''signing journal identity mismatch'' False) (\<lambda>saved.
     Inr (case saved of
            Some w \<Rightarrow> w
          | None \<Rightarrow> \<lparr>vw_spec = cd_chain_spec_hash (se_domain e), vw_identity = pk_public_key voter, vw_chunk_id = chunk_id,
              vw_round = round, vw_prevote = None, vw_precommit = None, vw_locked = None\<rparr>))"

subsection \<open>Value votes\<close>

definition validate_vote_unlock ::
  "bft_externals \<Rightarrow> signing_engine \<Rightarrow> vote_intent \<Rightarrow> quorum_certificate option \<Rightarrow> engine_error + unit" where
  "validate_vote_unlock X e intent locked =
     (if fd_phase (vi_data intent) = Prevote \<and> vi_proof_hashes intent \<noteq> [] then Inl (Signing SvConflict)
      else if (case vi_unlock_quorum intent of
                 None \<Rightarrow> False
               | Some unlock \<Rightarrow> verify_bft_unlock_quorum X e (vi_data intent) unlock \<noteq> Inr ())
      then Inl (Signing SvConflict)
      else if (case locked of
                 None \<Rightarrow> False
               | Some lock \<Rightarrow> fd_chunk_hash (vi_data intent) \<noteq> fd_chunk_hash (qc_data lock)
                   \<and> (case vi_unlock_quorum intent of
                         None \<Rightarrow> True
                       | Some unlock \<Rightarrow> fd_round (qc_data unlock) \<le> fd_round (qc_data lock)))
      then Inl (Signing SvConflict)
      else if fd_phase (vi_data intent) = Precommit
         \<and> (case vi_unlock_quorum intent of
               None \<Rightarrow> True
             | Some unlock \<Rightarrow> fd_round (qc_data unlock) \<noteq> fd_round (vi_data intent))
      then Inl (Signing SvConflict)
      else Inr ())"

definition attest_vote ::
  "bft_externals \<Rightarrow> consensus_domain \<Rightarrow> proposer_key \<Rightarrow> finality_vote_data \<Rightarrow> hash list \<Rightarrow> quorum_certificate option
     \<Rightarrow> vote_attestation" where
  "attest_vote X d voter vote proofs unlock =
     (let attestation = \<lparr>va_vote_signature = pk_sign voter (vote_message X d vote),
            va_validator_index = pk_validator_index voter, va_vote = vote, va_proof_hashes = proofs,
            va_unlock_quorum = unlock, va_signature = 0\<rparr>
      in attestation\<lparr>va_signature := pk_sign voter (attestation_message X d attestation)\<rparr>)"

definition sign_reserved_value_vote ::
  "bft_externals \<Rightarrow> signing_engine \<Rightarrow> proposer_key \<Rightarrow> finality_vote_data \<Rightarrow> vote_intent \<Rightarrow> finality_vote" where
  "sign_reserved_value_vote X e voter data intent =
     \<lparr>fv_bits = single_signer_bits (length (se_validators e)) (pk_validator_index voter), fv_data = data,
      fv_signature = pk_sign voter (vote_message X (se_domain e) data),
      fv_attestations = [attest_vote X (se_domain e) voter data (vi_proof_hashes intent) (vi_unlock_quorum intent)]\<rparr>"

text \<open>The entry of a phase, read and replaced through \<open>&mut\<close> in the code.\<close>

definition watermark_entry :: "vote_watermark \<Rightarrow> finality_vote_phase \<Rightarrow> vote_intent option" where
  "watermark_entry w phase = (case phase of Prevote \<Rightarrow> vw_prevote w | Precommit \<Rightarrow> vw_precommit w)"

definition set_watermark_entry :: "vote_watermark \<Rightarrow> vote_intent \<Rightarrow> vote_watermark" where
  "set_watermark_entry w intent =
     (case fd_phase (vi_data intent) of
        Prevote \<Rightarrow> w\<lparr>vw_prevote := Some intent\<rparr>
      | Precommit \<Rightarrow> w\<lparr>vw_precommit := Some intent, vw_locked := vi_unlock_quorum intent\<rparr>)"

definition value_intent ::
  "proposer_key \<Rightarrow> finality_vote_data \<Rightarrow> hash list \<Rightarrow> quorum_certificate option \<Rightarrow> vote_intent" where
  "value_intent voter data proofs unlock =
     \<lparr>vi_data = data, vi_validator_index = pk_validator_index voter, vi_proof_hashes = proofs, vi_unlock_quorum = unlock\<rparr>"

definition superseded_lock :: "bls_public_key \<Rightarrow> finality_vote_data \<Rightarrow> quorum_certificate option \<Rightarrow> batch" where
  "superseded_lock identity data prior_lock =
     (case prior_lock of
        None \<Rightarrow> []
      | Some lock \<Rightarrow>
          if fd_phase data = Precommit \<and> fd_round (qc_data lock) < fd_round data
          then [(intent_key identity ((qc_data lock)\<lparr>fd_phase := Precommit\<rparr>), None)] else [])"

text \<open>Everything of \<open>sign_vote_durable\<close> up to and including the two signatures.\<close>

definition reserve_vote ::
  "bft_externals \<Rightarrow> signing_codecs \<Rightarrow> signing_engine \<Rightarrow> proposer_key \<Rightarrow> finality_vote_data \<Rightarrow> hash list
     \<Rightarrow> quorum_certificate option \<Rightarrow> engine_error + signing_engine \<times> finality_vote" where
  "reserve_vote X S e voter data proofs unlock =
     (let identity = pk_public_key voter in
      res_bind (ensure_signable e voter (fd_chunk_id data)) (\<lambda>_.
      if se_journal e (nil_key identity (nil_at (fd_chunk_id data) (fd_round data) (fd_phase data))) \<noteq> None
      then Inl (Signing SvConflict)
      else let intent = value_intent voter data proofs unlock in
        res_bind (load_vote_watermark X S e voter (fd_chunk_id data) (fd_round data)) (\<lambda>prior.
        res_bind (validate_vote_unlock X e intent (vw_locked prior)) (\<lambda>_.
        res_bind (map_err Signing (watermark_advance prior (fd_round data))) (\<lambda>w.
        if (case watermark_entry w (fd_phase data) of None \<Rightarrow> False | Some saved \<Rightarrow> saved \<noteq> intent)
        then Inl (Signing SvConflict)
        else let batch =
                 compact_round_intents identity (fd_chunk_id data) (vw_round prior) (fd_round data) (vw_locked prior)
                 @ superseded_lock identity data (vw_locked prior)
                 @ [(vote_key identity (fd_chunk_id data), Some (enc (watermark_codec S) (set_watermark_entry w intent))),
                    (intent_key identity data, Some (enc (intent_codec S) intent))];
                 e' = write_batch e batch
             in Inr (e', sign_reserved_value_vote X e' voter data intent))))))"

definition sign_vote_durable ::
  "bft_externals \<Rightarrow> signing_codecs \<Rightarrow> (finality_vote \<Rightarrow> engine_error + unit) \<Rightarrow> signing_engine \<Rightarrow> proposer_key \<Rightarrow> finality_vote_data
     \<Rightarrow> hash list \<Rightarrow> quorum_certificate option \<Rightarrow> signing_engine \<times> (engine_error + finality_vote)" where
  "sign_vote_durable X S retain e voter data proofs unlock =
     (case reserve_vote X S e voter data proofs unlock of
        Inl err \<Rightarrow> (e, Inl err)
      | Inr (e', vote) \<Rightarrow> (e', res_bind (retain vote) (\<lambda>_. Inr vote)))"

subsection \<open>Expiry\<close>

text \<open>The loop over the journal column: \<open>keys\<close> are the keys it iterates. The session column is not part of the model.\<close>

fun expired_signing_entries :: "u64 \<Rightarrow> bytes list \<Rightarrow> batch \<Rightarrow> engine_error + batch" where
  "expired_signing_entries floor [] batch = Inr batch"
| "expired_signing_entries floor (key # keys) batch =
     (if key \<noteq> [] \<and> hd key = PROPOSER_WATERMARK_TAG then expired_signing_entries floor keys batch
      else if length key < 57 \<or> \<not> (hd key = VOTE_WATERMARK_TAG \<or> VOTE_INTENT_TAG \<le> hd key \<and> hd key \<le> 7)
      then Inl (Corrupt ''invalid signing journal key'')
      else let id = word_rcat (take 8 (drop 49 key)) in
        expired_signing_entries floor keys (if id < floor then batch @ [(key, None)] else batch))"

subsection \<open>Nil votes\<close>

definition reserve_nil_vote ::
  "bft_externals \<Rightarrow> signing_codecs \<Rightarrow> signing_engine \<Rightarrow> proposer_key \<Rightarrow> nil_vote_data
     \<Rightarrow> engine_error + signing_engine \<times> nil_vote" where
  "reserve_nil_vote X S e voter data =
     (let identity = pk_public_key voter; d = se_domain e in
      res_bind (ensure_signable e voter (nd_chunk_id data)) (\<lambda>_.
      if se_journal e (intent_key identity (vote_at (nd_chunk_id data) (nd_round data) (nd_phase data))) \<noteq> None
      then Inl (Signing SvConflict)
      else res_bind (load_vote_watermark X S e voter (nd_chunk_id data) (nd_round data)) (\<lambda>prior.
        res_bind (map_err Signing (watermark_advance prior (nd_round data))) (\<lambda>w.
        let intent = \<lparr>ni_spec = cd_chain_spec_hash d, ni_identity = identity, ni_data = data,
              ni_validator_index = pk_validator_index voter\<rparr>;
            b = enc (nil_intent_codec S) intent in
        if (case se_journal e (nil_key identity data) of None \<Rightarrow> False | Some saved \<Rightarrow> saved \<noteq> b)
        then Inl (Signing SvConflict)
        else let e' = write_batch e
               (compact_round_intents identity (nd_chunk_id data) (vw_round prior) (nd_round data) (vw_locked w)
                @ [(vote_key identity (nd_chunk_id data), Some (enc (watermark_codec S) w)),
                   (nil_key identity data, Some b)]);
                 signature = pk_sign voter (nil_message X d data);
                 claim = \<lparr>na_validator_index = pk_validator_index voter, na_vote = data, na_vote_signature = signature,
                   na_signature = 0\<rparr>
             in Inr (e', \<lparr>nv_data = data, nv_bits = single_signer_bits (length (se_validators e')) (pk_validator_index voter),
               nv_signature = signature,
               nv_attestations = [claim\<lparr>na_signature := pk_sign voter (nil_attestation_message X d claim)\<rparr>]\<rparr>)))))"

definition sign_nil_vote_durable ::
  "bft_externals \<Rightarrow> signing_codecs \<Rightarrow> (nil_vote \<Rightarrow> engine_error + unit) \<Rightarrow> signing_engine \<Rightarrow> proposer_key \<Rightarrow> nil_vote_data
     \<Rightarrow> signing_engine \<times> (engine_error + nil_vote)" where
  "sign_nil_vote_durable X S retain e voter data =
     (case reserve_nil_vote X S e voter data of
        Inl err \<Rightarrow> (e, Inl err)
      | Inr (e', vote) \<Rightarrow> (e', res_bind (retain vote) (\<lambda>_. Inr vote)))"

subsection \<open>Round messages and headers\<close>

definition signing_round_for ::
  "bft_externals \<Rightarrow> signing_codecs \<Rightarrow> signing_engine \<Rightarrow> bls_public_key \<Rightarrow> u64 \<Rightarrow> engine_error + u32 option" where
  "signing_round_for X S e identity chunk_id =
     res_bind (read_vote_watermark X S e identity chunk_id ''signing watermark identity mismatch'' True) (\<lambda>w.
     Inr (map_option vw_round w))"

definition compact_message_intents ::
  "signing_codecs \<Rightarrow> signing_engine \<Rightarrow> u8 \<Rightarrow> bls_public_key \<Rightarrow> u64 \<Rightarrow> u32 \<Rightarrow> engine_error + batch" where
  "compact_message_intents S e tag identity chunk_id round =
     (let key = message_watermark_key tag identity chunk_id; spec = cd_chain_spec_hash (se_domain e) in
      res_bind (case se_journal e key of
          None \<Rightarrow> Inr []
        | Some b \<Rightarrow>
            res_bind (ok_or (dec (message_watermark_codec S) b) Codec) (\<lambda>prior.
            if mw_spec prior \<noteq> spec \<or> mw_identity prior \<noteq> identity \<or> mw_chunk_id prior \<noteq> chunk_id
            then Inl (Corrupt ''message signing watermark identity mismatch'')
            else if round < mw_round prior then Inl (Signing SvRegression)
            else Inr (if round > mw_round prior
                      then [(round_message_key tag identity chunk_id (mw_round prior), None)] else []))) (\<lambda>deleted.
      Inr (deleted @ [(key, Some (enc (message_watermark_codec S)
        \<lparr>mw_spec = spec, mw_identity = identity, mw_chunk_id = chunk_id, mw_round = round\<rparr>))])))"

definition reserve_round_message ::
  "bft_externals \<Rightarrow> signing_codecs \<Rightarrow> signing_engine \<Rightarrow> proposer_key \<Rightarrow> u8 \<Rightarrow> u64 \<Rightarrow> u32 \<Rightarrow> bytes
     \<Rightarrow> engine_error + signing_engine \<times> bls_signature" where
  "reserve_round_message X S e voter tag chunk_id round message =
     (let identity = pk_public_key voter in
      res_bind (ensure_signable e voter chunk_id) (\<lambda>_.
      res_bind (signing_round_for X S e identity chunk_id) (\<lambda>signed_round.
      if (case signed_round of None \<Rightarrow> False | Some r \<Rightarrow> r > round) then Inl (Signing SvRegression)
      else let key = round_message_key tag identity chunk_id round;
               b = enc (message_intent_codec S)
                 \<lparr>mi_spec = cd_chain_spec_hash (se_domain e), mi_identity = identity, mi_message = message\<rparr> in
        if (case se_journal e key of None \<Rightarrow> False | Some saved \<Rightarrow> saved \<noteq> b) then Inl (Signing SvConflict)
        else res_bind (compact_message_intents S e tag identity chunk_id round) (\<lambda>batch.
          Inr (write_batch e (batch @ [(key, Some b)]), pk_sign voter message)))))"

definition sign_bft_proposal_durable ::
  "bft_externals \<Rightarrow> signing_codecs \<Rightarrow> (bft_proposal \<Rightarrow> engine_error + unit) \<Rightarrow> signing_engine \<Rightarrow> proposer_key \<Rightarrow> bft_proposal
     \<Rightarrow> signing_engine \<times> (engine_error + bft_proposal)" where
  "sign_bft_proposal_durable X S retain e voter p =
     (case reserve_round_message X S e voter PROPOSAL_MESSAGE_TAG (ch_chunk_id (bp_chunk p)) (bp_round p)
         (proposal_message X (se_domain e) p) of
        Inl err \<Rightarrow> (e, Inl err)
      | Inr (e', signature) \<Rightarrow>
          let p' = p\<lparr>bp_signature := signature\<rparr> in (e', res_bind (retain p') (\<lambda>_. Inr p')))"

definition sign_round_change_durable ::
  "bft_externals \<Rightarrow> signing_codecs \<Rightarrow> (round_change \<Rightarrow> engine_error + unit) \<Rightarrow> signing_engine \<Rightarrow> proposer_key \<Rightarrow> round_change
     \<Rightarrow> signing_engine \<times> (engine_error + round_change)" where
  "sign_round_change_durable X S retain e voter report =
     (case reserve_round_message X S e voter ROUND_CHANGE_MESSAGE_TAG (rc_chunk_id report) (rc_round report)
         (round_change_message X (se_domain e) report) of
        Inl err \<Rightarrow> (e, Inl err)
      | Inr (e', signature) \<Rightarrow>
          let report' = report\<lparr>rc_signature := signature\<rparr> in (e', res_bind (retain report') (\<lambda>_. Inr report')))"

definition sign_proposer_message :: "consensus_domain \<Rightarrow> proposer_key \<Rightarrow> hash \<Rightarrow> bls_signature" where
  "sign_proposer_message d voter h = pk_sign voter (signing_message d DOMAIN_PROPOSER_SIG (be_bytes 32 h))"

definition sign_proposal_durable ::
  "signing_codecs \<Rightarrow> signing_engine \<Rightarrow> proposer_key \<Rightarrow> u64 \<Rightarrow> hash \<Rightarrow> engine_error + signing_engine \<times> bls_signature" where
  "sign_proposal_durable S e voter slot h =
     (let identity = pk_public_key voter; key = proposal_key identity; spec = cd_chain_spec_hash (se_domain e) in
      res_bind (validate_signing_key e voter) (\<lambda>_.
      res_bind (case se_journal e key of
          None \<Rightarrow> Inr ()
        | Some b \<Rightarrow>
            res_bind (ok_or (dec (proposal_watermark_codec S) b) Codec) (\<lambda>prior.
            if pw_spec prior \<noteq> spec \<or> pw_identity prior \<noteq> identity then Inl (Corrupt ''proposal journal identity mismatch'')
            else if slot < pw_slot prior then Inl (Signing SvRegression)
            else if slot = pw_slot prior \<and> h \<noteq> pw_hash prior then Inl (Signing SvConflict)
            else Inr ())) (\<lambda>_.
      Inr (write_batch e [(key, Some (enc (proposal_watermark_codec S)
             \<lparr>pw_spec = spec, pw_identity = identity, pw_slot = slot, pw_hash = h\<rparr>))],
           sign_proposer_message (se_domain e) voter h))))"

subsection \<open>Recovery\<close>

record signing_progress =
  sp_round :: u32
  sp_prevoted :: bool
  sp_precommitted :: bool
  sp_locked :: "quorum_certificate option"
  sp_intents :: "vote_intent option list"

definition reserved_nil_intent ::
  "signing_codecs \<Rightarrow> signing_engine \<Rightarrow> proposer_key \<Rightarrow> u64 \<Rightarrow> u32 \<Rightarrow> finality_vote_phase \<Rightarrow> engine_error + nil_intent option" where
  "reserved_nil_intent S e voter chunk_id round phase =
     (let data = nil_at chunk_id round phase in
      case se_journal e (nil_key (pk_public_key voter) data) of
        None \<Rightarrow> Inr None
      | Some b \<Rightarrow>
          res_bind (ok_or (dec (nil_intent_codec S) b) Codec) (\<lambda>intent.
          if ni_spec intent \<noteq> cd_chain_spec_hash (se_domain e) \<or> ni_identity intent \<noteq> pk_public_key voter
             \<or> ni_data intent \<noteq> data \<or> ni_validator_index intent \<noteq> pk_validator_index voter
          then Inl (Corrupt ''nil signing reservation changed'')
          else Inr (Some intent)))"

definition reserved_signing_progress ::
  "bft_externals \<Rightarrow> signing_codecs \<Rightarrow> signing_engine \<Rightarrow> proposer_key \<Rightarrow> u64 \<Rightarrow> engine_error + signing_progress option" where
  "reserved_signing_progress X S e voter chunk_id =
     res_bind (read_vote_watermark X S e (pk_public_key voter) chunk_id ''signing lock identity mismatch'' False) (\<lambda>saved.
     case saved of
       None \<Rightarrow> Inr None
     | Some w \<Rightarrow>
         res_bind (if vw_prevote w \<noteq> None then Inr True
             else res_bind (reserved_nil_intent S e voter chunk_id (vw_round w) Prevote) (\<lambda>n. Inr (n \<noteq> None))) (\<lambda>prevoted.
         res_bind (if vw_precommit w \<noteq> None then Inr True
             else res_bind (reserved_nil_intent S e voter chunk_id (vw_round w) Precommit) (\<lambda>n. Inr (n \<noteq> None))) (\<lambda>precommitted.
         Inr (Some \<lparr>sp_round = vw_round w, sp_prevoted = prevoted, sp_precommitted = precommitted,
           sp_locked = vw_locked w, sp_intents = [vw_prevote w, vw_precommit w]\<rparr>))))"

fun reserved_local_votes ::
  "bft_externals \<Rightarrow> signing_codecs \<Rightarrow> (finality_vote \<Rightarrow> engine_error + unit) \<Rightarrow> signing_engine \<Rightarrow> proposer_key
     \<Rightarrow> vote_intent option list \<Rightarrow> finality_vote list \<Rightarrow> signing_engine \<times> (engine_error + finality_vote list)" where
  "reserved_local_votes X S retain e voter [] messages = (e, Inr messages)"
| "reserved_local_votes X S retain e voter (None # intents) messages =
     reserved_local_votes X S retain e voter intents messages"
| "reserved_local_votes X S retain e voter (Some intent # intents) messages =
     (case sign_vote_durable X S retain e voter (vi_data intent) (vi_proof_hashes intent) (vi_unlock_quorum intent) of
        (e', Inl err) \<Rightarrow> (e', Inl err)
      | (e', Inr vote) \<Rightarrow> reserved_local_votes X S retain e' voter intents (messages @ [vote]))"

fun reserved_local_nil_votes ::
  "bft_externals \<Rightarrow> signing_codecs \<Rightarrow> (nil_vote \<Rightarrow> engine_error + unit) \<Rightarrow> signing_engine \<Rightarrow> proposer_key \<Rightarrow> u64 \<Rightarrow> u32
     \<Rightarrow> finality_vote_phase list \<Rightarrow> nil_vote list \<Rightarrow> signing_engine \<times> (engine_error + nil_vote list)" where
  "reserved_local_nil_votes X S retain e voter chunk_id round [] recovered = (e, Inr recovered)"
| "reserved_local_nil_votes X S retain e voter chunk_id round (phase # phases) recovered =
     (case reserved_nil_intent S e voter chunk_id round phase of
        Inl err \<Rightarrow> (e, Inl err)
      | Inr None \<Rightarrow> reserved_local_nil_votes X S retain e voter chunk_id round phases recovered
      | Inr (Some intent) \<Rightarrow>
          (case sign_nil_vote_durable X S retain e voter (ni_data intent) of
             (e', Inl err) \<Rightarrow> (e', Inl err)
           | (e', Inr vote) \<Rightarrow> reserved_local_nil_votes X S retain e' voter chunk_id round phases (recovered @ [vote])))"

end
