(* ===== verification/Signing_Laws.thy ===== *)
theory Signing_Laws
  imports Signing Quorums
begin

text \<open>
  Laws of the signing journal: the keys of the column are disjoint, a reservation writes exactly its
  own position, and the stored watermark tracks every vote its identity signed for a live chunk. The
  history of an identity is the list of what its key signed, oldest first.
\<close>

subsection \<open>Journal keys\<close>

lemma be_bytes_4_eq [simp]: "be_bytes 4 a = be_bytes 4 b \<longleftrightarrow> a = b" for a b :: u32
  using be_bytes_inject [of 4 a b] by auto

lemmas journal_tags = VOTE_WATERMARK_TAG_def PROPOSER_WATERMARK_TAG_def VOTE_INTENT_TAG_def NIL_INTENT_TAG_def
  PROPOSAL_MESSAGE_TAG_def ROUND_CHANGE_MESSAGE_TAG_def MESSAGE_WATERMARK_OFFSET_def

lemmas journal_keys = vote_key_def proposal_key_def intent_key_def nil_key_def round_message_key_def message_watermark_key_def

lemma phase_flag_eq: "((if p = Precommit then 1 else 0 :: u8) = (if q = Precommit then 1 else 0)) \<longleftrightarrow> p = q"
  by (cases p; cases q) simp_all

lemma vote_key_eq [simp]: "vote_key k c = vote_key k' c' \<longleftrightarrow> k = k' \<and> c = c'"
  by (simp add: journal_keys)

lemma nil_key_eq [simp]: "nil_key k n = nil_key k' n' \<longleftrightarrow> k = k' \<and> n = n'"
  by (cases n; cases n') (auto simp: journal_keys phase_flag_eq split del: if_split)

lemma intent_key_eq [simp]:
  "intent_key k a = intent_key k' b \<longleftrightarrow>
     k = k' \<and> fd_chunk_id a = fd_chunk_id b \<and> fd_round a = fd_round b \<and> fd_phase a = fd_phase b"
  by (auto simp: journal_keys phase_flag_eq split del: if_split)

lemma round_message_key_eq [simp]:
  "round_message_key t k c r = round_message_key t' k' c' r' \<longleftrightarrow> t = t' \<and> k = k' \<and> c = c' \<and> r = r'"
  by (auto simp: journal_keys)

lemma journal_keys_disjoint [simp]:
  "vote_key k c \<noteq> intent_key k' a" "intent_key k' a \<noteq> vote_key k c"
  "vote_key k c \<noteq> nil_key k' n" "nil_key k' n \<noteq> vote_key k c"
  "intent_key k a \<noteq> nil_key k' n" "nil_key k' n \<noteq> intent_key k a"
  "vote_key k c \<noteq> proposal_key k'" "proposal_key k' \<noteq> vote_key k c"
  "nil_key k n \<noteq> proposal_key k'" "proposal_key k' \<noteq> nil_key k n"
  "intent_key k a \<noteq> proposal_key k'" "proposal_key k' \<noteq> intent_key k a"
  by (simp_all add: journal_keys journal_tags)

definition message_tag :: "u8 \<Rightarrow> bool" where
  "message_tag t \<longleftrightarrow> t = PROPOSAL_MESSAGE_TAG \<or> t = ROUND_CHANGE_MESSAGE_TAG"

lemma message_keys_disjoint:
  assumes "message_tag t"
  shows "round_message_key t k c r \<noteq> vote_key k' c'" "round_message_key t k c r \<noteq> nil_key k' n"
    "round_message_key t k c r \<noteq> intent_key k' a" "round_message_key t k c r \<noteq> proposal_key k'"
    "message_watermark_key t k c \<noteq> vote_key k' c'" "message_watermark_key t k c \<noteq> nil_key k' n"
    "message_watermark_key t k c \<noteq> intent_key k' a" "message_watermark_key t k c \<noteq> proposal_key k'"
  using assms by (auto simp: message_tag_def journal_keys journal_tags)

lemma message_tags [simp]: "message_tag PROPOSAL_MESSAGE_TAG" "message_tag ROUND_CHANGE_MESSAGE_TAG"
  by (simp_all add: message_tag_def)

subsection \<open>Batches\<close>

lemma write_batch_simps [simp]:
  "se_domain (write_batch e b) = se_domain e" "se_params (write_batch e b) = se_params e"
  "se_validators (write_batch e b) = se_validators e" "se_latest_finalized (write_batch e b) = se_latest_finalized e"
  "se_finalized_next (write_batch e b) = se_finalized_next e"
  by (simp_all add: write_batch_def)

lemma floor_write_batch [simp]: "signing_finalized_floor (write_batch e b) = signing_finalized_floor e"
  by (simp add: signing_finalized_floor_def)

lemma journal_write_last [simp]:
  "se_journal (write_batch e (b @ [(k, v)])) = (se_journal (write_batch e b))(k := v)"
  by (simp add: write_batch_def)

lemma journal_write_two:
  "se_journal (write_batch e (b @ [(k, v), (k', v')])) = (se_journal (write_batch e b))(k := v, k' := v')"
  by (simp add: write_batch_def)

definition batch_keys :: "batch \<Rightarrow> bytes set" where
  "batch_keys b = fst ` set b"

lemma batch_keys_simps [simp]:
  "batch_keys [] = {}" "batch_keys ((k, v) # b) = insert k (batch_keys b)" "batch_keys (b @ b') = batch_keys b \<union> batch_keys b'"
  by (auto simp: batch_keys_def)

lemma foldl_untouched: "k \<notin> batch_keys b \<Longrightarrow> foldl (\<lambda>j (k, v). j(k := v)) j b k = j k"
  by (induction b arbitrary: j) auto

lemma journal_untouched: "k \<notin> batch_keys b \<Longrightarrow> se_journal (write_batch e b) k = se_journal e k"
  by (simp add: write_batch_def foldl_untouched)

lemma compacted_keys:
  "key \<in> batch_keys (compact_round_intents k c old new lock) \<Longrightarrow>
     old < new \<and> ((\<exists>phase. key = intent_key k (vote_at c old phase)
        \<and> (phase = Precommit \<longrightarrow> (\<forall>l. lock = Some l \<longrightarrow> fd_round (qc_data l) \<noteq> old)))
      \<or> (\<exists>phase. key = nil_key k (nil_at c old phase)) \<or> (\<exists>t r. message_tag t \<and> r < new \<and> key = round_message_key t k c r))"
  by (auto simp: compact_round_intents_def batch_keys_def split: if_splits option.splits)

lemmas message_keys_disjoint' = message_keys_disjoint message_keys_disjoint [THEN not_sym]

lemma compaction_keeps_votes [simp]: "vote_key k c \<notin> batch_keys (compact_round_intents k' c' old new lock)"
  by (rule notI) (drule compacted_keys, auto simp: message_keys_disjoint')

lemma compaction_keeps_nils:
  "nil_key k n \<in> batch_keys (compact_round_intents k' c' old new lock) \<Longrightarrow>
     k = k' \<and> nd_chunk_id n = c' \<and> nd_round n = old \<and> old < new"
  by (drule compacted_keys) (auto simp: message_keys_disjoint' nil_at_def)

subsection \<open>Codec laws\<close>

text \<open>A \<open>BitVec\<close> is only ever built with the exact byte length and zero padding.\<close>

definition quorum_ok :: "quorum_certificate \<Rightarrow> bool" where
  "quorum_ok q \<longleftrightarrow> (let v = av_bits (qc_aggregate q) in bitvec_from_bytes (bv_bit_len v) (bv_bytes v) = Inr v)"

definition unlock_ok :: "quorum_certificate option \<Rightarrow> bool" where
  "unlock_ok u \<longleftrightarrow> (case u of None \<Rightarrow> True | Some q \<Rightarrow> quorum_ok q)"

definition intent_ok :: "vote_intent option \<Rightarrow> bool" where
  "intent_ok i \<longleftrightarrow> (case i of None \<Rightarrow> True | Some i \<Rightarrow> unlock_ok (vi_unlock_quorum i))"

definition watermark_ok :: "vote_watermark \<Rightarrow> bool" where
  "watermark_ok w \<longleftrightarrow> intent_ok (vw_prevote w) \<and> intent_ok (vw_precommit w) \<and> unlock_ok (vw_locked w)"

locale signing_borsh =
  fixes S :: signing_codecs
  assumes watermark_law: "watermark_ok w \<Longrightarrow> dec (watermark_codec S) (enc (watermark_codec S) w) = Some w"
    and intent_law: "intent_ok (Some i) \<Longrightarrow> dec (intent_codec S) (enc (intent_codec S) i) = Some i"
    and nil_intent_law: "codec_law (nil_intent_codec S)"
    and message_intent_law: "codec_law (message_intent_codec S)"
    and message_watermark_law: "codec_law (message_watermark_codec S)"
    and proposal_watermark_law: "codec_law (proposal_watermark_codec S)"

subsection \<open>What a reservation checks and writes\<close>

definition vote_unlock :: "finality_vote \<Rightarrow> quorum_certificate option" where
  "vote_unlock v = va_unlock_quorum (hd (fv_attestations v))"

lemma reserved_vote_simps [simp]:
  "fv_data (sign_reserved_value_vote X e voter data intent) = data"
  "vote_unlock (sign_reserved_value_vote X e voter data intent) = vi_unlock_quorum intent"
  by (simp_all add: sign_reserved_value_vote_def vote_unlock_def attest_vote_def Let_def)

lemma ensure_signable_Inr:
  "ensure_signable e voter c = Inr () \<longleftrightarrow>
     validate_signing_key e voter = Inr () \<and> (\<exists>f. signing_finalized_floor e = Inr f \<and> f \<le> c)"
  by (auto simp: ensure_signable_def res_bind_Inr_iff require_def split: if_splits)

lemma validate_vote_unlock_Inr:
  "validate_vote_unlock X e intent locked = Inr () \<longleftrightarrow>
     (fd_phase (vi_data intent) = Prevote \<longrightarrow> vi_proof_hashes intent = [])
     \<and> (\<forall>u. vi_unlock_quorum intent = Some u \<longrightarrow> verify_bft_unlock_quorum X e (vi_data intent) u = Inr ())
     \<and> (\<forall>l. locked = Some l \<longrightarrow> fd_chunk_hash (vi_data intent) \<noteq> fd_chunk_hash (qc_data l) \<longrightarrow>
          (\<exists>u. vi_unlock_quorum intent = Some u \<and> fd_round (qc_data l) < fd_round (qc_data u)))
     \<and> (fd_phase (vi_data intent) = Precommit \<longrightarrow>
          (\<exists>u. vi_unlock_quorum intent = Some u \<and> fd_round (qc_data u) = fd_round (vi_data intent)))"
  by (auto simp: validate_vote_unlock_def not_less not_le split: option.splits)

lemma value_intent_simps [simp]:
  "vi_data (value_intent voter data proofs unlock) = data" "vi_unlock_quorum (value_intent voter data proofs unlock) = unlock"
  "vi_proof_hashes (value_intent voter data proofs unlock) = proofs"
  by (simp_all add: value_intent_def)

lemma reserve_vote_Inr:
  "reserve_vote X S e voter data proofs unlock = Inr (e', v) \<longleftrightarrow>
     ensure_signable e voter (fd_chunk_id data) = Inr ()
     \<and> se_journal e (nil_key (pk_public_key voter) (nil_at (fd_chunk_id data) (fd_round data) (fd_phase data))) = None
     \<and> (\<exists>prior w. load_vote_watermark X S e voter (fd_chunk_id data) (fd_round data) = Inr prior
         \<and> validate_vote_unlock X e (value_intent voter data proofs unlock) (vw_locked prior) = Inr ()
         \<and> watermark_advance prior (fd_round data) = Inr w
         \<and> (\<forall>saved. watermark_entry w (fd_phase data) = Some saved \<longrightarrow> saved = value_intent voter data proofs unlock)
         \<and> e' = write_batch e
           (compact_round_intents (pk_public_key voter) (fd_chunk_id data) (vw_round prior) (fd_round data) (vw_locked prior)
            @ superseded_lock (pk_public_key voter) data (vw_locked prior)
            @ [(vote_key (pk_public_key voter) (fd_chunk_id data),
                  Some (enc (watermark_codec S) (set_watermark_entry w (value_intent voter data proofs unlock)))),
               (intent_key (pk_public_key voter) data, Some (enc (intent_codec S) (value_intent voter data proofs unlock)))]))
     \<and> v = sign_reserved_value_vote X e' voter data (value_intent voter data proofs unlock)"
  unfolding reserve_vote_def Let_def by (auto simp: res_bind_Inr_iff split: option.splits)

lemma reserve_nil_vote_Inr:
  "reserve_nil_vote X S e voter data = Inr (e', v) \<Longrightarrow>
     ensure_signable e voter (nd_chunk_id data) = Inr () \<and> nv_data v = data
     \<and> se_journal e (intent_key (pk_public_key voter) (vote_at (nd_chunk_id data) (nd_round data) (nd_phase data))) = None
     \<and> (\<exists>prior w b. load_vote_watermark X S e voter (nd_chunk_id data) (nd_round data) = Inr prior
         \<and> watermark_advance prior (nd_round data) = Inr w
         \<and> e' = write_batch e
           (compact_round_intents (pk_public_key voter) (nd_chunk_id data) (vw_round prior) (nd_round data) (vw_locked w)
            @ [(vote_key (pk_public_key voter) (nd_chunk_id data), Some (enc (watermark_codec S) w)),
               (nil_key (pk_public_key voter) data, Some b)]))"
  unfolding reserve_nil_vote_def Let_def by (auto simp: res_bind_Inr_iff split: option.splits if_splits)

lemma superseded_keys:
  "key \<in> batch_keys (superseded_lock k data lock) \<Longrightarrow>
     \<exists>l. lock = Some l \<and> fd_phase data = Precommit \<and> fd_round (qc_data l) < fd_round data
       \<and> key = intent_key k ((qc_data l)\<lparr>fd_phase := Precommit\<rparr>)"
  by (auto simp: superseded_lock_def split: option.splits if_splits)

lemma watermark_advance_Inr:
  "watermark_advance prior r = Inr w \<Longrightarrow>
     vw_round prior \<le> r \<and> vw_round w = r \<and> vw_locked w = vw_locked prior \<and> vw_identity w = vw_identity prior
     \<and> vw_chunk_id w = vw_chunk_id prior \<and> vw_spec w = vw_spec prior
     \<and> (if vw_round prior = r then w = prior else vw_prevote w = None \<and> vw_precommit w = None)"
  by (auto simp: watermark_advance_def split: if_splits)

subsection \<open>Tracking the signed votes of one identity\<close>

text \<open>What the key of an identity signed, as the code produced it.\<close>

datatype signing_event =
    SignedVote finality_vote
  | SignedNil nil_vote
  | SignedProposal bft_proposal
  | SignedRoundChange round_change
  | SignedHeader u64 hash

definition chunk_votes :: "u64 \<Rightarrow> signing_event list \<Rightarrow> finality_vote list" where
  "chunk_votes c L =
     List.map_filter (\<lambda>ev. case ev of SignedVote v \<Rightarrow> if fd_chunk_id (fv_data v) = c then Some v else None | _ \<Rightarrow> None) L"

definition chunk_nils :: "u64 \<Rightarrow> signing_event list \<Rightarrow> nil_vote_data list" where
  "chunk_nils c L =
     List.map_filter (\<lambda>ev. case ev of SignedNil n \<Rightarrow> if nd_chunk_id (nv_data n) = c then Some (nv_data n) else None | _ \<Rightarrow> None) L"

lemma map_filter_snoc: "List.map_filter f (xs @ [x]) = List.map_filter f xs @ (case f x of None \<Rightarrow> [] | Some y \<Rightarrow> [y])"
  by (induction xs) (auto simp: List.map_filter_simps split: option.splits)

lemma chunk_events_simps [simp]:
  "chunk_votes c [] = []" "chunk_nils c [] = []"
  "chunk_votes c (L @ [ev]) = chunk_votes c L @ (case ev of SignedVote v \<Rightarrow> if fd_chunk_id (fv_data v) = c then [v] else [] | _ \<Rightarrow> [])"
  "chunk_nils c (L @ [ev]) =
     chunk_nils c L @ (case ev of SignedNil n \<Rightarrow> if nd_chunk_id (nv_data n) = c then [nv_data n] else [] | _ \<Rightarrow> [])"
  by (auto simp: chunk_votes_def chunk_nils_def map_filter_snoc List.map_filter_simps split: signing_event.splits)

text \<open>The lock is the quorum carried by the last precommit.\<close>

definition lock_of :: "finality_vote list \<Rightarrow> quorum_certificate option" where
  "lock_of vs = (case rev (filter (\<lambda>v. fd_phase (fv_data v) = Precommit) vs) of [] \<Rightarrow> None | v # _ \<Rightarrow> vote_unlock v)"

lemma lock_of_simps [simp]:
  "lock_of [] = None"
  "lock_of (vs @ [v]) = (if fd_phase (fv_data v) = Precommit then vote_unlock v else lock_of vs)"
  by (simp_all add: lock_of_def)

definition watermark_tracks :: "vote_watermark \<Rightarrow> finality_vote list \<Rightarrow> bool" where
  "watermark_tracks w vs \<longleftrightarrow>
     vw_locked w = lock_of vs
     \<and> (\<forall>v \<in> set vs. fd_round (fv_data v) \<le> vw_round w
        \<and> (fd_round (fv_data v) = vw_round w \<longrightarrow>
            (\<exists>i. watermark_entry w (fd_phase (fv_data v)) = Some i \<and> vi_data i = fv_data v)))"

definition journal_tracks :: "signing_codecs \<Rightarrow> signing_engine \<Rightarrow> bls_public_key \<Rightarrow> signing_event list \<Rightarrow> u64 \<Rightarrow> bool" where
  "journal_tracks S e k L c =
     (case se_journal e (vote_key k c) of
        None \<Rightarrow> chunk_votes c L = [] \<and> chunk_nils c L = []
      | Some b \<Rightarrow> \<exists>w. b = enc (watermark_codec S) w \<and> watermark_ok w \<and> watermark_tracks w (chunk_votes c L)
          \<and> (\<forall>n \<in> set (chunk_nils c L). nd_round n \<le> vw_round w
              \<and> (nd_round n = vw_round w \<longrightarrow> se_journal e (nil_key k n) \<noteq> None)))"

text \<open>
  What the journal lets a key sign for a chunk after the votes and nil votes it already signed.
\<close>

definition vote_admissible ::
  "bft_externals \<Rightarrow> consensus_domain \<Rightarrow> consensus_params \<Rightarrow> consensus_validator list
     \<Rightarrow> finality_vote list \<Rightarrow> nil_vote_data list \<Rightarrow> finality_vote \<Rightarrow> bool" where
  "vote_admissible X d params members vs ns v \<longleftrightarrow>
     (\<forall>u \<in> set vs. fd_round (fv_data u) \<le> fd_round (fv_data v)
        \<and> (fd_round (fv_data u) = fd_round (fv_data v) \<longrightarrow> fd_phase (fv_data u) = fd_phase (fv_data v) \<longrightarrow>
            fv_data u = fv_data v))
     \<and> (\<forall>n \<in> set ns. nd_round n \<le> fd_round (fv_data v))
     \<and> nil_at (fd_chunk_id (fv_data v)) (fd_round (fv_data v)) (fd_phase (fv_data v)) \<notin> set ns
     \<and> (\<forall>u. vote_unlock v = Some u \<longrightarrow> verify_unlock X d members (fv_data v) u (prevote_fraction params) = Inr ())
     \<and> (\<forall>l. lock_of vs = Some l \<longrightarrow> fd_chunk_hash (fv_data v) \<noteq> fd_chunk_hash (qc_data l) \<longrightarrow>
          (\<exists>u. vote_unlock v = Some u \<and> fd_round (qc_data l) < fd_round (qc_data u)))
     \<and> (fd_phase (fv_data v) = Precommit \<longrightarrow>
          (\<exists>u. vote_unlock v = Some u \<and> fd_round (qc_data u) = fd_round (fv_data v)))"

definition nil_admissible :: "finality_vote list \<Rightarrow> nil_vote_data list \<Rightarrow> nil_vote_data \<Rightarrow> bool" where
  "nil_admissible vs ns n \<longleftrightarrow>
     (\<forall>m \<in> set ns. nd_round m \<le> nd_round n)
     \<and> (\<forall>u \<in> set vs. fd_round (fv_data u) \<le> nd_round n \<and> \<not> (fd_round (fv_data u) = nd_round n \<and> fd_phase (fv_data u) = nd_phase n))"

subsection \<open>Frame\<close>

lemma chunk_nils_chunk: "n \<in> set (chunk_nils c L) \<Longrightarrow> nd_chunk_id n = c"
  by (auto simp: chunk_nils_def List.map_filter_def split: signing_event.splits if_splits)

lemma chunk_votes_chunk: "v \<in> set (chunk_votes c L) \<Longrightarrow> fd_chunk_id (fv_data v) = c"
  by (auto simp: chunk_votes_def List.map_filter_def split: signing_event.splits if_splits)

definition same_slots :: "signing_engine \<Rightarrow> signing_engine \<Rightarrow> bls_public_key \<Rightarrow> u64 \<Rightarrow> bool" where
  "same_slots e e' k c \<longleftrightarrow>
     se_journal e' (vote_key k c) = se_journal e (vote_key k c)
     \<and> (\<forall>n. nd_chunk_id n = c \<longrightarrow> se_journal e' (nil_key k n) = se_journal e (nil_key k n))"

lemma journal_tracks_frame:
  assumes "same_slots e e' k c" and "chunk_votes c L' = chunk_votes c L" and "chunk_nils c L' = chunk_nils c L"
  shows "journal_tracks S e' k L' c = journal_tracks S e k L c"
  using assms chunk_nils_chunk [of _ c L] unfolding journal_tracks_def same_slots_def
  by (auto split: option.splits)

lemma superseded_no_slot: "vote_key k c \<notin> batch_keys (superseded_lock k' data lock)" "nil_key k n \<notin> batch_keys (superseded_lock k' data lock)"
  by (auto dest: superseded_keys)

lemma reserve_vote_frame:
  assumes "reserve_vote X S e voter data proofs unlock = Inr (e', v)" and "k \<noteq> pk_public_key voter \<or> c \<noteq> fd_chunk_id data"
  shows "same_slots e e' k c"
proof -
  obtain prior :: vote_watermark and w where e': "e' = write_batch e
      (compact_round_intents (pk_public_key voter) (fd_chunk_id data) (vw_round prior) (fd_round data) (vw_locked prior)
       @ superseded_lock (pk_public_key voter) data (vw_locked prior)
       @ [(vote_key (pk_public_key voter) (fd_chunk_id data), w),
          (intent_key (pk_public_key voter) data, Some (enc (intent_codec S) (value_intent voter data proofs unlock)))])"
    using assms(1) unfolding reserve_vote_Inr by blast
  show ?thesis unfolding same_slots_def
  proof (intro conjI allI impI)
    show "se_journal e' (vote_key k c) = se_journal e (vote_key k c)"
      unfolding e' by (rule journal_untouched) (use assms(2) superseded_no_slot in auto)
    show "se_journal e' (nil_key k n) = se_journal e (nil_key k n)" if "nd_chunk_id n = c" for n
      unfolding e' by (rule journal_untouched) (use assms(2) that superseded_no_slot compaction_keeps_nils in auto)
  qed
qed

lemma reserve_nil_vote_frame:
  assumes "reserve_nil_vote X S e voter data = Inr (e', v)" and "k \<noteq> pk_public_key voter \<or> c \<noteq> nd_chunk_id data"
  shows "same_slots e e' k c"
proof -
  obtain prior :: vote_watermark and lock w b where e': "e' = write_batch e
      (compact_round_intents (pk_public_key voter) (nd_chunk_id data) (vw_round prior) (nd_round data) lock
       @ [(vote_key (pk_public_key voter) (nd_chunk_id data), w), (nil_key (pk_public_key voter) data, Some b)])"
    using reserve_nil_vote_Inr [OF assms(1)] by blast
  show ?thesis unfolding same_slots_def
  proof (intro conjI allI impI)
    show "se_journal e' (vote_key k c) = se_journal e (vote_key k c)"
      unfolding e' by (rule journal_untouched) (use assms(2) in auto)
    show "se_journal e' (nil_key k n) = se_journal e (nil_key k n)" if "nd_chunk_id n = c" for n
      unfolding e' by (rule journal_untouched) (use assms(2) that compaction_keeps_nils in auto)
  qed
qed

lemma compact_message_keys:
  "compact_message_intents S e tag k c r = Inr batch \<Longrightarrow> key \<in> batch_keys batch \<Longrightarrow>
     key = message_watermark_key tag k c \<or> (\<exists>r'. key = round_message_key tag k c r')"
  by (auto simp: compact_message_intents_def Let_def res_bind_Inr_iff split: option.splits if_splits)

lemma reserve_round_message_frame:
  assumes "reserve_round_message X S e voter tag c r m = Inr (e', sig)" and "message_tag tag"
  shows "same_slots e e' k c'"
proof -
  obtain batch b where batch: "compact_message_intents S e tag (pk_public_key voter) c r = Inr batch"
    and e': "e' = write_batch e (batch @ [(round_message_key tag (pk_public_key voter) c r, Some b)])"
    using assms(1) by (auto simp: reserve_round_message_def Let_def res_bind_Inr_iff split: if_splits)
  have "vote_key k c' \<notin> batch_keys (batch @ [(round_message_key tag (pk_public_key voter) c r, Some b)])"
    "nil_key k n \<notin> batch_keys (batch @ [(round_message_key tag (pk_public_key voter) c r, Some b)])" for n
    using assms(2) by (auto simp: message_keys_disjoint' dest: compact_message_keys [OF batch])
  then show ?thesis unfolding same_slots_def e' using journal_untouched by blast
qed

lemma sign_proposal_frame:
  "sign_proposal_durable S e voter slot h = Inr (e', sig) \<Longrightarrow> same_slots e e' k c"
  by (auto simp: sign_proposal_durable_def Let_def res_bind_Inr_iff same_slots_def write_batch_def)

subsection \<open>Every reservation keeps the tracking\<close>

lemma validate_watermark_entry:
  assumes "validate_vote_watermark X S e w = Inr ()" and "watermark_entry w phase = Some i"
  shows "fd_chunk_id (vi_data i) = vw_chunk_id w \<and> fd_round (vi_data i) = vw_round w \<and> fd_phase (vi_data i) = phase"
    and "se_journal e (intent_key (vw_identity w) (vi_data i)) \<noteq> None"
  using assms
  by (cases phase;
      auto simp: validate_vote_watermark_def watermark_entry_def validate_watermark_intent_def res_bind_Inr_iff split: if_splits)+

lemma watermark_entry_fresh [simp]:
  "watermark_entry w phase = None" if "vw_prevote w = None" "vw_precommit w = None"
  using that by (cases phase) (simp_all add: watermark_entry_def)

lemma set_entry_simps [simp]:
  "vw_round (set_watermark_entry w i) = vw_round w"
  "vw_locked (set_watermark_entry w i) = (if fd_phase (vi_data i) = Precommit then vi_unlock_quorum i else vw_locked w)"
  "watermark_entry (set_watermark_entry w i) phase = (if phase = fd_phase (vi_data i) then Some i else watermark_entry w phase)"
  by (cases phase; cases "fd_phase (vi_data i)"; simp add: set_watermark_entry_def watermark_entry_def)+

lemma set_entry_ok: "watermark_ok w \<Longrightarrow> unlock_ok (vi_unlock_quorum i) \<Longrightarrow> watermark_ok (set_watermark_entry w i)"
  by (cases "fd_phase (vi_data i)") (simp_all add: set_watermark_entry_def watermark_ok_def intent_ok_def)

lemma advance_ok: "watermark_advance prior r = Inr w \<Longrightarrow> watermark_ok prior \<Longrightarrow> watermark_ok w"
  by (auto simp: watermark_advance_def watermark_ok_def intent_ok_def split: if_splits)

context signing_borsh
begin

lemma loaded_watermark:
  assumes tracks: "journal_tracks S e (pk_public_key voter) L c"
    and load: "load_vote_watermark X S e voter c r = Inr prior"
  shows "watermark_ok prior" and "watermark_tracks prior (chunk_votes c L)"
    and "n \<in> set (chunk_nils c L) \<Longrightarrow> nd_round n \<le> vw_round prior
      \<and> (nd_round n = vw_round prior \<longrightarrow> se_journal e (nil_key (pk_public_key voter) n) \<noteq> None)"
    and "watermark_entry prior phase = Some i \<Longrightarrow>
      se_journal e (intent_key (pk_public_key voter) (vote_at c (vw_round prior) phase)) \<noteq> None"
proof -
  have "watermark_ok prior \<and> watermark_tracks prior (chunk_votes c L)
    \<and> (\<forall>n \<in> set (chunk_nils c L). nd_round n \<le> vw_round prior
        \<and> (nd_round n = vw_round prior \<longrightarrow> se_journal e (nil_key (pk_public_key voter) n) \<noteq> None))
    \<and> (\<forall>phase i. watermark_entry prior phase = Some i \<longrightarrow>
        se_journal e (intent_key (pk_public_key voter) (vote_at c (vw_round prior) phase)) \<noteq> None)"
  proof (cases "se_journal e (vote_key (pk_public_key voter) c)")
    case None
    then have votes: "chunk_votes c L = []" "chunk_nils c L = []" using tracks by (simp_all add: journal_tracks_def)
    have prior: "prior = \<lparr>vw_spec = cd_chain_spec_hash (se_domain e), vw_identity = pk_public_key voter, vw_chunk_id = c,
        vw_round = r, vw_prevote = None, vw_precommit = None, vw_locked = None\<rparr>"
      using load None by (simp add: load_vote_watermark_def read_vote_watermark_def)
    show ?thesis unfolding prior using votes
      by (simp add: watermark_ok_def intent_ok_def unlock_ok_def watermark_tracks_def)
  next
    case (Some b)
    then obtain w where w: "b = enc (watermark_codec S) w" "watermark_ok w" "watermark_tracks w (chunk_votes c L)"
      and nils: "\<forall>n \<in> set (chunk_nils c L). nd_round n \<le> vw_round w
        \<and> (nd_round n = vw_round w \<longrightarrow> se_journal e (nil_key (pk_public_key voter) n) \<noteq> None)"
      using tracks by (auto simp: journal_tracks_def)
    have valid: "validate_vote_watermark X S e w = Inr ()" "vw_identity w = pk_public_key voter" "vw_chunk_id w = c"
      and prior: "prior = w"
      using load Some w(1) watermark_law [OF w(2)]
      by (auto simp: load_vote_watermark_def read_vote_watermark_def res_bind_Inr_iff split: if_splits)
    have "se_journal e (intent_key (pk_public_key voter) (vote_at c (vw_round w) phase)) \<noteq> None"
      if i: "watermark_entry w phase = Some i" for phase i
    proof -
      have "intent_key (pk_public_key voter) (vote_at c (vw_round w) phase) = intent_key (vw_identity w) (vi_data i)"
        using validate_watermark_entry(1) [OF valid(1) i] by (simp add: valid vote_at_def)
      then show ?thesis using validate_watermark_entry(2) [OF valid(1) i] by metis
    qed
    then show ?thesis unfolding prior using w nils by blast
  qed
  then show "watermark_ok prior" "watermark_tracks prior (chunk_votes c L)"
    "n \<in> set (chunk_nils c L) \<Longrightarrow> nd_round n \<le> vw_round prior
      \<and> (nd_round n = vw_round prior \<longrightarrow> se_journal e (nil_key (pk_public_key voter) n) \<noteq> None)"
    "watermark_entry prior phase = Some i \<Longrightarrow>
      se_journal e (intent_key (pk_public_key voter) (vote_at c (vw_round prior) phase)) \<noteq> None"
    by blast+
qed

lemma reserve_vote_step:
  assumes tracks: "journal_tracks S e (pk_public_key voter) L (fd_chunk_id data)"
    and ok: "reserve_vote X S e voter data proofs unlock = Inr (e', v)" and unlock: "unlock_ok unlock"
  shows "vote_admissible X (se_domain e) (se_params e) (se_validators e) (chunk_votes (fd_chunk_id data) L) (chunk_nils (fd_chunk_id data) L) v"
    and "journal_tracks S e' (pk_public_key voter) (L @ [SignedVote v]) (fd_chunk_id data)"
proof -
  let ?k = "pk_public_key voter" and ?c = "fd_chunk_id data" and ?i = "value_intent voter data proofs unlock"
  let ?vs = "chunk_votes ?c L" and ?ns = "chunk_nils ?c L"
  obtain prior w where nil: "se_journal e (nil_key ?k (nil_at ?c (fd_round data) (fd_phase data))) = None"
    and load: "load_vote_watermark X S e voter ?c (fd_round data) = Inr prior"
    and valid: "validate_vote_unlock X e ?i (vw_locked prior) = Inr ()"
    and adv: "watermark_advance prior (fd_round data) = Inr w"
    and entry: "\<And>saved. watermark_entry w (fd_phase data) = Some saved \<Longrightarrow> saved = ?i"
    and e': "e' = write_batch e
        (compact_round_intents ?k ?c (vw_round prior) (fd_round data) (vw_locked prior) @ superseded_lock ?k data (vw_locked prior)
         @ [(vote_key ?k ?c, Some (enc (watermark_codec S) (set_watermark_entry w ?i))),
            (intent_key ?k data, Some (enc (intent_codec S) ?i))])"
    and v: "v = sign_reserved_value_vote X e' voter data ?i"
    using ok unfolding reserve_vote_Inr by blast
  note prior = loaded_watermark [OF tracks load]
  note adv' = watermark_advance_Inr [OF adv]
  have vv: "fv_data v = data" "vote_unlock v = unlock" by (simp_all add: v)
  have old: "fd_round (fv_data u) \<le> fd_round data
      \<and> (fd_round (fv_data u) = fd_round data \<longrightarrow>
          (\<exists>i. watermark_entry w (fd_phase (fv_data u)) = Some i \<and> vi_data i = fv_data u))" if "u \<in> set ?vs" for u
    using prior(2) that adv' by (auto simp: watermark_tracks_def split: if_splits)
  have lock: "vw_locked prior = lock_of ?vs" using prior(2) by (simp add: watermark_tracks_def)
  have nils: "nd_round n = fd_round data \<Longrightarrow> se_journal e (nil_key ?k n) \<noteq> None \<and> vw_round prior = fd_round data"
    "nd_round n \<le> fd_round data" if "n \<in> set ?ns" for n
    using prior(3) [OF that] adv' by auto
  have same: "fv_data u = data" if "u \<in> set ?vs" "fd_round (fv_data u) = fd_round data" "fd_phase (fv_data u) = fd_phase data" for u
    using old [OF that(1)] that entry by fastforce
  have "nil_at ?c (fd_round data) (fd_phase data) \<notin> set ?ns" using nil nils(1) [of "nil_at ?c (fd_round data) (fd_phase data)"] by (auto simp: nil_at_def)
  with old same nils(2) valid lock show "vote_admissible X (se_domain e) (se_params e) (se_validators e) ?vs ?ns v"
    unfolding vote_admissible_def vv validate_vote_unlock_Inr verify_bft_unlock_quorum_def by simp
  have stored: "se_journal e' (vote_key ?k ?c) = Some (enc (watermark_codec S) (set_watermark_entry w ?i))"
    unfolding e' append_assoc [symmetric] journal_write_two by simp
  have "watermark_tracks (set_watermark_entry w ?i) (?vs @ [v])"
    using old same [symmetric] lock adv' unfolding watermark_tracks_def by (auto simp: vv)
  moreover have "watermark_ok (set_watermark_entry w ?i)"
    by (rule set_entry_ok [OF advance_ok [OF adv prior(1)]]) (simp add: unlock)
  moreover have "se_journal e' (nil_key ?k n) \<noteq> None" if n: "n \<in> set ?ns" "nd_round n = fd_round data" for n
  proof -
    have "se_journal e' (nil_key ?k n) = se_journal e (nil_key ?k n)" unfolding e'
      by (rule journal_untouched) (use superseded_no_slot nils(1) [OF n] in \<open>auto dest: compaction_keeps_nils\<close>)
    then show ?thesis using nils(1) [OF n] by simp
  qed
  ultimately show "journal_tracks S e' ?k (L @ [SignedVote v]) ?c"
    using stored adv' nils(2) by (auto simp: journal_tracks_def vv)
qed

lemma reserve_nil_vote_step:
  assumes tracks: "journal_tracks S e (pk_public_key voter) L (nd_chunk_id data)"
    and ok: "reserve_nil_vote X S e voter data = Inr (e', v)"
  shows "nil_admissible (chunk_votes (nd_chunk_id data) L) (chunk_nils (nd_chunk_id data) L) data"
    and "journal_tracks S e' (pk_public_key voter) (L @ [SignedNil v]) (nd_chunk_id data)"
proof -
  let ?k = "pk_public_key voter" and ?c = "nd_chunk_id data"
  let ?vs = "chunk_votes ?c L" and ?ns = "chunk_nils ?c L"
  obtain prior w b where free: "se_journal e (intent_key ?k (vote_at ?c (nd_round data) (nd_phase data))) = None"
    and load: "load_vote_watermark X S e voter ?c (nd_round data) = Inr prior"
    and adv: "watermark_advance prior (nd_round data) = Inr w" and vv: "nv_data v = data"
    and e': "e' = write_batch e (compact_round_intents ?k ?c (vw_round prior) (nd_round data) (vw_locked w)
         @ [(vote_key ?k ?c, Some (enc (watermark_codec S) w)), (nil_key ?k data, Some b)])"
    using reserve_nil_vote_Inr [OF ok] by blast
  note prior = loaded_watermark [OF tracks load]
  note adv' = watermark_advance_Inr [OF adv]
  have old: "fd_round (fv_data u) \<le> nd_round data
      \<and> (fd_round (fv_data u) = nd_round data \<longrightarrow> vw_round prior = nd_round data
          \<and> (\<exists>i. watermark_entry w (fd_phase (fv_data u)) = Some i \<and> vi_data i = fv_data u))" if "u \<in> set ?vs" for u
    using prior(2) that adv' by (auto simp: watermark_tracks_def split: if_splits)
  have "fd_phase (fv_data u) \<noteq> nd_phase data" if "u \<in> set ?vs" "fd_round (fv_data u) = nd_round data" for u
    using old [OF that(1)] that(2) adv' prior(4) free by fastforce
  moreover have "nd_round n \<le> nd_round data" if "n \<in> set ?ns" for n
    using prior(3) [OF that] adv' by auto
  ultimately show "nil_admissible ?vs ?ns data" using old unfolding nil_admissible_def by blast
  have stored: "se_journal e' (vote_key ?k ?c) = Some (enc (watermark_codec S) w)"
    and nil: "se_journal e' (nil_key ?k data) = Some b"
    unfolding e' journal_write_two by simp_all
  have "watermark_tracks w ?vs" using old prior(2) adv' unfolding watermark_tracks_def by simp
  moreover have "watermark_ok w" by (rule advance_ok [OF adv prior(1)])
  moreover have "nd_round n \<le> nd_round data \<and> (nd_round n = nd_round data \<longrightarrow> se_journal e' (nil_key ?k n) \<noteq> None)"
    if n: "n \<in> set ?ns" for n
  proof (cases "n = data \<or> nd_round n \<noteq> nd_round data")
    case True
    then show ?thesis using prior(3) [OF n] adv' nil by auto
  next
    case False
    then have "se_journal e' (nil_key ?k n) = se_journal e (nil_key ?k n)" unfolding e'
      by (intro journal_untouched) (use prior(3) [OF n] adv' in \<open>auto dest: compaction_keeps_nils\<close>)
    then show ?thesis using prior(3) [OF n] adv' False by auto
  qed
  ultimately show "journal_tracks S e' ?k (L @ [SignedNil v]) ?c"
    using stored adv' nil by (auto simp: journal_tracks_def vv)
qed

end

end
