(* ===== verification/Agreement.thy ===== *)
theory Agreement
  imports Signing_Laws Accountable_Safety Codec_Instance
begin

text \<open>
  Runs of the validators that sign through the journal, and what they entail: no equivocation, and
  agreement of chunk finality. A run interleaves the signing operations of every node with expiry,
  restarts and changes of the finalized position; its history lists what each key signed, oldest
  first. Nothing is assumed of validators that do not sign through a journal.
\<close>

subsection \<open>Runs\<close>

type_synonym history = "(bls_public_key \<times> signing_event) list"

definition signed_by :: "bls_public_key \<Rightarrow> ('a \<Rightarrow> signing_event) \<Rightarrow> engine_error + signing_engine \<times> 'a \<Rightarrow> history" where
  "signed_by k f r = (case r of Inl _ \<Rightarrow> [] | Inr (_, x) \<Rightarrow> [(k, f x)])"

definition floor_kept :: "signing_engine \<Rightarrow> signing_engine \<Rightarrow> bool" where
  "floor_kept e e' \<longleftrightarrow>
     (\<forall>f'. signing_finalized_floor e' = Inr f' \<longrightarrow> (\<exists>f. signing_finalized_floor e = Inr f \<and> f \<le> f'))"

text \<open>
  \<open>home\<close> is the node that holds the journal of a key and \<open>sets\<close> the active set of every chunk. A
  node signs for a chunk under the set of that chunk. \<open>advance\<close> covers restarts, finalization and
  validator rotation: the journal is durable and the finalized position never moves back.
\<close>

inductive signing_run ::
  "bft_externals \<Rightarrow> signing_codecs \<Rightarrow> consensus_domain \<Rightarrow> consensus_params \<Rightarrow> (u64 \<Rightarrow> consensus_validator list)
     \<Rightarrow> (bls_public_key \<Rightarrow> nat) \<Rightarrow> (nat \<Rightarrow> signing_engine) \<Rightarrow> history \<Rightarrow> bool"
  for X S d params sets home where
  start: "(\<And>n. se_journal (\<sigma> n) = Map.empty \<and> se_domain (\<sigma> n) = d \<and> se_params (\<sigma> n) = params) \<Longrightarrow>
    signing_run X S d params sets home \<sigma> []"
| vote: "signing_run X S d params sets home \<sigma> H \<Longrightarrow> n = home (pk_public_key voter) \<Longrightarrow>
    se_validators (\<sigma> n) = sets (fd_chunk_id data) \<Longrightarrow> unlock_ok unlock \<Longrightarrow>
    sign_vote_durable X S retain (\<sigma> n) voter data proofs unlock = (e', r) \<Longrightarrow>
    signing_run X S d params sets home (\<sigma>(n := e'))
      (H @ signed_by (pk_public_key voter) SignedVote (reserve_vote X S (\<sigma> n) voter data proofs unlock))"
| nil: "signing_run X S d params sets home \<sigma> H \<Longrightarrow> n = home (pk_public_key voter) \<Longrightarrow>
    sign_nil_vote_durable X S keep (\<sigma> n) voter ndata = (e', nr) \<Longrightarrow>
    signing_run X S d params sets home (\<sigma>(n := e'))
      (H @ signed_by (pk_public_key voter) SignedNil (reserve_nil_vote X S (\<sigma> n) voter ndata))"
| proposal: "signing_run X S d params sets home \<sigma> H \<Longrightarrow> n = home (pk_public_key voter) \<Longrightarrow>
    reserve_round_message X S (\<sigma> n) voter PROPOSAL_MESSAGE_TAG (ch_chunk_id (bp_chunk p)) (bp_round p)
      (proposal_message X (se_domain (\<sigma> n)) p) = Inr (e', sig) \<Longrightarrow>
    signing_run X S d params sets home (\<sigma>(n := e')) (H @ [(pk_public_key voter, SignedProposal p)])"
| round_change: "signing_run X S d params sets home \<sigma> H \<Longrightarrow> n = home (pk_public_key voter) \<Longrightarrow>
    reserve_round_message X S (\<sigma> n) voter ROUND_CHANGE_MESSAGE_TAG (rc_chunk_id report) (rc_round report)
      (round_change_message X (se_domain (\<sigma> n)) report) = Inr (e', sig) \<Longrightarrow>
    signing_run X S d params sets home (\<sigma>(n := e')) (H @ [(pk_public_key voter, SignedRoundChange report)])"
| header: "signing_run X S d params sets home \<sigma> H \<Longrightarrow> n = home (pk_public_key voter) \<Longrightarrow>
    sign_proposal_durable S (\<sigma> n) voter slot h = Inr (e', sig) \<Longrightarrow>
    signing_run X S d params sets home (\<sigma>(n := e')) (H @ [(pk_public_key voter, SignedHeader slot h)])"
| expire: "signing_run X S d params sets home \<sigma> H \<Longrightarrow> signing_finalized_floor (\<sigma> n) = Inr f \<Longrightarrow>
    expired_signing_entries f keys [] = Inr batch \<Longrightarrow>
    signing_run X S d params sets home (\<sigma>(n := write_batch (\<sigma> n) batch)) H"
| advance: "signing_run X S d params sets home \<sigma> H \<Longrightarrow> se_journal e' = se_journal (\<sigma> n) \<Longrightarrow>
    se_domain e' = d \<Longrightarrow> se_params e' = params \<Longrightarrow> floor_kept (\<sigma> n) e' \<Longrightarrow>
    signing_run X S d params sets home (\<sigma>(n := e')) H"

definition events_of :: "bls_public_key \<Rightarrow> history \<Rightarrow> signing_event list" where
  "events_of k H = map snd (filter (\<lambda>x. fst x = k) H)"

lemma events_of_simps [simp]:
  "events_of k [] = []" "events_of k (H @ H') = events_of k H @ events_of k H'"
  "events_of k [(k', ev)] = (if k = k' then [ev] else [])"
  by (simp_all add: events_of_def)

subsection \<open>Expiry keeps the live positions\<close>

lemma chunk_bytes_rcat: "word_rcat (be_bytes 8 c) = c" for c :: u64
  using horner_le_bytes [of 8 c] uint_bounded [of c] by (simp add: word_rcat_def be_bytes_rev)

lemma expired_keys:
  "expired_signing_entries f keys batch = Inr batch' \<Longrightarrow> key \<in> batch_keys batch' \<Longrightarrow>
     key \<in> batch_keys batch \<or> (57 \<le> length key \<and> word_rcat (take 8 (drop 49 key)) < f)"
  by (induction f keys batch rule: expired_signing_entries.induct) (auto simp: Let_def split: if_splits)

lemma slot_chunk:
  "take 8 (drop 49 (vote_key k c)) = be_bytes 8 c" "take 8 (drop 49 (nil_key k n)) = be_bytes 8 (nd_chunk_id n)"
  by (simp_all add: journal_keys)

lemma expiry_frame:
  assumes "expired_signing_entries f keys [] = Inr batch" and "f \<le> c"
  shows "same_slots e (write_batch e batch) k c"
  using assms(2) unfolding same_slots_def
  by (auto intro!: journal_untouched simp: slot_chunk chunk_bytes_rcat dest!: expired_keys [OF assms(1)])

subsection \<open>Every run is lawful\<close>

definition event_lawful ::
  "bft_externals \<Rightarrow> consensus_domain \<Rightarrow> consensus_params \<Rightarrow> (u64 \<Rightarrow> consensus_validator list) \<Rightarrow> history
     \<Rightarrow> bls_public_key \<Rightarrow> signing_event \<Rightarrow> bool" where
  "event_lawful X d params sets H k ev =
     (case ev of
        SignedVote v \<Rightarrow>
          let c = fd_chunk_id (fv_data v); L = events_of k H
          in vote_admissible X d params (sets c) (chunk_votes c L) (chunk_nils c L) v
      | SignedNil n \<Rightarrow>
          let c = nd_chunk_id (nv_data n); L = events_of k H
          in nil_admissible (chunk_votes c L) (chunk_nils c L) (nv_data n)
      | _ \<Rightarrow> True)"

definition lawful ::
  "bft_externals \<Rightarrow> consensus_domain \<Rightarrow> consensus_params \<Rightarrow> (u64 \<Rightarrow> consensus_validator list) \<Rightarrow> history \<Rightarrow> bool" where
  "lawful X d params sets H \<longleftrightarrow> (\<forall>n < length H. event_lawful X d params sets (take n H) (fst (H ! n)) (snd (H ! n)))"

lemma lawful_Nil [simp]: "lawful X d params sets []"
  by (simp add: lawful_def)

lemma lawful_snoc [simp]:
  "lawful X d params sets (H @ [(k, ev)]) \<longleftrightarrow> lawful X d params sets H \<and> event_lawful X d params sets H k ev"
  by (auto simp: lawful_def nth_append less_Suc_eq)

definition run_inv ::
  "bft_externals \<Rightarrow> signing_codecs \<Rightarrow> consensus_domain \<Rightarrow> consensus_params \<Rightarrow> (u64 \<Rightarrow> consensus_validator list)
     \<Rightarrow> (bls_public_key \<Rightarrow> nat) \<Rightarrow> (nat \<Rightarrow> signing_engine) \<Rightarrow> history \<Rightarrow> bool" where
  "run_inv X S d params sets home \<sigma> H \<longleftrightarrow>
     (\<forall>n. se_domain (\<sigma> n) = d \<and> se_params (\<sigma> n) = params)
     \<and> (\<forall>k c f. signing_finalized_floor (\<sigma> (home k)) = Inr f \<longrightarrow> f \<le> c \<longrightarrow>
          journal_tracks S (\<sigma> (home k)) k (events_of k H) c)
     \<and> lawful X d params sets H"

lemma run_inv_update:
  assumes "run_inv X S d params sets home \<sigma> H"
    and "se_domain e' = d" "se_params e' = params" "lawful X d params sets H'"
    and "\<And>k c f. home k = n \<Longrightarrow> signing_finalized_floor e' = Inr f \<Longrightarrow> f \<le> c \<Longrightarrow> journal_tracks S e' k (events_of k H') c"
    and "\<And>k. home k \<noteq> n \<Longrightarrow> events_of k H' = events_of k H"
  shows "run_inv X S d params sets home (\<sigma>(n := e')) H'"
  using assms unfolding run_inv_def by auto

lemma reserve_vote_engine:
  "reserve_vote X S e voter data proofs unlock = Inr (e', v) \<Longrightarrow>
     fv_data v = data \<and> se_domain e' = se_domain e \<and> se_params e' = se_params e
     \<and> signing_finalized_floor e' = signing_finalized_floor e \<and> (\<exists>f. signing_finalized_floor e = Inr f \<and> f \<le> fd_chunk_id data)"
  unfolding reserve_vote_Inr by (auto simp: ensure_signable_Inr)

lemma reserve_nil_vote_engine:
  "reserve_nil_vote X S e voter data = Inr (e', v) \<Longrightarrow>
     nv_data v = data \<and> se_domain e' = se_domain e \<and> se_params e' = se_params e
     \<and> signing_finalized_floor e' = signing_finalized_floor e \<and> (\<exists>f. signing_finalized_floor e = Inr f \<and> f \<le> nd_chunk_id data)"
  by (drule reserve_nil_vote_Inr) (auto simp: ensure_signable_Inr)

lemma reserve_round_message_engine:
  "reserve_round_message X S e voter tag c r m = Inr (e', sig) \<Longrightarrow>
     se_domain e' = se_domain e \<and> se_params e' = se_params e \<and> signing_finalized_floor e' = signing_finalized_floor e"
  by (auto simp: reserve_round_message_def Let_def res_bind_Inr_iff split: if_splits)

lemma sign_proposal_engine:
  "sign_proposal_durable S e voter slot h = Inr (e', sig) \<Longrightarrow>
     se_domain e' = se_domain e \<and> se_params e' = se_params e \<and> signing_finalized_floor e' = signing_finalized_floor e"
  by (auto simp: sign_proposal_durable_def Let_def res_bind_Inr_iff)

lemma sign_vote_durable_state:
  "sign_vote_durable X S retain e voter data proofs unlock = (e', r) \<Longrightarrow>
     (\<exists>err. reserve_vote X S e voter data proofs unlock = Inl err) \<and> e' = e
     \<or> (\<exists>v. reserve_vote X S e voter data proofs unlock = Inr (e', v))"
  by (auto simp: sign_vote_durable_def split: sum.splits prod.splits)

lemma sign_nil_vote_durable_state:
  "sign_nil_vote_durable X S retain e voter data = (e', r) \<Longrightarrow>
     (\<exists>err. reserve_nil_vote X S e voter data = Inl err) \<and> e' = e
     \<or> (\<exists>v. reserve_nil_vote X S e voter data = Inr (e', v))"
  by (auto simp: sign_nil_vote_durable_def split: sum.splits prod.splits)

context signing_borsh
begin

lemma run_inv_vote:
  assumes inv: "run_inv X S d params sets home \<sigma> H" and n: "n = home (pk_public_key voter)"
    and ok: "reserve_vote X S (\<sigma> n) voter data proofs unlock = Inr (e', v)"
    and set: "se_validators (\<sigma> n) = sets (fd_chunk_id data)" and unlock: "unlock_ok unlock"
  shows "run_inv X S d params sets home (\<sigma>(n := e')) (H @ [(pk_public_key voter, SignedVote v)])"
proof (rule run_inv_update [OF inv])
  note eng = reserve_vote_engine [OF ok]
  have dp: "se_domain (\<sigma> n) = d" "se_params (\<sigma> n) = params" using inv by (simp_all add: run_inv_def)
  have tracks: "journal_tracks S (\<sigma> n) k (events_of k H) c"
    if "home k = n" "signing_finalized_floor e' = Inr f" "f \<le> c" for k c f
    using inv that eng unfolding run_inv_def by auto
  have "journal_tracks S (\<sigma> n) (pk_public_key voter) (events_of (pk_public_key voter) H) (fd_chunk_id data)"
    using tracks [of "pk_public_key voter"] eng n by auto
  note step = reserve_vote_step [OF this ok unlock]
  show "se_domain e' = d" "se_params e' = params" using eng dp by simp_all
  show "lawful X d params sets (H @ [(pk_public_key voter, SignedVote v)])"
    using inv step(1) eng dp set by (simp add: run_inv_def event_lawful_def Let_def)
  show "events_of k (H @ [(pk_public_key voter, SignedVote v)]) = events_of k H" if "home k \<noteq> n" for k
    using that n by auto
  fix k c f assume k: "home k = n" "signing_finalized_floor e' = Inr f" "f \<le> c"
  show "journal_tracks S e' k (events_of k (H @ [(pk_public_key voter, SignedVote v)])) c"
  proof (cases "k = pk_public_key voter \<and> c = fd_chunk_id data")
    case True
    then show ?thesis using step(2) by simp
  next
    case False
    then have "same_slots (\<sigma> n) e' k c" using reserve_vote_frame [OF ok] by blast
    then show ?thesis
      by (subst journal_tracks_frame [where L = "events_of k H"]) (use tracks [OF k] False eng in auto)
  qed
qed

lemma run_inv_nil:
  assumes inv: "run_inv X S d params sets home \<sigma> H" and n: "n = home (pk_public_key voter)"
    and ok: "reserve_nil_vote X S (\<sigma> n) voter data = Inr (e', v)"
  shows "run_inv X S d params sets home (\<sigma>(n := e')) (H @ [(pk_public_key voter, SignedNil v)])"
proof (rule run_inv_update [OF inv])
  note eng = reserve_nil_vote_engine [OF ok]
  have dp: "se_domain (\<sigma> n) = d" "se_params (\<sigma> n) = params" using inv by (simp_all add: run_inv_def)
  have tracks: "journal_tracks S (\<sigma> n) k (events_of k H) c"
    if "home k = n" "signing_finalized_floor e' = Inr f" "f \<le> c" for k c f
    using inv that eng unfolding run_inv_def by auto
  have "journal_tracks S (\<sigma> n) (pk_public_key voter) (events_of (pk_public_key voter) H) (nd_chunk_id data)"
    using tracks [of "pk_public_key voter"] eng n by auto
  note step = reserve_nil_vote_step [OF this ok]
  show "se_domain e' = d" "se_params e' = params" using eng dp by simp_all
  show "lawful X d params sets (H @ [(pk_public_key voter, SignedNil v)])"
    using inv step(1) eng by (simp add: run_inv_def event_lawful_def Let_def)
  show "events_of k (H @ [(pk_public_key voter, SignedNil v)]) = events_of k H" if "home k \<noteq> n" for k
    using that n by auto
  fix k c f assume k: "home k = n" "signing_finalized_floor e' = Inr f" "f \<le> c"
  show "journal_tracks S e' k (events_of k (H @ [(pk_public_key voter, SignedNil v)])) c"
  proof (cases "k = pk_public_key voter \<and> c = nd_chunk_id data")
    case True
    then show ?thesis using step(2) by simp
  next
    case False
    then have "same_slots (\<sigma> n) e' k c" using reserve_nil_vote_frame [OF ok] by blast
    then show ?thesis
      by (subst journal_tracks_frame [where L = "events_of k H"]) (use tracks [OF k] False eng in auto)
  qed
qed

lemma run_inv_other:
  assumes inv: "run_inv X S d params sets home \<sigma> H" and ev: "case ev of SignedVote _ \<Rightarrow> False | SignedNil _ \<Rightarrow> False | _ \<Rightarrow> True"
    and n: "n = home k0"
    and eng: "se_domain e' = se_domain (\<sigma> n) \<and> se_params e' = se_params (\<sigma> n)
      \<and> signing_finalized_floor e' = signing_finalized_floor (\<sigma> n)"
    and frame: "\<And>k c. same_slots (\<sigma> n) e' k c"
  shows "run_inv X S d params sets home (\<sigma>(n := e')) (H @ [(k0, ev)])"
proof (rule run_inv_update [OF inv])
  show "se_domain e' = d" "se_params e' = params" using inv eng by (simp_all add: run_inv_def)
  show "lawful X d params sets (H @ [(k0, ev)])"
    using inv ev by (auto simp: run_inv_def event_lawful_def split: signing_event.splits)
  show "events_of k (H @ [(k0, ev)]) = events_of k H" if "home k \<noteq> n" for k using that n by auto
  fix k c f assume k: "home k = n" "signing_finalized_floor e' = Inr f" "f \<le> c"
  have "journal_tracks S (\<sigma> n) k (events_of k H) c" using inv eng k unfolding run_inv_def by metis
  then show "journal_tracks S e' k (events_of k (H @ [(k0, ev)])) c"
    by (subst journal_tracks_frame [OF frame, where L = "events_of k H"]) (use ev in \<open>auto split: signing_event.splits\<close>)
qed

theorem run_invariant: "signing_run X S d params sets home \<sigma> H \<Longrightarrow> run_inv X S d params sets home \<sigma> H"
proof (induction rule: signing_run.induct)
  case (start \<sigma>)
  then show ?case by (simp add: run_inv_def journal_tracks_def)
next
  case (vote \<sigma> H n voter data unlock retain proofs e' r)
  from sign_vote_durable_state [OF vote.hyps(5)] show ?case
  proof (elim disjE conjE exE)
    show ?thesis if "reserve_vote X S (\<sigma> n) voter data proofs unlock = Inl err" "e' = \<sigma> n" for err
      using vote.IH that by (simp only: signed_by_def sum.case append_Nil2 fun_upd_triv)
    show ?thesis if "reserve_vote X S (\<sigma> n) voter data proofs unlock = Inr (e', v)" for v
      using run_inv_vote [OF vote.IH vote.hyps(2) that vote.hyps(3,4)] that by (simp only: signed_by_def sum.case prod.case)
  qed
next
  case (nil \<sigma> H n voter keep ndata e' nr)
  from sign_nil_vote_durable_state [OF nil.hyps(3)] show ?case
  proof (elim disjE conjE exE)
    show ?thesis if "reserve_nil_vote X S (\<sigma> n) voter ndata = Inl err" "e' = \<sigma> n" for err
      using nil.IH that by (simp only: signed_by_def sum.case append_Nil2 fun_upd_triv)
    show ?thesis if "reserve_nil_vote X S (\<sigma> n) voter ndata = Inr (e', v)" for v
      using run_inv_nil [OF nil.IH nil.hyps(2) that] that by (simp only: signed_by_def sum.case prod.case)
  qed
next
  case (proposal \<sigma> H n voter p e' sig)
  show ?case
    by (rule run_inv_other [OF proposal.IH _ proposal.hyps(2) reserve_round_message_engine [OF proposal.hyps(3)]
          reserve_round_message_frame [OF proposal.hyps(3)]]) simp_all
next
  case (round_change \<sigma> H n voter report e' sig)
  show ?case
    by (rule run_inv_other [OF round_change.IH _ round_change.hyps(2) reserve_round_message_engine [OF round_change.hyps(3)]
          reserve_round_message_frame [OF round_change.hyps(3)]]) simp_all
next
  case (header \<sigma> H n voter slot h e' sig)
  show ?case
    by (rule run_inv_other [OF header.IH _ header.hyps(2) sign_proposal_engine [OF header.hyps(3)]
          sign_proposal_frame [OF header.hyps(3)]]) simp
next
  case (expire \<sigma> H n f keys batch)
  have "journal_tracks S (write_batch (\<sigma> n) batch) k (events_of k H) c"
    if "home k = n" "signing_finalized_floor (\<sigma> n) = Inr f'" "f' \<le> c" for k c f'
    using expire.IH expire.hyps that
    by (subst journal_tracks_frame [OF expiry_frame [OF expire.hyps(3)], where L = "events_of k H"]) (auto simp: run_inv_def)
  with expire.IH show ?case by (intro run_inv_update [OF expire.IH]) (auto simp: run_inv_def)
next
  case (advance \<sigma> H e' n)
  have "same_slots (\<sigma> n) e' k c" for k c using advance.hyps by (simp add: same_slots_def)
  then have "journal_tracks S e' k (events_of k H) c" if "home k = n" "signing_finalized_floor e' = Inr f" "f \<le> c" for k c f
    using advance.IH advance.hyps(5) that
    by (subst journal_tracks_frame [where L = "events_of k H"]) (fastforce simp: run_inv_def floor_kept_def)+
  with advance show ?case by (intro run_inv_update [OF advance.IH]) (auto simp: run_inv_def)
qed

end

lemmas run_lawful = signing_borsh.run_invariant [unfolded run_inv_def, THEN conjunct2, THEN conjunct2]

subsection \<open>Signed messages\<close>

definition event_messages :: "bft_externals \<Rightarrow> consensus_domain \<Rightarrow> signing_event \<Rightarrow> bytes set" where
  "event_messages X d ev =
     (case ev of
        SignedVote v \<Rightarrow> {vote_message X d (fv_data v), attestation_message X d (hd (fv_attestations v))}
      | SignedNil n \<Rightarrow> {nil_message X d (nv_data n), nil_attestation_message X d (hd (nv_attestations n))}
      | SignedProposal p \<Rightarrow> {proposal_message X d p}
      | SignedRoundChange r \<Rightarrow> {round_change_message X d r}
      | SignedHeader slot h \<Rightarrow> {signing_message d DOMAIN_PROPOSER_SIG (be_bytes 32 h)})"

lemma signing_message_eq:
  "length t = length t' \<Longrightarrow> signing_message d t p = signing_message d t' p' \<longleftrightarrow> t = t' \<and> p = p'"
  by (simp add: signing_message_def)

lemmas domain_tags = DOMAIN_PREVOTE_def DOMAIN_PRECOMMIT_def DOMAIN_VOTE_ATTESTATION_def DOMAIN_BFT_PROPOSAL_def
  DOMAIN_BFT_NIL_def DOMAIN_BFT_NIL_ATTESTATION_def DOMAIN_BFT_ROUND_CHANGE_def DOMAIN_PROPOSER_SIG_def

lemma domain_tag_length:
  "length DOMAIN_PREVOTE = 16" "length DOMAIN_PRECOMMIT = 16" "length DOMAIN_VOTE_ATTESTATION = 16"
  "length DOMAIN_BFT_PROPOSAL = 16" "length DOMAIN_BFT_NIL = 16" "length DOMAIN_BFT_NIL_ATTESTATION = 16"
  "length DOMAIN_BFT_ROUND_CHANGE = 16" "length DOMAIN_PROPOSER_SIG = 16"
  by (simp_all add: domain_tags ascii_def)

definition vote_tag :: "finality_vote_phase \<Rightarrow> bytes" where
  "vote_tag phase = (case phase of Prevote \<Rightarrow> DOMAIN_PREVOTE | Precommit \<Rightarrow> DOMAIN_PRECOMMIT)"

lemma vote_tag_other:
  "length (vote_tag phase) = 16"
  "vote_tag phase \<noteq> DOMAIN_VOTE_ATTESTATION" "vote_tag phase \<noteq> DOMAIN_BFT_PROPOSAL" "vote_tag phase \<noteq> DOMAIN_BFT_NIL"
  "vote_tag phase \<noteq> DOMAIN_BFT_NIL_ATTESTATION" "vote_tag phase \<noteq> DOMAIN_BFT_ROUND_CHANGE" "vote_tag phase \<noteq> DOMAIN_PROPOSER_SIG"
  by (cases phase; simp add: vote_tag_def domain_tags ascii_def)+

lemma vote_message_tag: "vote_message X d data = signing_message d (vote_tag (fd_phase data)) (vote_data_bytes X data)"
  by (simp add: vote_message_def vote_tag_def)

lemma vote_message_signed:
  assumes "inj (vote_data_bytes X)" and "vote_message X d data \<in> event_messages X d ev"
  shows "\<exists>v. ev = SignedVote v \<and> fv_data v = data"
  using assms
  by (auto simp: event_messages_def vote_message_tag attestation_message_def nil_message_def nil_attestation_message_def
      proposal_message_def round_change_message_def signing_message_eq vote_tag_other domain_tag_length
      dest: injD split: signing_event.splits)

definition signed_before :: "bft_externals \<Rightarrow> consensus_domain \<Rightarrow> history \<Rightarrow> nat \<Rightarrow> bls_public_key \<Rightarrow> bytes \<Rightarrow> bool" where
  "signed_before X d H n k m \<longleftrightarrow> (\<exists>j < n. fst (H ! j) = k \<and> m \<in> event_messages X d (snd (H ! j)))"

text \<open>
  Unforgeability of the aggregate scheme, as a bound on when a verifying aggregate can exist: every
  honest key among its signers has signed the message before.
\<close>

definition honestly_signed ::
  "bft_externals \<Rightarrow> consensus_domain \<Rightarrow> bls_public_key set \<Rightarrow> history \<Rightarrow> nat \<Rightarrow> consensus_validator list \<Rightarrow> nat set
     \<Rightarrow> bytes \<Rightarrow> bool" where
  "honestly_signed X d honest H n vs I m \<longleftrightarrow>
     (\<forall>i \<in> I. cv_pubkey (vs ! i) \<in> honest \<longrightarrow> signed_before X d H n (cv_pubkey (vs ! i)) m)"

definition unlocks_unforged ::
  "bft_externals \<Rightarrow> consensus_domain \<Rightarrow> consensus_params \<Rightarrow> (u64 \<Rightarrow> consensus_validator list) \<Rightarrow> bls_public_key set
     \<Rightarrow> history \<Rightarrow> bool" where
  "unlocks_unforged X d params sets honest H \<longleftrightarrow>
     (\<forall>n < length H. \<forall>v u. snd (H ! n) = SignedVote v \<longrightarrow> vote_unlock v = Some u \<longrightarrow>
        (let vs = sets (fd_chunk_id (qc_data u)) in
         verify_quorum X d vs u (prevote_fraction params) = Inr () \<longrightarrow>
         honestly_signed X d honest H n vs (qc_signers vs u) (vote_message X d (qc_data u))))"

subsection \<open>Votes by position in the history\<close>

lemma chunk_votes_take:
  assumes "n \<le> length H"
  shows "u \<in> set (chunk_votes c (events_of k (take n H))) \<longleftrightarrow>
    (\<exists>m < n. H ! m = (k, SignedVote u)) \<and> fd_chunk_id (fv_data u) = c"
  using assms
proof (induction n)
  case (Suc n)
  then have "take (Suc n) H = take n H @ [H ! n]" by (simp add: take_Suc_conv_app_nth)
  with Suc show ?case by (cases "H ! n") (auto simp: less_Suc_eq split: signing_event.splits)
qed simp

lemma lock_position:
  assumes "n \<le> length H" and "m < n" and "H ! m = (k, SignedVote p)"
    and "fd_phase (fv_data p) = Precommit" and "fd_chunk_id (fv_data p) = c"
  shows "\<exists>m' q. m \<le> m' \<and> m' < n \<and> H ! m' = (k, SignedVote q) \<and> fd_phase (fv_data q) = Precommit
    \<and> fd_chunk_id (fv_data q) = c \<and> lock_of (chunk_votes c (events_of k (take n H))) = vote_unlock q"
  using assms(1,2)
proof (induction n)
  case (Suc n)
  have split: "take (Suc n) H = take n H @ [H ! n]" using Suc.prems by (simp add: take_Suc_conv_app_nth)
  show ?case
  proof (cases "\<exists>q. H ! n = (k, SignedVote q) \<and> fd_phase (fv_data q) = Precommit \<and> fd_chunk_id (fv_data q) = c")
    case True
    then show ?thesis using Suc.prems by (intro exI [of _ n]) (auto simp: split)
  next
    case False
    then have "m < n" using assms Suc.prems by (metis less_antisym)
    then obtain m' q where "m \<le> m'" "m' < n" "H ! m' = (k, SignedVote q)" "fd_phase (fv_data q) = Precommit"
      "fd_chunk_id (fv_data q) = c" "lock_of (chunk_votes c (events_of k (take n H))) = vote_unlock q"
      using Suc.IH Suc.prems by auto
    moreover have "lock_of (chunk_votes c (events_of k (take (Suc n) H))) = lock_of (chunk_votes c (events_of k (take n H)))"
      using False by (cases "H ! n") (auto simp: split split: signing_event.splits)
    ultimately show ?thesis by (metis less_SucI)
  qed
qed simp

lemma lawful_vote:
  assumes "lawful X d params sets H" and "n < length H" and "H ! n = (k, SignedVote v)" and "fd_chunk_id (fv_data v) = c"
  shows "vote_admissible X d params (sets c) (chunk_votes c (events_of k (take n H))) (chunk_nils c (events_of k (take n H))) v"
  using assms by (auto simp: lawful_def event_lawful_def Let_def)

lemma lawful_order:
  assumes "lawful X d params sets H" and "n < length H" and "H ! n = (k, SignedVote v)"
    and "m < n" and "H ! m = (k, SignedVote u)" and "fd_chunk_id (fv_data u) = fd_chunk_id (fv_data v)"
  shows "fd_round (fv_data u) \<le> fd_round (fv_data v)
    \<and> (fd_round (fv_data u) = fd_round (fv_data v) \<longrightarrow> fd_phase (fv_data u) = fd_phase (fv_data v) \<longrightarrow> fv_data u = fv_data v)"
  using lawful_vote [OF assms(1,2,3) refl] chunk_votes_take [of n H u] assms
  unfolding vote_admissible_def by (metis less_imp_le)

lemma chunk_nils_take:
  assumes "n \<le> length H"
  shows "(\<exists>m < n. \<exists>v. H ! m = (k, SignedNil v) \<and> nv_data v = x) \<and> nd_chunk_id x = c \<longleftrightarrow>
    x \<in> set (chunk_nils c (events_of k (take n H)))"
  using assms
proof (induction n)
  case (Suc n)
  then have "take (Suc n) H = take n H @ [H ! n]" by (simp add: take_Suc_conv_app_nth)
  with Suc show ?case by (cases "H ! n") (auto simp: less_Suc_eq split: signing_event.splits)
qed simp

text \<open>The position a vote or nil vote occupies, and the candidate it names there (none for nil).\<close>

definition signed_position :: "signing_event \<Rightarrow> (u64 \<times> u32 \<times> finality_vote_phase \<times> hash option) option" where
  "signed_position ev =
     (case ev of
        SignedVote v \<Rightarrow> Some (fd_chunk_id (fv_data v), fd_round (fv_data v), fd_phase (fv_data v), Some (fd_chunk_hash (fv_data v)))
      | SignedNil n \<Rightarrow> Some (nd_chunk_id (nv_data n), nd_round (nv_data n), nd_phase (nv_data n), None)
      | _ \<Rightarrow> None)"

lemma lawful_nil:
  assumes "lawful X d params sets H" and "n < length H" and "H ! n = (k, SignedNil v)" and "nd_chunk_id (nv_data v) = c"
  shows "nil_admissible (chunk_votes c (events_of k (take n H))) (chunk_nils c (events_of k (take n H))) (nv_data v)"
  using assms by (auto simp: lawful_def event_lawful_def Let_def)

lemma vote_positions:
  assumes "vote_admissible X d params members vs ns v" and "fd_chunk_id (fv_data v) = c"
  shows "u \<in> set vs \<Longrightarrow> fd_round (fv_data u) \<le> fd_round (fv_data v)
      \<and> (fd_round (fv_data u) = fd_round (fv_data v) \<and> fd_phase (fv_data u) = fd_phase (fv_data v) \<longrightarrow>
          fd_chunk_hash (fv_data u) = fd_chunk_hash (fv_data v))"
    and "n \<in> set ns \<Longrightarrow> nd_chunk_id n = c \<Longrightarrow> nd_round n \<le> fd_round (fv_data v)
      \<and> \<not> (nd_round n = fd_round (fv_data v) \<and> nd_phase n = fd_phase (fv_data v))"
proof -
  show "fd_round (fv_data u) \<le> fd_round (fv_data v)
      \<and> (fd_round (fv_data u) = fd_round (fv_data v) \<and> fd_phase (fv_data u) = fd_phase (fv_data v) \<longrightarrow>
          fd_chunk_hash (fv_data u) = fd_chunk_hash (fv_data v))" if "u \<in> set vs"
    using assms(1) that unfolding vote_admissible_def by metis
  have "nil_at c (fd_round (fv_data v)) (fd_phase (fv_data v)) \<notin> set ns" and "\<forall>n \<in> set ns. nd_round n \<le> fd_round (fv_data v)"
    using assms unfolding vote_admissible_def by blast+
  then show "nd_round n \<le> fd_round (fv_data v) \<and> \<not> (nd_round n = fd_round (fv_data v) \<and> nd_phase n = fd_phase (fv_data v))"
    if "n \<in> set ns" "nd_chunk_id n = c"
    using that by (cases n) (auto simp: nil_at_def)
qed

lemma lawful_positions:
  assumes "lawful X d params sets H" and "n < length H" and "m < n" and "H ! m = (k, ev)" and "H ! n = (k, ev')"
    and "signed_position ev = Some (c, r, p, x)" and "signed_position ev' = Some (c, r', p', x')"
  shows "r \<le> r' \<and> (r = r' \<and> p = p' \<longrightarrow> x = x')"
proof -
  let ?vs = "chunk_votes c (events_of k (take n H))" and ?ns = "chunk_nils c (events_of k (take n H))"
  have n: "n \<le> length H" using assms(2) by simp
  consider u where "ev = SignedVote u" | u where "ev = SignedNil u"
    using assms(6) by (cases ev) (simp_all add: signed_position_def)
  then consider u where "u \<in> set ?vs" "r = fd_round (fv_data u)" "p = fd_phase (fv_data u)" "x = Some (fd_chunk_hash (fv_data u))"
    | u where "u \<in> set ?ns" "nd_chunk_id u = c" "r = nd_round u" "p = nd_phase u" "x = None"
  proof cases
    case 1
    then show thesis using that(1) [of u] assms(3,4,6) chunk_votes_take [OF n, of u c k] by (auto simp: signed_position_def)
  next
    case 2
    then show thesis using that(2) [of "nv_data u"] assms(3,4,6) chunk_nils_take [OF n, of k "nv_data u" c]
      by (auto simp: signed_position_def)
  qed
  note old = this
  show ?thesis
  proof (cases ev')
    case (SignedVote v)
    then have v: "fd_chunk_id (fv_data v) = c" "r' = fd_round (fv_data v)" "p' = fd_phase (fv_data v)"
      "x' = Some (fd_chunk_hash (fv_data v))" using assms(7) by (simp_all add: signed_position_def)
    note ok = vote_positions [OF lawful_vote [OF assms(1,2) assms(5) [unfolded SignedVote] v(1)] v(1)]
    from old show ?thesis by cases (use ok v in simp_all)
  next
    case (SignedNil v)
    then have v: "nd_chunk_id (nv_data v) = c" "r' = nd_round (nv_data v)" "p' = nd_phase (nv_data v)" "x' = None"
      using assms(7) by (simp_all add: signed_position_def)
    have ok: "nil_admissible ?vs ?ns (nv_data v)"
      by (rule lawful_nil [OF assms(1,2) assms(5) [unfolded SignedNil] v(1)])
    from old show ?thesis by cases (use ok v in \<open>simp_all add: nil_admissible_def\<close>)
  qed (use assms(7) in \<open>simp_all add: signed_position_def\<close>)
qed

subsection \<open>Agreement\<close>

definition faulty :: "consensus_validator list \<Rightarrow> bls_public_key set \<Rightarrow> nat set" where
  "faulty vs honest = {i \<in> active_set vs. cv_pubkey (vs ! i) \<notin> honest}"

lemma honest_member:
  assumes "I \<subseteq> active_set vs" and "weight_of vs (active_set vs) \<le> 3 * weight_of vs I"
    and "3 * weight_of vs (faulty vs honest) < weight_of vs (active_set vs)"
  obtains i where "i \<in> I" and "cv_pubkey (vs ! i) \<in> honest"
proof -
  have "\<not> I \<subseteq> faulty vs honest"
    using weight_of_mono [of "faulty vs honest" I vs] assms finite_subset [of "faulty vs honest" "active_set vs"] finite_active_set
    by (auto simp: faulty_def)
  then show thesis using that assms(1) by (auto simp: faulty_def)
qed

lemma signed_vote_position:
  assumes "inj (vote_data_bytes X)" and "honestly_signed X d honest H n vs I (vote_message X d data)"
    and "i \<in> I" and "cv_pubkey (vs ! i) \<in> honest"
  obtains m v where "m < n" and "H ! m = (cv_pubkey (vs ! i), SignedVote v)" and "fv_data v = data"
  using assms vote_message_signed [OF assms(1)] unfolding honestly_signed_def signed_before_def
  by (metis prod.collapse)

text \<open>
  The lock an honest precommitter of \<open>a\<close> holds when it later votes: it is for the hash of \<open>a\<close> as long as
  none of its earlier votes left that hash.
\<close>

lemma held_lock:
  assumes law: "lawful X d params sets H" and inj: "inj (vote_data_bytes X)" and id: "fc_chunk_id a = c"
    and signed_a: "honestly_signed X d honest H (length H) (sets c) (cert_signers (sets c) a Precommit)
      (vote_message X d (cert_vote_data a Precommit))"
    and i: "i \<in> cert_signers (sets c) a Precommit" "cv_pubkey (sets c ! i) \<in> honest"
    and n: "n < length H" "H ! n = (cv_pubkey (sets c ! i), SignedVote v)"
    and v: "fd_chunk_id (fv_data v) = c" "fc_round a < fd_round (fv_data v)"
    and kept: "\<And>m q. m < n \<Longrightarrow> H ! m = (cv_pubkey (sets c ! i), SignedVote q) \<Longrightarrow> fd_chunk_id (fv_data q) = c \<Longrightarrow>
      fc_round a < fd_round (fv_data q) \<Longrightarrow> fd_chunk_hash (fv_data q) = fc_chunk_hash a"
  obtains l where "lock_of (chunk_votes c (events_of (cv_pubkey (sets c ! i)) (take n H))) = Some l"
    and "fc_round a \<le> fd_round (qc_data l)" and "fd_chunk_hash (qc_data l) = fc_chunk_hash a"
proof -
  let ?k = "cv_pubkey (sets c ! i)"
  obtain m p where p: "m < length H" "H ! m = (?k, SignedVote p)" "fv_data p = cert_vote_data a Precommit"
    by (rule signed_vote_position [OF inj signed_a i])
  have data: "fd_chunk_id (fv_data p) = c" "fd_round (fv_data p) = fc_round a" "fd_phase (fv_data p) = Precommit"
    "fd_chunk_hash (fv_data p) = fc_chunk_hash a"
    using p(3) id by (simp_all add: cert_vote_data_def)
  have "m < n"
  proof (rule ccontr)
    assume "\<not> m < n"
    then consider "n = m" | "n < m" by linarith
    then show False using lawful_order [OF law p(1,2) _ n(2)] p(2) n(2) v data by cases auto
  qed
  then obtain m' q where q: "m \<le> m'" "m' < n" "H ! m' = (?k, SignedVote q)" "fd_phase (fv_data q) = Precommit"
    "fd_chunk_id (fv_data q) = c" "lock_of (chunk_votes c (events_of ?k (take n H))) = vote_unlock q"
    using lock_position [of n H m ?k p c] n(1) p(2) data by auto
  have held: "fc_round a \<le> fd_round (fv_data q) \<and> fd_chunk_hash (fv_data q) = fc_chunk_hash a"
  proof (cases "m = m'")
    case True
    then show ?thesis using p(2) q(3) data by simp
  next
    case False
    then have "fd_round (fv_data p) \<le> fd_round (fv_data q)
        \<and> (fd_round (fv_data p) = fd_round (fv_data q) \<longrightarrow> fv_data p = fv_data q)"
      using lawful_order [OF law _ q(3) _ p(2)] q n(1) data by simp
    then show ?thesis using kept [OF q(2,3,5)] data by (metis order_le_less)
  qed
  have "vote_admissible X d params (sets c) (chunk_votes c (events_of ?k (take m' H))) (chunk_nils c (events_of ?k (take m' H))) q"
    by (rule lawful_vote [OF law _ q(3,5)]) (use q(2) n(1) in simp)
  then obtain l where "vote_unlock q = Some l" "fd_round (qc_data l) = fd_round (fv_data q)"
      "verify_unlock X d (sets c) (fv_data q) l (prevote_fraction params) = Inr ()"
    using q(4) by (auto simp: vote_admissible_def)
  then show thesis using that [of l] q(6) held by (simp add: verify_unlock_iff)
qed

lemma locked_hash_kept:
  assumes law: "lawful X d params sets H" and unforged: "unlocks_unforged X d params sets honest H"
    and inj: "inj (vote_data_bytes X)"
    and a: "verify_finality X d params (sets c) chunk_a a = Inr ()" "fc_chunk_id a = c"
    and signed_a: "honestly_signed X d honest H (length H) (sets c) (cert_signers (sets c) a Precommit)
      (vote_message X d (cert_vote_data a Precommit))"
    and few: "3 * weight_of (sets c) (faulty (sets c) honest) < weight_of (sets c) (active_set (sets c))"
    and n: "n < length H" "H ! n = (cv_pubkey (sets c ! i), SignedVote v)"
    and i: "i \<in> cert_signers (sets c) a Precommit" "cv_pubkey (sets c ! i) \<in> honest"
    and v: "fd_chunk_id (fv_data v) = c" "fc_round a < fd_round (fv_data v)"
  shows "fd_chunk_hash (fv_data v) = fc_chunk_hash a"
  using n i v
proof (induction n arbitrary: i v rule: less_induct)
  case (less n)
  let ?k = "cv_pubkey (sets c ! i)"
  obtain l where q: "lock_of (chunk_votes c (events_of ?k (take n H))) = Some l"
    "fc_round a \<le> fd_round (qc_data l)" "fd_chunk_hash (qc_data l) = fc_chunk_hash a"
    by (rule held_lock [OF law inj a(2) signed_a less.prems(3,4,1,2,5,6)])
      (rule less.IH [OF _ less_trans [OF _ less.prems(1)] _ less.prems(3,4)])
  show ?case
  proof (rule ccontr)
    assume differs: "fd_chunk_hash (fv_data v) \<noteq> fc_chunk_hash a"
    then obtain u where u: "vote_unlock v = Some u" "fd_round (qc_data l) < fd_round (qc_data u)"
      "verify_unlock X d (sets c) (fv_data v) u (prevote_fraction params) = Inr ()"
      using lawful_vote [OF law less.prems(1,2,5)] q(1,3) by (auto simp: vote_admissible_def)
    have quorum: "verify_quorum X d (sets c) u (prevote_fraction params) = Inr ()" "fd_chunk_id (qc_data u) = c"
      "fd_chunk_hash (qc_data u) \<noteq> fc_chunk_hash a" "fc_round a < fd_round (qc_data u)"
      using u(2,3) q(2) differs less.prems(5) by (auto simp: verify_unlock_iff)
    have "honestly_signed X d honest H n (sets c) (qc_signers (sets c) u) (vote_message X d (qc_data u))"
      using unforged less.prems(1,2) u(1) quorum(1,2) by (auto simp: unlocks_unforged_def Let_def)
    note signed_u = this
    obtain j where j: "j \<in> cert_signers (sets c) a Precommit \<inter> qc_signers (sets c) u" "cv_pubkey (sets c ! j) \<in> honest"
      by (rule honest_member [OF _ quorum_intersection [OF verified_cert_weight(1) [OF a(1)] verify_quorum_weight(1) [OF quorum(1)]
          verified_cert_weight(2) [OF a(1)] verify_quorum_weight(2) [OF quorum(1)]] few])
        (use verified_cert_weight(1) [OF a(1)] in blast)
    obtain m v' where m: "m < n" "H ! m = (cv_pubkey (sets c ! j), SignedVote v')" "fv_data v' = qc_data u"
      by (rule signed_vote_position [OF inj signed_u _ j(2)]) (use j(1) in blast)
    show False using less.IH [OF m(1) _ m(2) _ j(2)] m less.prems(1) j(1) quorum by simp
  qed
qed

lemma later_certificate_agrees:
  assumes law: "lawful X d params sets H" and unforged: "unlocks_unforged X d params sets honest H"
    and inj: "inj (vote_data_bytes X)"
    and a: "verify_finality X d params (sets c) chunk_a a = Inr ()" "fc_chunk_id a = c"
    and b: "verify_finality X d params (sets c) chunk_b b = Inr ()" "fc_chunk_id b = c"
    and signed_a: "honestly_signed X d honest H (length H) (sets c) (cert_signers (sets c) a Precommit)
      (vote_message X d (cert_vote_data a Precommit))"
    and signed_b: "honestly_signed X d honest H (length H) (sets c) (cert_signers (sets c) b Precommit)
      (vote_message X d (cert_vote_data b Precommit))"
    and few: "3 * weight_of (sets c) (faulty (sets c) honest) < weight_of (sets c) (active_set (sets c))"
    and rounds: "fc_round a \<le> fc_round b"
  shows "fc_chunk_hash a = fc_chunk_hash b"
proof -
  obtain i where i: "i \<in> cert_signers (sets c) a Precommit \<inter> cert_signers (sets c) b Precommit" "cv_pubkey (sets c ! i) \<in> honest"
    by (rule honest_member [OF _ quorum_intersection [OF verified_cert_weight(1) [OF a(1)] verified_cert_weight(1) [OF b(1)]
        verified_cert_weight(2) [OF a(1)] verified_cert_weight(2) [OF b(1)]] few])
      (use verified_cert_weight(1) [OF a(1)] in blast)
  obtain m p where p: "m < length H" "H ! m = (cv_pubkey (sets c ! i), SignedVote p)" "fv_data p = cert_vote_data a Precommit"
    by (rule signed_vote_position [OF inj signed_a _ i(2)]) (use i(1) in blast)
  obtain n q where q: "n < length H" "H ! n = (cv_pubkey (sets c ! i), SignedVote q)" "fv_data q = cert_vote_data b Precommit"
    by (rule signed_vote_position [OF inj signed_b _ i(2)]) (use i(1) in blast)
  show ?thesis
  proof (cases "fc_round a = fc_round b")
    case True
    have "fv_data p = fv_data q"
      using lawful_order [OF law p(1,2) _ q(2)] lawful_order [OF law q(1,2) _ p(2)] p q True a(2) b(2)
      by (cases m n rule: linorder_cases) (auto simp: cert_vote_data_def)
    then show ?thesis using p(3) q(3) by (simp add: cert_vote_data_def)
  next
    case False
    then have "fd_chunk_hash (fv_data q) = fc_chunk_hash a"
      using locked_hash_kept [OF law unforged inj a signed_a few q(1,2) _ i(2)] i(1) q(3) b(2) rounds
      by (simp add: cert_vote_data_def)
    then show ?thesis using q(3) by (simp add: cert_vote_data_def)
  qed
qed

end
