(* ===== verification/Signing_Recovery.thy ===== *)
theory Signing_Recovery
  imports Agreement
begin

text \<open>
  Recovery of an interrupted signer: the journal a reservation leaves behind validates, and signing
  the reserved vote again changes nothing and produces the same vote.
\<close>

definition intent_stored :: "signing_codecs \<Rightarrow> signing_engine \<Rightarrow> bls_public_key \<Rightarrow> finality_vote_data \<Rightarrow> vote_intent \<Rightarrow> bool" where
  "intent_stored S e k data i \<longleftrightarrow> (\<exists>b. se_journal e (intent_key k data) = Some b \<and> dec (intent_codec S) b = Some i)"

lemma validate_vote_watermark_iff:
  "validate_vote_watermark X S e w = Inr () \<longleftrightarrow>
     vw_spec w = cd_chain_spec_hash (se_domain e)
     \<and> (\<forall>phase i. watermark_entry w phase = Some i \<longrightarrow>
          fd_chunk_id (vi_data i) = vw_chunk_id w \<and> fd_round (vi_data i) = vw_round w \<and> fd_phase (vi_data i) = phase
          \<and> intent_stored S e (vw_identity w) (vi_data i) i)
     \<and> (\<forall>l. vw_locked w = Some l \<longrightarrow>
          (let precommit = (qc_data l)\<lparr>fd_phase := Precommit\<rparr> in
           \<exists>i. intent_stored S e (vw_identity w) precommit i \<and> vi_data i = precommit \<and> vi_unlock_quorum i = Some l
             \<and> fd_round (qc_data l) \<le> vw_round w \<and> verify_bft_unlock_quorum X e precommit l = Inr ()))
     \<and> (\<forall>i. vw_precommit w = Some i \<longrightarrow> vi_unlock_quorum i = vw_locked w)"
proof -
  have entry: "validate_watermark_intent S e w phase (watermark_entry w phase) = Inr () \<longleftrightarrow>
      (\<forall>i. watermark_entry w phase = Some i \<longrightarrow>
          fd_chunk_id (vi_data i) = vw_chunk_id w \<and> fd_round (vi_data i) = vw_round w \<and> fd_phase (vi_data i) = phase
          \<and> intent_stored S e (vw_identity w) (vi_data i) i)" for phase
    by (auto simp: validate_watermark_intent_def intent_stored_def res_bind_Inr_iff require_def split: option.splits if_splits)
  have lock: "validate_watermark_lock X S e w = Inr () \<longleftrightarrow>
      (\<forall>l. vw_locked w = Some l \<longrightarrow>
          (let precommit = (qc_data l)\<lparr>fd_phase := Precommit\<rparr> in
           \<exists>i. intent_stored S e (vw_identity w) precommit i \<and> vi_data i = precommit \<and> vi_unlock_quorum i = Some l
             \<and> fd_round (qc_data l) \<le> vw_round w \<and> verify_bft_unlock_quorum X e precommit l = Inr ()))"
    by (auto simp: validate_watermark_lock_def intent_stored_def res_bind_Inr_iff require_def Let_def not_less
        split: option.splits if_splits)
  have phases: "(\<forall>phase. P phase) \<longleftrightarrow> P Prevote \<and> P Precommit" for P by (metis finality_vote_phase.exhaust)
  show ?thesis
    unfolding validate_vote_watermark_def phases entry [symmetric] lock [symmetric]
    by (auto simp: watermark_entry_def res_bind_Inr_iff require_def split: option.splits if_splits)
qed

lemma load_vote_watermark_valid:
  assumes "load_vote_watermark X S e voter c r = Inr prior"
  shows "validate_vote_watermark X S e prior = Inr () \<and> vw_identity prior = pk_public_key voter \<and> vw_chunk_id prior = c"
proof (cases "se_journal e (vote_key (pk_public_key voter) c)")
  case None
  then have "prior = \<lparr>vw_spec = cd_chain_spec_hash (se_domain e), vw_identity = pk_public_key voter, vw_chunk_id = c,
      vw_round = r, vw_prevote = None, vw_precommit = None, vw_locked = None\<rparr>"
    using assms by (simp add: load_vote_watermark_def read_vote_watermark_def)
  then show ?thesis
    by (simp add: validate_vote_watermark_def validate_watermark_intent_def validate_watermark_lock_def require_def)
next
  case (Some b)
  then show ?thesis using assms
    by (auto simp: load_vote_watermark_def read_vote_watermark_def res_bind_Inr_iff split: if_splits)
qed

lemma verify_bft_unlock_write [simp]: "verify_bft_unlock_quorum X (write_batch e b) = verify_bft_unlock_quorum X e"
  by (simp add: verify_bft_unlock_quorum_def fun_eq_iff)

lemma ensure_signable_write [simp]: "ensure_signable (write_batch e b) = ensure_signable e"
  by (simp add: ensure_signable_def validate_signing_key_def fun_eq_iff)

lemma validate_vote_unlock_write [simp]: "validate_vote_unlock X (write_batch e b) = validate_vote_unlock X e"
  unfolding validate_vote_unlock_def fun_eq_iff verify_bft_unlock_write by (rule refl | rule allI)+

lemma foldl_deleted:
  "j key = None \<Longrightarrow> (\<And>v. (key, v) \<in> set b \<Longrightarrow> v = None) \<Longrightarrow> foldl (\<lambda>j (k, v). j(k := v)) j b key = None"
  by (induction b arbitrary: j) auto

lemma compaction_deletes: "(key, v) \<in> set (compact_round_intents k c old new lock) \<Longrightarrow> v = None"
  by (auto simp: compact_round_intents_def split: if_splits option.splits)

lemma superseded_deletes: "(key, v) \<in> set (superseded_lock k data lock) \<Longrightarrow> v = None"
  by (auto simp: superseded_lock_def split: if_splits option.splits)

lemma intent_kept:
  assumes "intent_stored S e k data' i"
    and "\<not> (fd_round data' = fd_round data \<and> fd_phase data' = fd_phase data)"
    and "old < fd_round data \<Longrightarrow> fd_round data' = old \<Longrightarrow> fd_phase data' = Precommit \<and> (\<exists>l. lock = Some l \<and> fd_round (qc_data l) = old)"
    and "\<And>l. lock = Some l \<Longrightarrow> fd_phase data = Precommit \<Longrightarrow> fd_round (qc_data l) < fd_round data \<Longrightarrow>
      \<not> (fd_round data' = fd_round (qc_data l) \<and> fd_phase data' = Precommit)"
  shows "intent_stored S (write_batch e (compact_round_intents k c old (fd_round data) lock @ superseded_lock k data lock
      @ [(vote_key k c, w), (intent_key k data, b)])) k data' i"
proof -
  have "intent_key k data' \<notin> batch_keys (compact_round_intents k c old (fd_round data) lock)"
    using assms(3) by (auto dest!: compacted_keys simp: message_keys_disjoint' vote_at_def)
  moreover have "intent_key k data' \<notin> batch_keys (superseded_lock k data lock)"
    using assms(4) by (auto dest!: superseded_keys)
  ultimately show ?thesis using assms(1,2) unfolding intent_stored_def
    by (subst journal_untouched) auto
qed

lemma intent_written:
  "dec (intent_codec S) b = Some i \<Longrightarrow>
     intent_stored S (write_batch e (batch @ [(vote_key k c, w), (intent_key k data, Some b)])) k data i"
  unfolding intent_stored_def by (simp add: journal_write_two)

lemma set_entry_fields [simp]:
  "vw_spec (set_watermark_entry w i) = vw_spec w" "vw_identity (set_watermark_entry w i) = vw_identity w"
  "vw_chunk_id (set_watermark_entry w i) = vw_chunk_id w"
  by (cases "fd_phase (vi_data i)"; simp add: set_watermark_entry_def)+

lemma set_entry_again:
  "watermark_entry w (fd_phase (vi_data i)) = Some i \<Longrightarrow> (fd_phase (vi_data i) = Precommit \<Longrightarrow> vw_locked w = vi_unlock_quorum i)
     \<Longrightarrow> set_watermark_entry w i = w"
  by (cases "fd_phase (vi_data i)") (auto simp: set_watermark_entry_def watermark_entry_def)

lemma unlock_target:
  assumes "verify_bft_unlock_quorum X e data u = Inr ()" and "fd_round (qc_data u) = fd_round data" and "fd_phase data = Precommit"
  shows "(qc_data u)\<lparr>fd_phase := Precommit\<rparr> = data"
  using assms by (cases data; cases "qc_data u") (simp add: verify_bft_unlock_quorum_def verify_unlock_iff)

lemma reserved_entry_kept:
  fixes prior :: vote_watermark
  assumes valid: "validate_vote_watermark X S e prior = Inr ()" and adv: "watermark_advance prior (fd_round data) = Inr w"
    and phase: "phase \<noteq> fd_phase data" and i: "watermark_entry w phase = Some i"
  shows "fd_chunk_id (vi_data i) = vw_chunk_id prior \<and> fd_round (vi_data i) = fd_round data \<and> fd_phase (vi_data i) = phase
    \<and> intent_stored S (write_batch e
        (compact_round_intents (vw_identity prior) c (vw_round prior) (fd_round data) (vw_locked prior)
         @ superseded_lock (vw_identity prior) data (vw_locked prior)
         @ [(vote_key (vw_identity prior) c, x), (intent_key (vw_identity prior) data, b)])) (vw_identity prior) (vi_data i) i"
proof -
  have w: "w = prior" "vw_round prior = fd_round data"
    using watermark_advance_Inr [OF adv] i by (auto split: if_splits)
  have "fd_chunk_id (vi_data i) = vw_chunk_id prior" "fd_round (vi_data i) = fd_round data" "fd_phase (vi_data i) = phase"
    and stored: "intent_stored S e (vw_identity prior) (vi_data i) i"
    using valid i w unfolding validate_vote_watermark_iff by metis+
  moreover have "intent_stored S (write_batch e
        (compact_round_intents (vw_identity prior) c (vw_round prior) (fd_round data) (vw_locked prior)
         @ superseded_lock (vw_identity prior) data (vw_locked prior)
         @ [(vote_key (vw_identity prior) c, x), (intent_key (vw_identity prior) data, b)])) (vw_identity prior) (vi_data i) i"
    by (rule intent_kept [OF stored]) (use phase w calculation in auto)
  ultimately show ?thesis by simp
qed

context signing_borsh
begin

lemma reserved_watermark_valid:
  assumes load: "load_vote_watermark X S e voter (fd_chunk_id data) (fd_round data) = Inr prior"
    and unlock: "validate_vote_unlock X e (value_intent voter data proofs unlock) (vw_locked prior) = Inr ()"
    and adv: "watermark_advance prior (fd_round data) = Inr w" and ok: "unlock_ok unlock"
    and e': "e' = write_batch e
        (compact_round_intents (pk_public_key voter) (fd_chunk_id data) (vw_round prior) (fd_round data) (vw_locked prior)
         @ superseded_lock (pk_public_key voter) data (vw_locked prior)
         @ [(vote_key (pk_public_key voter) (fd_chunk_id data), x),
            (intent_key (pk_public_key voter) data, Some (enc (intent_codec S) (value_intent voter data proofs unlock)))])"
  shows "validate_vote_watermark X S e' (set_watermark_entry w (value_intent voter data proofs unlock)) = Inr ()"
proof -
  let ?i = "value_intent voter data proofs unlock"
  let ?w = "set_watermark_entry w ?i"
  have prior: "validate_vote_watermark X S e prior = Inr ()" "vw_identity prior = pk_public_key voter" "vw_chunk_id prior = fd_chunk_id data"
    using load_vote_watermark_valid [OF load] by simp_all
  note adv' = watermark_advance_Inr [OF adv]
  have dec: "dec (intent_codec S) (enc (intent_codec S) ?i) = Some ?i"
    by (rule intent_law) (simp add: intent_ok_def ok)
  have new: "intent_stored S e' (pk_public_key voter) data ?i"
    using intent_written [OF dec] unfolding e' append_assoc [symmetric] .
  have spec: "vw_spec ?w = cd_chain_spec_hash (se_domain e')"
    using prior(1) adv' by (simp add: validate_vote_watermark_iff e')
  have entry: "fd_chunk_id (vi_data i) = vw_chunk_id ?w \<and> fd_round (vi_data i) = vw_round ?w \<and> fd_phase (vi_data i) = phase
      \<and> intent_stored S e' (vw_identity ?w) (vi_data i) i" if "watermark_entry ?w phase = Some i" for phase i
  proof (cases "phase = fd_phase data")
    case True
    then have "i = ?i" using that by simp
    then show ?thesis using True new adv' prior(2,3) by simp
  next
    case False
    then have "watermark_entry w phase = Some i" using that by simp
    from reserved_entry_kept [OF prior(1) adv False this] show ?thesis
      using adv' prior(2,3) by (simp add: e')
  qed
  have lock: "\<exists>i. intent_stored S e' (vw_identity ?w) ((qc_data l)\<lparr>fd_phase := Precommit\<rparr>) i
      \<and> vi_data i = (qc_data l)\<lparr>fd_phase := Precommit\<rparr> \<and> vi_unlock_quorum i = Some l
      \<and> fd_round (qc_data l) \<le> vw_round ?w \<and> verify_bft_unlock_quorum X e' ((qc_data l)\<lparr>fd_phase := Precommit\<rparr>) l = Inr ()"
    if l: "vw_locked ?w = Some l" for l
  proof (cases "fd_phase data")
    case Precommit
    then have u: "unlock = Some l" "verify_bft_unlock_quorum X e data l = Inr ()" "fd_round (qc_data l) = fd_round data"
      using l unlock by (auto simp: validate_vote_unlock_Inr)
    then show ?thesis using new unlock_target [OF u(2,3) Precommit] adv' prior(2) by (auto simp: e')
  next
    case Prevote
    then have l: "vw_locked prior = Some l" using l adv' by simp
    let ?d = "(qc_data l)\<lparr>fd_phase := Precommit\<rparr>"
    obtain i where i: "intent_stored S e (pk_public_key voter) ?d i" "vi_data i = ?d" "vi_unlock_quorum i = Some l"
      "fd_round (qc_data l) \<le> vw_round prior" "verify_bft_unlock_quorum X e ?d l = Inr ()"
      using prior(1) l unfolding validate_vote_watermark_iff Let_def prior(2) by blast
    have "intent_stored S e' (pk_public_key voter) ?d i" unfolding e'
      by (rule intent_kept [OF i(1)]) (use Prevote l in auto)
    then show ?thesis using i adv' prior(2) by (auto simp: e')
  qed
  have "vi_unlock_quorum i = vw_locked ?w" if "vw_precommit ?w = Some i" for i
  proof (cases "fd_phase data")
    case Precommit
    then show ?thesis using that by (auto simp: set_watermark_entry_def)
  next
    case Prevote
    then have "vw_precommit w = Some i" using that by (simp add: set_watermark_entry_def)
    then have "vw_precommit prior = Some i" using adv' by (auto split: if_splits)
    then show ?thesis using prior(1) adv' Prevote by (simp add: validate_vote_watermark_iff)
  qed
  then show ?thesis unfolding validate_vote_watermark_iff Let_def using spec entry lock by blast
qed

theorem reserve_vote_again:
  assumes tracks: "journal_tracks S e (pk_public_key voter) L (fd_chunk_id data)"
    and ok: "reserve_vote X S e voter data proofs unlock = Inr (e', v)" and unlock_ok: "unlock_ok unlock"
  shows "reserve_vote X S e' voter data proofs unlock = Inr (e', v)"
    and "\<exists>w. load_vote_watermark X S e' voter (fd_chunk_id data) (fd_round data) = Inr w
      \<and> watermark_entry w (fd_phase data) = Some (value_intent voter data proofs unlock)"
proof -
  let ?k = "pk_public_key voter" and ?c = "fd_chunk_id data" and ?r = "fd_round data" and ?i = "value_intent voter data proofs unlock"
  obtain prior w where sig: "ensure_signable e voter ?c = Inr ()"
    and nil: "se_journal e (nil_key ?k (nil_at ?c ?r (fd_phase data))) = None"
    and load: "load_vote_watermark X S e voter ?c ?r = Inr prior"
    and valid: "validate_vote_unlock X e ?i (vw_locked prior) = Inr ()"
    and adv: "watermark_advance prior ?r = Inr w"
    and e': "e' = write_batch e
        (compact_round_intents ?k ?c (vw_round prior) ?r (vw_locked prior) @ superseded_lock ?k data (vw_locked prior)
         @ [(vote_key ?k ?c, Some (enc (watermark_codec S) (set_watermark_entry w ?i))),
            (intent_key ?k data, Some (enc (intent_codec S) ?i))])"
    and v: "v = sign_reserved_value_vote X e' voter data ?i"
    using ok unfolding reserve_vote_Inr by blast
  let ?w = "set_watermark_entry w ?i"
  note adv' = watermark_advance_Inr [OF adv]
  have prior: "vw_identity prior = ?k" "vw_chunk_id prior = ?c" using load_vote_watermark_valid [OF load] by simp_all
  have stored: "se_journal e' (vote_key ?k ?c) = Some (enc (watermark_codec S) ?w)"
    "se_journal e' (intent_key ?k data) = Some (enc (intent_codec S) ?i)"
    unfolding e' append_assoc [symmetric] journal_write_two by simp_all
  have "watermark_ok ?w"
    by (rule set_entry_ok [OF advance_ok [OF adv loaded_watermark(1) [OF tracks load]]]) (simp add: unlock_ok)
  then have load': "load_vote_watermark X S e' voter ?c ?r = Inr ?w"
    using stored(1) watermark_law reserved_watermark_valid [OF load valid adv unlock_ok e'] prior adv'
    by (simp add: load_vote_watermark_def read_vote_watermark_def)
  have nil': "se_journal e' (nil_key ?k (nil_at ?c ?r (fd_phase data))) = None"
    unfolding e' write_batch_def using nil
    by (simp add: foldl_deleted compaction_deletes superseded_deletes message_keys_disjoint')
  have lock: "vw_locked ?w = (if fd_phase data = Precommit then unlock else vw_locked prior)" using adv' by simp
  have valid': "validate_vote_unlock X e' ?i (vw_locked ?w) = Inr ()"
    using valid lock unfolding e' validate_vote_unlock_write
    by (auto simp: validate_vote_unlock_Inr verify_bft_unlock_quorum_def verify_unlock_iff)
  have again: "set_watermark_entry ?w ?i = ?w" by (rule set_entry_again) simp_all
  have advance': "watermark_advance ?w ?r = Inr ?w" using adv' by (simp add: watermark_advance_def)
  have superseded: "superseded_lock ?k data (vw_locked ?w) = []"
    using valid lock by (auto simp: superseded_lock_def validate_vote_unlock_Inr split: option.splits)
  have "compact_round_intents ?k ?c (vw_round ?w) ?r (vw_locked ?w) = []"
    using adv' by (simp add: compact_round_intents_def)
  moreover have "write_batch e' [(vote_key ?k ?c, Some (enc (watermark_codec S) ?w)),
      (intent_key ?k data, Some (enc (intent_codec S) ?i))] = e'"
    using stored by (simp add: write_batch_def fun_upd_idem)
  ultimately show "reserve_vote X S e' voter data proofs unlock = Inr (e', v)" unfolding reserve_vote_Inr
    using sig nil' load' valid' advance' superseded again v by (auto simp: e')
  show "\<exists>w. load_vote_watermark X S e' voter ?c ?r = Inr w \<and> watermark_entry w (fd_phase data) = Some ?i"
    using load' by auto
qed

end

end
