(* ===== verification/Signing_Instance.thy ===== *)
theory Signing_Instance
  imports Agreement Sample_Consensus Signing_Recovery
begin

text \<open>
  An instance of the journal codecs, and a signer of the sample chunk: it prevotes and precommits one
  candidate, moves its lock to another at the next round, and prevotes that one again.
\<close>

subsection \<open>Codecs\<close>

definition phase_wire :: "finality_vote_phase wire" where
  "phase_wire = iso_wire (\<lambda>p. p = Precommit) (\<lambda>b. if b then Precommit else Prevote) bool_wire"

definition vote_data_wire :: "finality_vote_data wire" where
  "vote_data_wire = iso_wire
     (\<lambda>x. (fd_chunk_id x, fd_round x, fd_chunk_hash x, fd_phase x))
     (\<lambda>(x0, x1, x2, x3). \<lparr>fd_chunk_id = x0, fd_round = x1, fd_chunk_hash = x2, fd_phase = x3\<rparr>)
     (pair_wire (word_wire 8) (pair_wire (word_wire 4) (pair_wire (word_wire 32) phase_wire)))"

definition quorum_wire :: "quorum_certificate wire" where
  "quorum_wire = iso_wire
     (\<lambda>x. (qc_data x, bv_bit_len (av_bits (qc_aggregate x)), bv_bytes (av_bits (qc_aggregate x)), av_signature (qc_aggregate x)))
     (\<lambda>(x0, x1, x2, x3). \<lparr>qc_data = x0, qc_aggregate = \<lparr>av_bits = \<lparr>bv_bit_len = x1, bv_bytes = x2\<rparr>, av_signature = x3\<rparr>\<rparr>)
     (pair_wire vote_data_wire (pair_wire (word_wire 4) (pair_wire (list_wire (word_wire 1)) (word_wire 96))))"

definition intent_wire :: "vote_intent wire" where
  "intent_wire = iso_wire
     (\<lambda>x. (vi_data x, vi_validator_index x, vi_proof_hashes x, vi_unlock_quorum x))
     (\<lambda>(x0, x1, x2, x3). \<lparr>vi_data = x0, vi_validator_index = x1, vi_proof_hashes = x2, vi_unlock_quorum = x3\<rparr>)
     (pair_wire vote_data_wire (pair_wire (word_wire 4) (pair_wire (list_wire (word_wire 32)) (option_wire quorum_wire))))"

definition watermark_wire :: "vote_watermark wire" where
  "watermark_wire = iso_wire
     (\<lambda>x. (vw_spec x, vw_identity x, vw_chunk_id x, vw_round x, vw_prevote x, vw_precommit x, vw_locked x))
     (\<lambda>(x0, x1, x2, x3, x4, x5, x6). \<lparr>vw_spec = x0, vw_identity = x1, vw_chunk_id = x2, vw_round = x3, vw_prevote = x4,
       vw_precommit = x5, vw_locked = x6\<rparr>)
     (pair_wire (word_wire 32) (pair_wire (word_wire 48) (pair_wire (word_wire 8) (pair_wire (word_wire 4)
       (pair_wire (option_wire intent_wire) (pair_wire (option_wire intent_wire) (option_wire quorum_wire)))))))"

definition nil_intent_wire :: "nil_intent wire" where
  "nil_intent_wire = iso_wire
     (\<lambda>x. (ni_spec x, ni_identity x, nd_chunk_id (ni_data x), nd_round (ni_data x), nd_phase (ni_data x), ni_validator_index x))
     (\<lambda>(x0, x1, x2, x3, x4, x5). \<lparr>ni_spec = x0, ni_identity = x1,
       ni_data = \<lparr>nd_chunk_id = x2, nd_round = x3, nd_phase = x4\<rparr>, ni_validator_index = x5\<rparr>)
     (pair_wire (word_wire 32) (pair_wire (word_wire 48) (pair_wire (word_wire 8) (pair_wire (word_wire 4)
       (pair_wire phase_wire (word_wire 4))))))"

definition message_intent_wire :: "message_intent wire" where
  "message_intent_wire = iso_wire
     (\<lambda>x. (mi_spec x, mi_identity x, mi_message x)) (\<lambda>(x0, x1, x2). \<lparr>mi_spec = x0, mi_identity = x1, mi_message = x2\<rparr>)
     (pair_wire (word_wire 32) (pair_wire (word_wire 48) (list_wire (word_wire 1))))"

definition message_watermark_wire :: "message_watermark wire" where
  "message_watermark_wire = iso_wire
     (\<lambda>x. (mw_spec x, mw_identity x, mw_chunk_id x, mw_round x))
     (\<lambda>(x0, x1, x2, x3). \<lparr>mw_spec = x0, mw_identity = x1, mw_chunk_id = x2, mw_round = x3\<rparr>)
     (pair_wire (word_wire 32) (pair_wire (word_wire 48) (pair_wire (word_wire 8) (word_wire 4))))"

definition proposal_watermark_wire :: "proposal_watermark wire" where
  "proposal_watermark_wire = iso_wire
     (\<lambda>x. (pw_spec x, pw_identity x, pw_slot x, pw_hash x))
     (\<lambda>(x0, x1, x2, x3). \<lparr>pw_spec = x0, pw_identity = x1, pw_slot = x2, pw_hash = x3\<rparr>)
     (pair_wire (word_wire 32) (pair_wire (word_wire 48) (pair_wire (word_wire 8) (word_wire 32))))"

lemma phase_wire_law [intro!]: "wire_law phase_wire"
  unfolding phase_wire_def by (rule iso_wire_law) (auto, metis finality_vote_phase.exhaust)

lemma vote_data_wire_law [intro!]: "wire_law vote_data_wire"
  unfolding vote_data_wire_def by (rule iso_wire_law) auto

lemma quorum_wire_law [intro!]: "wire_law quorum_wire"
  unfolding quorum_wire_def by (rule iso_wire_law) auto

lemma intent_wire_law [intro!]: "wire_law intent_wire"
  unfolding intent_wire_def by (rule iso_wire_law) auto

lemma watermark_wire_law [intro!]: "wire_law watermark_wire"
  unfolding watermark_wire_def by (rule iso_wire_law) auto

lemma nil_intent_wire_law [intro!]: "wire_law nil_intent_wire"
  unfolding nil_intent_wire_def by (rule iso_wire_law) auto

lemma message_intent_wire_law [intro!]: "wire_law message_intent_wire"
  unfolding message_intent_wire_def by (rule iso_wire_law) auto

lemma message_watermark_wire_law [intro!]: "wire_law message_watermark_wire"
  unfolding message_watermark_wire_def by (rule iso_wire_law) auto

lemma proposal_watermark_wire_law [intro!]: "wire_law proposal_watermark_wire"
  unfolding proposal_watermark_wire_def by (rule iso_wire_law) auto

definition wire_signing :: signing_codecs where
  "wire_signing =
     \<lparr>watermark_codec = codec_of watermark_wire, intent_codec = codec_of intent_wire,
      nil_intent_codec = codec_of nil_intent_wire, message_intent_codec = codec_of message_intent_wire,
      message_watermark_codec = codec_of message_watermark_wire, proposal_watermark_codec = codec_of proposal_watermark_wire\<rparr>"

lemma wire_signing_dec [simp]:
  "dec (watermark_codec wire_signing) (enc (watermark_codec wire_signing) w) = Some w"
  "dec (intent_codec wire_signing) (enc (intent_codec wire_signing) i) = Some i"
  using codec_of_law [OF watermark_wire_law] codec_of_law [OF intent_wire_law]
  by (simp_all add: wire_signing_def codec_law_def)

interpretation wire_journal: signing_borsh wire_signing
  by unfold_locales (simp_all, auto simp: wire_signing_def)

subsection \<open>A signer\<close>

definition sample_key :: proposer_key where
  "sample_key = \<lparr>pk_sign = (\<lambda>_. 0), pk_public_key = 7, pk_validator_index = 0\<rparr>"

definition sample_engine :: signing_engine where
  "sample_engine =
     \<lparr>se_domain = sample_domain, se_params = sample_params, se_validators = [sample_seat], se_latest_finalized = None,
      se_finalized_next = 3, se_journal = Map.empty\<rparr>"

definition sample_quorum :: "hash \<Rightarrow> u32 \<Rightarrow> quorum_certificate" where
  "sample_quorum h r =
     \<lparr>qc_data = sample_vote_data h r Prevote, qc_aggregate = \<lparr>av_bits = sample_bits, av_signature = 0\<rparr>\<rparr>"

definition sample_intent :: "finality_vote_phase \<Rightarrow> hash \<Rightarrow> u32 \<Rightarrow> quorum_certificate option \<Rightarrow> vote_intent" where
  "sample_intent phase h r unlock = value_intent sample_key (sample_vote_data h r phase) [] unlock"

definition sample_watermark ::
  "u32 \<Rightarrow> vote_intent option \<Rightarrow> vote_intent option \<Rightarrow> quorum_certificate option \<Rightarrow> vote_watermark" where
  "sample_watermark r pre com lock =
     \<lparr>vw_spec = 9, vw_identity = 7, vw_chunk_id = 3, vw_round = r, vw_prevote = pre, vw_precommit = com, vw_locked = lock\<rparr>"

lemma sample_watermark_simps [simp]:
  "vw_spec (sample_watermark r pre com lock) = 9" "vw_identity (sample_watermark r pre com lock) = 7"
  "vw_chunk_id (sample_watermark r pre com lock) = 3" "vw_round (sample_watermark r pre com lock) = r"
  "vw_prevote (sample_watermark r pre com lock) = pre" "vw_precommit (sample_watermark r pre com lock) = com"
  "vw_locked (sample_watermark r pre com lock) = lock"
  "set_watermark_entry (sample_watermark r pre com lock) (sample_intent Prevote h r' u) =
     sample_watermark r (Some (sample_intent Prevote h r' u)) com lock"
  "set_watermark_entry (sample_watermark r pre com lock) (sample_intent Precommit h r' u) =
     sample_watermark r pre (Some (sample_intent Precommit h r' u)) u"
  "watermark_entry (sample_watermark r pre com lock) Prevote = pre"
  "watermark_entry (sample_watermark r pre com lock) Precommit = com"
  by (simp_all add: sample_watermark_def set_watermark_entry_def watermark_entry_def sample_intent_def sample_vote_data_def)

lemma sample_advance:
  "watermark_advance (sample_watermark r pre com lock) r' =
     (if r' < r then Inl SvRegression else if r' > r then Inr (sample_watermark r' None None lock)
      else Inr (sample_watermark r pre com lock))"
  by (simp add: watermark_advance_def sample_watermark_def)

lemma sample_intent_simps [simp]:
  "vi_data (sample_intent phase h r u) = sample_vote_data h r phase" "vi_unlock_quorum (sample_intent phase h r u) = u"
  "vi_proof_hashes (sample_intent phase h r u) = []"
  by (simp_all add: sample_intent_def)

lemma sample_data_simps [simp]:
  "fd_chunk_id (sample_vote_data h r phase) = 3" "fd_round (sample_vote_data h r phase) = r"
  "fd_chunk_hash (sample_vote_data h r phase) = h" "fd_phase (sample_vote_data h r phase) = phase"
  "(sample_vote_data h r phase)\<lparr>fd_phase := phase'\<rparr> = sample_vote_data h r phase'"
  "qc_data (sample_quorum h r) = sample_vote_data h r Prevote"
  "sample_vote_data h r phase = sample_vote_data h' r' phase' \<longleftrightarrow> h = h' \<and> r = r' \<and> phase = phase'"
  by (auto simp: sample_vote_data_def sample_quorum_def)

lemma sample_key_simps [simp]:
  "pk_public_key sample_key = 7" "pk_validator_index sample_key = 0" "pk_sign sample_key m = 0"
  by (simp_all add: sample_key_def)

lemma sample_quorum_verifies:
  "verify_quorum sample_bft d [sample_seat] (sample_quorum h r) (prevote_fraction sample_params) = Inr ()"
  by (simp add: verify_quorum_def sample_quorum_def sample_fractions sample_signers sample_total)
    (simp add: sample_vote_data_def quorum_fraction_valid_def weight_quorum_reached_def sample_bits_def sample_bft_def require_def)

definition sample_node :: "state \<Rightarrow> signing_engine" where
  "sample_node j = sample_engine\<lparr>se_journal := j\<rparr>"

lemma sample_node_simps [simp]:
  "se_domain (sample_node j) = sample_domain" "se_params (sample_node j) = sample_params"
  "se_validators (sample_node j) = [sample_seat]" "se_journal (sample_node j) = j"
  "cd_chain_spec_hash sample_domain = 9" "sample_node Map.empty = sample_engine"
  "write_batch (sample_node j) b = sample_node (foldl (\<lambda>j (k, v). j(k := v)) j b)"
  by (simp_all add: sample_node_def sample_engine_def sample_domain_def write_batch_def)

lemma sample_signable: "ensure_signable (sample_node j) sample_key 3 = Inr ()"
  by (simp add: ensure_signable_Inr validate_signing_key_def nth_opt_def signing_finalized_floor_def)
    (simp add: sample_node_def sample_engine_def sample_seat_def require_def)

lemma sample_unlock_verifies:
  "verify_bft_unlock_quorum sample_bft (sample_node j) (sample_vote_data h r phase) (sample_quorum h r') = Inr () \<longleftrightarrow>
     (case phase of Prevote \<Rightarrow> r' < r | Precommit \<Rightarrow> r' \<le> r)"
  by (cases phase) (simp_all add: verify_bft_unlock_quorum_def verify_unlock_iff sample_quorum_verifies)

text \<open>What the node must find in its journal to accept its stored watermark.\<close>

lemma sample_validate:
  assumes "pre = None \<or> (\<exists>h u. pre = Some (sample_intent Prevote h r u)
      \<and> j (intent_key 7 (sample_vote_data h r Prevote)) = Some (enc (intent_codec wire_signing) (sample_intent Prevote h r u)))"
    and "com = None \<or> (\<exists>h. com = Some (sample_intent Precommit h r lock)
      \<and> j (intent_key 7 (sample_vote_data h r Precommit)) = Some (enc (intent_codec wire_signing) (sample_intent Precommit h r lock)))"
    and "lock = None \<or> (\<exists>h l. l \<le> r \<and> lock = Some (sample_quorum h l)
      \<and> j (intent_key 7 (sample_vote_data h l Precommit))
        = Some (enc (intent_codec wire_signing) (sample_intent Precommit h l (Some (sample_quorum h l)))))"
  shows "validate_vote_watermark sample_bft wire_signing (sample_node j) (sample_watermark r pre com lock) = Inr ()"
  using assms
  by (auto simp: validate_vote_watermark_def validate_watermark_intent_def validate_watermark_lock_def Let_def
      sample_unlock_verifies require_def not_less)

lemma sample_load:
  assumes "j (vote_key 7 3) = Some (enc (watermark_codec wire_signing) (sample_watermark r pre com lock))"
    and "validate_vote_watermark sample_bft wire_signing (sample_node j) (sample_watermark r pre com lock) = Inr ()"
  shows "load_vote_watermark sample_bft wire_signing (sample_node j) sample_key 3 r' = Inr (sample_watermark r pre com lock)"
  using assms by (simp add: load_vote_watermark_def read_vote_watermark_def)

lemma sample_load_empty:
  "load_vote_watermark sample_bft wire_signing sample_engine sample_key 3 r = Inr (sample_watermark r None None None)"
  by (simp add: load_vote_watermark_def read_vote_watermark_def sample_engine_def sample_domain_def sample_watermark_def)

subsection \<open>Its four votes\<close>

definition sample_signed :: "finality_vote_phase \<Rightarrow> hash \<Rightarrow> u32 \<Rightarrow> quorum_certificate option \<Rightarrow> finality_vote" where
  "sample_signed phase h r u =
     sign_reserved_value_vote sample_bft sample_engine sample_key (sample_vote_data h r phase) (sample_intent phase h r u)"

lemma sample_signed_simps [simp]:
  "fv_data (sample_signed phase h r u) = sample_vote_data h r phase" "vote_unlock (sample_signed phase h r u) = u"
  by (simp_all add: sample_signed_def)

lemma sample_signed_any:
  "sign_reserved_value_vote sample_bft (sample_node j) sample_key (sample_vote_data h r phase) (sample_intent phase h r u) =
     sample_signed phase h r u"
  by (simp add: sample_signed_def sign_reserved_value_vote_def) (simp add: sample_engine_def)

abbreviation stored_watermark :: "vote_watermark \<Rightarrow> bytes option" where
  "stored_watermark w \<equiv> Some (enc (watermark_codec wire_signing) w)"

abbreviation stored_intent :: "vote_intent \<Rightarrow> bytes option" where
  "stored_intent i \<equiv> Some (enc (intent_codec wire_signing) i)"

lemma sample_reserve:
  assumes "j (nil_key 7 (nil_at 3 r phase)) = None"
    and "load_vote_watermark sample_bft wire_signing (sample_node j) sample_key 3 r = Inr (sample_watermark r0 pre com lock)"
    and "r0 \<le> r" and "r0 = r \<Longrightarrow> watermark_entry (sample_watermark r0 pre com lock) phase = None"
    and "case u of None \<Rightarrow> phase = Prevote | Some q \<Rightarrow> (\<exists>l. q = sample_quorum h l \<and> (if phase = Prevote then l < r else l = r))"
    and "case lock of None \<Rightarrow> True | Some q \<Rightarrow> h = fd_chunk_hash (qc_data q)
      \<or> (\<exists>q'. u = Some q' \<and> fd_round (qc_data q) < fd_round (qc_data q'))"
  shows "reserve_vote sample_bft wire_signing (sample_node j) sample_key (sample_vote_data h r phase) [] u =
    Inr (sample_node (foldl (\<lambda>j (k, v). j(k := v)) j
      (compact_round_intents 7 3 r0 r lock @ superseded_lock 7 (sample_vote_data h r phase) lock
       @ [(vote_key 7 3, stored_watermark (set_watermark_entry
             (if r0 = r then sample_watermark r0 pre com lock else sample_watermark r None None lock) (sample_intent phase h r u))),
          (intent_key 7 (sample_vote_data h r phase), stored_intent (sample_intent phase h r u))])),
      sample_signed phase h r u)"
proof -
  have valid: "validate_vote_unlock sample_bft (sample_node j) (sample_intent phase h r u) lock = Inr ()"
    unfolding validate_vote_unlock_Inr using assms(5,6) sample_unlock_verifies
    by (cases phase; cases u; auto split: option.splits if_splits)
  show ?thesis unfolding reserve_vote_Inr
    using assms(1-4) valid
    by (auto simp: sample_signable sample_advance sample_signed_any sample_intent_def [symmetric]
        simp del: write_batch_simps)
qed

definition sample_journal_1 :: state where
  "sample_journal_1 = Map.empty(
     vote_key 7 3 := stored_watermark (sample_watermark 0 (Some (sample_intent Prevote 1 0 None)) None None),
     intent_key 7 (sample_vote_data 1 0 Prevote) := stored_intent (sample_intent Prevote 1 0 None))"

definition sample_journal_2 :: state where
  "sample_journal_2 = sample_journal_1(
     vote_key 7 3 := stored_watermark (sample_watermark 0 (Some (sample_intent Prevote 1 0 None))
       (Some (sample_intent Precommit 1 0 (Some (sample_quorum 1 0)))) (Some (sample_quorum 1 0))),
     intent_key 7 (sample_vote_data 1 0 Precommit) := stored_intent (sample_intent Precommit 1 0 (Some (sample_quorum 1 0))))"

definition sample_journal_3 :: state where
  "sample_journal_3 = foldl (\<lambda>j (k, v). j(k := v)) sample_journal_2
     (compact_round_intents 7 3 0 1 (Some (sample_quorum 1 0))
      @ superseded_lock 7 (sample_vote_data 2 1 Precommit) (Some (sample_quorum 1 0))
      @ [(vote_key 7 3, stored_watermark (sample_watermark 1 None (Some (sample_intent Precommit 2 1 (Some (sample_quorum 2 1))))
            (Some (sample_quorum 2 1)))),
         (intent_key 7 (sample_vote_data 2 1 Precommit), stored_intent (sample_intent Precommit 2 1 (Some (sample_quorum 2 1))))])"

lemma sample_vote_1:
  "reserve_vote sample_bft wire_signing sample_engine sample_key (sample_vote_data 1 0 Prevote) [] None =
     Inr (sample_node sample_journal_1, sample_signed Prevote 1 0 None)"
  using sample_reserve [where j = Map.empty and r = 0 and phase = Prevote and r0 = 0 and u = None and h = 1] sample_load_empty [of 0]
  by (simp add: sample_journal_1_def compact_round_intents_def superseded_lock_def)

lemma sample_vote_2:
  "reserve_vote sample_bft wire_signing (sample_node sample_journal_1) sample_key (sample_vote_data 1 0 Precommit) []
       (Some (sample_quorum 1 0)) =
     Inr (sample_node sample_journal_2, sample_signed Precommit 1 0 (Some (sample_quorum 1 0)))"
proof -
  have "load_vote_watermark sample_bft wire_signing (sample_node sample_journal_1) sample_key 3 0
      = Inr (sample_watermark 0 (Some (sample_intent Prevote 1 0 None)) None None)"
    by (rule sample_load [OF _ sample_validate]) (fastforce simp: sample_journal_1_def)+
  from sample_reserve [OF _ this, where phase = Precommit and u = "Some (sample_quorum 1 0)" and h = 1] show ?thesis
    by (simp add: sample_journal_1_def sample_journal_2_def compact_round_intents_def superseded_lock_def)
qed

lemma sample_vote_3:
  "reserve_vote sample_bft wire_signing (sample_node sample_journal_2) sample_key (sample_vote_data 2 1 Precommit) []
       (Some (sample_quorum 2 1)) =
     Inr (sample_node sample_journal_3, sample_signed Precommit 2 1 (Some (sample_quorum 2 1)))"
proof -
  have "load_vote_watermark sample_bft wire_signing (sample_node sample_journal_2) sample_key 3 1
      = Inr (sample_watermark 0 (Some (sample_intent Prevote 1 0 None))
         (Some (sample_intent Precommit 1 0 (Some (sample_quorum 1 0)))) (Some (sample_quorum 1 0)))"
    by (rule sample_load [OF _ sample_validate]) (fastforce simp: sample_journal_1_def sample_journal_2_def)+
  from sample_reserve [OF _ this, where phase = Precommit and u = "Some (sample_quorum 2 1)" and h = 2] show ?thesis
    by (simp add: sample_journal_1_def sample_journal_2_def sample_journal_3_def)
qed

lemma sample_journal_3_lookup:
  "sample_journal_3 (vote_key 7 3) = stored_watermark (sample_watermark 1 None
     (Some (sample_intent Precommit 2 1 (Some (sample_quorum 2 1)))) (Some (sample_quorum 2 1)))"
  "sample_journal_3 (intent_key 7 (sample_vote_data 2 1 Precommit)) = stored_intent (sample_intent Precommit 2 1 (Some (sample_quorum 2 1)))"
  "sample_journal_3 (nil_key 7 n) = None"
proof -
  show "sample_journal_3 (nil_key 7 n) = None" unfolding sample_journal_3_def
    by (rule foldl_deleted)
      (auto simp: compact_round_intents_def superseded_lock_def sample_journal_1_def sample_journal_2_def
        message_keys_disjoint' split: option.splits if_splits)
qed (simp_all add: sample_journal_3_def)

lemma sample_vote_4:
  "\<exists>e. reserve_vote sample_bft wire_signing (sample_node sample_journal_3) sample_key (sample_vote_data 2 2 Prevote) [] None =
     Inr (e, sample_signed Prevote 2 2 None)"
proof -
  have "load_vote_watermark sample_bft wire_signing (sample_node sample_journal_3) sample_key 3 2
      = Inr (sample_watermark 1 None (Some (sample_intent Precommit 2 1 (Some (sample_quorum 2 1)))) (Some (sample_quorum 2 1)))"
    by (rule sample_load [OF _ sample_validate]) (fastforce simp: sample_journal_3_lookup)+
  from sample_reserve [OF _ this, where phase = Prevote and u = None and h = 2] show ?thesis by (simp add: sample_journal_3_lookup)
qed

subsection \<open>A nil vote and a later value vote\<close>

definition sample_nil :: "u32 \<Rightarrow> nil_vote" where
  "sample_nil r =
     (let claim = \<lparr>na_validator_index = 0, na_vote = nil_at 3 r Prevote, na_vote_signature = 0, na_signature = 0\<rparr>
      in \<lparr>nv_data = nil_at 3 r Prevote, nv_bits = single_signer_bits 1 0, nv_signature = 0, nv_attestations = [claim]\<rparr>)"

definition sample_nil_intent :: "u32 \<Rightarrow> nil_intent" where
  "sample_nil_intent r = \<lparr>ni_spec = 9, ni_identity = 7, ni_data = nil_at 3 r Prevote, ni_validator_index = 0\<rparr>"

definition nil_journal :: state where
  "nil_journal = Map.empty(
     vote_key 7 3 := stored_watermark (sample_watermark 0 None None None),
     nil_key 7 (nil_at 3 0 Prevote) := Some (enc (nil_intent_codec wire_signing) (sample_nil_intent 0)))"

lemma nil_at_simps [simp]:
  "nd_chunk_id (nil_at c r phase) = c" "nd_round (nil_at c r phase) = r" "nd_phase (nil_at c r phase) = phase"
  "nil_at c r phase = nil_at c' r' phase' \<longleftrightarrow> c = c' \<and> r = r' \<and> phase = phase'"
  by (simp_all add: nil_at_def)

lemma sample_nil_vote:
  "reserve_nil_vote sample_bft wire_signing sample_engine sample_key (nil_at 3 0 Prevote) = Inr (sample_node nil_journal, sample_nil 0)"
proof -
  have load: "load_vote_watermark sample_bft wire_signing (sample_node Map.empty) sample_key 3 0 = Inr (sample_watermark 0 None None None)"
    using sample_load_empty [of 0] by simp
  have adv: "watermark_advance (sample_watermark 0 None None None) 0 = Inr (sample_watermark 0 None None None)"
    by (simp add: sample_advance)
  have "reserve_nil_vote sample_bft wire_signing (sample_node Map.empty) sample_key (nil_at 3 0 Prevote)
      = Inr (sample_node nil_journal, sample_nil 0)"
    using sample_signable [of Map.empty] load adv unfolding reserve_nil_vote_def Let_def
    by (simp add: sample_nil_def sample_nil_intent_def nil_journal_def compact_round_intents_def Let_def
        del: sample_node_simps(6))
  then show ?thesis by simp
qed

lemma sample_vote_after_nil:
  "\<exists>e. reserve_vote sample_bft wire_signing (sample_node nil_journal) sample_key (sample_vote_data 1 1 Prevote) [] None =
     Inr (e, sample_signed Prevote 1 1 None)"
proof -
  have "load_vote_watermark sample_bft wire_signing (sample_node nil_journal) sample_key 3 1 = Inr (sample_watermark 0 None None None)"
    by (rule sample_load [OF _ sample_validate]) (fastforce simp: nil_journal_def)+
  from sample_reserve [OF _ this, where phase = Prevote and u = None and h = 1] show ?thesis
    by (simp add: nil_journal_def)
qed

end
