(* ===== verification/Agreement_Properties.thy ===== *)
theory Agreement_Properties
  imports Signing_Instance
begin

text \<open>
  The properties of validators that sign through the journal: agreement of finality, absence of
  equivocation, and the reach of the lock-violation rule of the evidence guest.
\<close>

text \<open>
  C2. Agreement. Take any run of validators that sign through the durable journal, on any number of
  nodes, with crashes, expiry of finalized entries, rotation and arbitrary interleaving. If the stake
  outside the honest keys is less than a third of the active stake of a chunk, and no aggregate
  verifies before its honest signers signed, then two certificates that pass verification for that
  chunk certify the same candidate, whatever their rounds.
\<close>

theorem agreement:
  assumes "signing_borsh S" and "inj (vote_data_bytes X)"
    and "signing_run X S d params sets home \<sigma> H" and "unlocks_unforged X d params sets honest H"
    and "verify_finality X d params (sets c) chunk_a a = Inr ()" and "fc_chunk_id a = c"
    and "verify_finality X d params (sets c) chunk_b b = Inr ()" and "fc_chunk_id b = c"
    and "honestly_signed X d honest H (length H) (sets c) (cert_signers (sets c) a Precommit)
      (vote_message X d (cert_vote_data a Precommit))"
    and "honestly_signed X d honest H (length H) (sets c) (cert_signers (sets c) b Precommit)
      (vote_message X d (cert_vote_data b Precommit))"
    and "3 * weight_of (sets c) (faulty (sets c) honest) < weight_of (sets c) (active_set (sets c))"
  shows "fc_chunk_hash a = fc_chunk_hash b"
proof (cases "fc_round a \<le> fc_round b")
  case True
  show ?thesis
    by (rule later_certificate_agrees [OF run_lawful [OF assms(1,3)] assms(4,2) assms(5,6,7,8,9,10,11) True])
next
  case False
  then have "fc_round b \<le> fc_round a" by simp
  from later_certificate_agrees [OF run_lawful [OF assms(1,3)] assms(4,2) assms(7,8,5,6,10,9,11) this] show ?thesis ..
qed

lemma sample_vote_bytes_inj: "inj sample_vote_bytes"
proof (rule injI)
  fix u v assume "sample_vote_bytes u = sample_vote_bytes v"
  then have "le_bytes 8 (fd_chunk_id u) = le_bytes 8 (fd_chunk_id v)" "le_bytes 4 (fd_round u) = le_bytes 4 (fd_round v)"
    "be_bytes 32 (fd_chunk_hash u) = be_bytes 32 (fd_chunk_hash v)" "phase_byte (fd_phase u) = phase_byte (fd_phase v)"
    by (simp_all add: sample_vote_bytes_def)
  then show "u = v"
    using le_bytes_inject [of 8 "fd_chunk_id u" "fd_chunk_id v"] le_bytes_inject [of 4 "fd_round u" "fd_round v"]
    by (cases "fd_phase u"; cases "fd_phase v"; cases u; cases v) (simp_all add: phase_byte_def)
qed

definition sample_history :: history where
  "sample_history =
     [(7, SignedVote (sample_signed Prevote 1 0 None)),
      (7, SignedVote (sample_signed Precommit 1 0 (Some (sample_quorum 1 0))))]"

abbreviation sample_signing_run :: "(nat \<Rightarrow> signing_engine) \<Rightarrow> history \<Rightarrow> bool" where
  "sample_signing_run \<equiv> signing_run sample_bft wire_signing sample_domain sample_params (\<lambda>_. [sample_seat]) (\<lambda>_. 0)"

lemma sample_quorum_ok: "unlock_ok (Some (sample_quorum h r))"
  by (simp add: unlock_ok_def quorum_ok_def sample_quorum_def sample_bits_def bitvec_from_bytes_def bytes_for_bits_def
      has_non_zero_padding_def)

lemma sample_step:
  assumes "sample_signing_run \<sigma> H" and "se_validators (\<sigma> 0) = [sample_seat]" and "unlock_ok unlock"
    and "reserve_vote sample_bft wire_signing (\<sigma> 0) sample_key data [] unlock = Inr (e', v)"
  shows "sample_signing_run (\<sigma>(0 := e')) (H @ [(7, SignedVote v)])"
proof -
  have "sign_vote_durable sample_bft wire_signing (\<lambda>_. Inr ()) (\<sigma> 0) sample_key data [] unlock = (e', Inr v)"
    by (simp add: sign_vote_durable_def assms(4))
  from signing_run.vote [OF assms(1) refl _ assms(3) this] assms(2) show ?thesis
    by (simp add: assms(4) signed_by_def)
qed

lemma sample_run: "sample_signing_run ((\<lambda>_. sample_engine)(0 := sample_node sample_journal_2)) sample_history"
proof -
  have "sample_signing_run (\<lambda>_. sample_engine) []" by (rule signing_run.start) (simp add: sample_engine_def)
  from sample_step [OF this _ _ sample_vote_1]
  have "sample_signing_run ((\<lambda>_. sample_engine)(0 := sample_node sample_journal_1)) [(7, SignedVote (sample_signed Prevote 1 0 None))]"
    by (simp add: sample_engine_def unlock_ok_def)
  from sample_step [OF this, of "Some (sample_quorum 1 0)"] sample_vote_2 show ?thesis
    by (simp add: sample_history_def sample_quorum_ok)
qed

theorem agreement_witness:
  "(\<exists>\<sigma>. sample_signing_run \<sigma> sample_history)
     \<and> signed_cert 4 1 \<noteq> signed_cert 5 1 \<and> fc_chunk_hash (signed_cert 4 1) = fc_chunk_hash (signed_cert 5 1)"
proof -
  note run = sample_run
  have inj: "inj (vote_data_bytes sample_bft)" using sample_vote_bytes_inj by (simp add: sample_bft_def)
  have keys: "cv_pubkey ([sample_seat] ! i) = 7" if "i \<in> signer_set [sample_seat] bits" for i bits
    using that by (simp add: signer_set_def sample_seat_def)
  have unforged: "unlocks_unforged sample_bft sample_domain sample_params (\<lambda>_. [sample_seat]) {7} sample_history"
    unfolding unlocks_unforged_def honestly_signed_def signed_before_def Let_def qc_signers_def
    by (auto simp: sample_history_def nth_Cons event_messages_def dest!: keys split: nat.splits)
  have signed: "honestly_signed sample_bft sample_domain {7} sample_history (length sample_history) [sample_seat]
      (cert_signers [sample_seat] (signed_cert sig 1) Precommit)
      (vote_message sample_bft sample_domain (cert_vote_data (signed_cert sig 1) Precommit))" for sig
    unfolding honestly_signed_def signed_before_def cert_signers_def sample_cert_vote
    by (auto intro!: exI [of _ 1] simp: sample_history_def event_messages_def dest!: keys)
  have "active_set [sample_seat] = {0}" by (auto simp: active_set_def is_active_def sample_seat_def)
  then have few: "3 * weight_of [sample_seat] (faulty [sample_seat] {7}) < weight_of [sample_seat] (active_set [sample_seat])"
    by (simp add: faulty_def weight_of_def sample_seat_def Collect_conv_if)
  have id: "fc_chunk_id (signed_cert sig 1) = 3" for sig by (simp add: signed_cert_def)
  have "signed_cert 4 1 \<noteq> signed_cert 5 1" by (simp add: signed_cert_def)
  with agreement [OF wire_journal.signing_borsh_axioms inj run unforged sample_cert_verifies id sample_cert_verifies id signed signed few]
    run show ?thesis by blast
qed

text \<open>
  C30. No equivocation. Along every run, take any two votes that one key signed for one chunk
  through the journal, each a value vote or a nil vote, in either order of kinds. The round of the
  later one is not smaller, and if both are for the same round and phase they name the same
  candidate, or are both nil.
\<close>

theorem no_equivocation:
  assumes "signing_borsh S" and "signing_run X S d params sets home \<sigma> H"
    and "m < n" and "n < length H" and "H ! m = (k, ev)" and "H ! n = (k, ev')"
    and "signed_position ev = Some (c, r, p, x)" and "signed_position ev' = Some (c, r', p', x')"
  shows "r \<le> r' \<and> (r = r' \<and> p = p' \<longrightarrow> x = x')"
  by (rule lawful_positions [OF run_lawful [OF assms(1,2)] assms(4,3,5-8)])

definition nil_history :: history where
  "nil_history = [(7, SignedNil (sample_nil 0)), (7, SignedVote (sample_signed Prevote 1 1 None))]"

lemma nil_run: "\<exists>\<sigma>. sample_signing_run \<sigma> nil_history"
proof -
  have "sample_signing_run (\<lambda>_. sample_engine) []" by (rule signing_run.start) (simp add: sample_engine_def)
  moreover have "sign_nil_vote_durable sample_bft wire_signing (\<lambda>_. Inr ()) sample_engine sample_key (nil_at 3 0 Prevote)
      = (sample_node nil_journal, Inr (sample_nil 0))"
    by (simp add: sign_nil_vote_durable_def sample_nil_vote)
  ultimately have run: "sample_signing_run ((\<lambda>_. sample_engine)(0 := sample_node nil_journal)) [(7, SignedNil (sample_nil 0))]"
    using signing_run.nil [OF _ refl, where voter = sample_key and ndata = "nil_at 3 0 Prevote"]
    by (fastforce simp: sample_nil_vote signed_by_def)
  obtain e where e: "reserve_vote sample_bft wire_signing (sample_node nil_journal) sample_key
      (sample_vote_data 1 1 Prevote) [] None = Inr (e, sample_signed Prevote 1 1 None)"
    using sample_vote_after_nil by blast
  show ?thesis
    using sample_step [OF run, of None "sample_vote_data 1 1 Prevote" e "sample_signed Prevote 1 1 None"] e
    by (auto simp: unlock_ok_def nil_history_def)
qed

text \<open>
  The run with a nil prevote in round 0 and a value prevote in round 1 exists and is ordered; no run
  signs a value prevote in round 0 after that nil prevote.
\<close>

theorem no_equivocation_witness:
  "(\<exists>\<sigma>. sample_signing_run \<sigma> nil_history)
     \<and> signed_position (snd (nil_history ! 0)) = Some (3, 0, Prevote, None)
     \<and> signed_position (snd (nil_history ! 1)) = Some (3, 1, Prevote, Some 1) \<and> (0 :: u32) \<le> 1
     \<and> \<not> (\<exists>\<sigma>. sample_signing_run \<sigma> [(7, SignedNil (sample_nil 0)), (7, SignedVote (sample_signed Prevote 1 0 None))])"
proof -
  obtain \<sigma> where run: "sample_signing_run \<sigma> nil_history" using nil_run by blast
  have nil: "signed_position (SignedNil (sample_nil 0)) = Some (3, 0, Prevote, None)"
    by (simp add: signed_position_def sample_nil_def)
  have vote: "signed_position (SignedVote (sample_signed Prevote 1 r None)) = Some (3, r, Prevote, Some 1)" for r
    by (simp add: signed_position_def)
  have "(0 :: u32) \<le> 1 \<and> ((0 :: u32) = 1 \<and> Prevote = Prevote \<longrightarrow> None = Some (1 :: hash))"
    by (rule no_equivocation [OF wire_journal.signing_borsh_axioms run, of 0 1 7, OF _ _ _ _ nil vote])
      (simp_all add: nil_history_def)
  moreover have False
    if "sample_signing_run \<sigma>' [(7, SignedNil (sample_nil 0)), (7, SignedVote (sample_signed Prevote 1 0 None))]" for \<sigma>'
    using no_equivocation [OF wire_journal.signing_borsh_axioms that, of 0 1 7, OF _ _ _ _ nil vote [of 0]] by simp
  ultimately show ?thesis using run nil vote by (auto simp: nil_history_def)
qed

text \<open>
  C31. Interrupted signing resumes. Along every run, once the journal has reserved a vote, the intent
  read back after a crash is the one reserved, and signing it again succeeds, leaves the journal as it
  is and yields the same vote with the same signatures, whatever the retention step then answers.
\<close>

theorem interrupted_signing_resumes:
  assumes "signing_borsh S" and "signing_run X S d params sets home \<sigma> H" and "unlock_ok unlock"
    and "reserve_vote X S (\<sigma> (home (pk_public_key voter))) voter data proofs unlock = Inr (e', v)"
  shows "(\<exists>w. load_vote_watermark X S e' voter (fd_chunk_id data) (fd_round data) = Inr w
      \<and> watermark_entry w (fd_phase data) = Some (value_intent voter data proofs unlock))
    \<and> sign_vote_durable X S retain e' voter data proofs unlock = (e', res_bind (retain v) (\<lambda>_. Inr v))"
proof -
  let ?e = "\<sigma> (home (pk_public_key voter))"
  have "\<exists>f. signing_finalized_floor ?e = Inr f \<and> f \<le> fd_chunk_id data"
    using assms(4) by (auto simp: reserve_vote_Inr ensure_signable_Inr)
  then have tracks: "journal_tracks S ?e (pk_public_key voter) (events_of (pk_public_key voter) H) (fd_chunk_id data)"
    using signing_borsh.run_invariant [OF assms(1,2)] by (auto simp: run_inv_def)
  note again = signing_borsh.reserve_vote_again [OF assms(1) tracks assms(4,3)]
  show ?thesis using again(2) by (simp add: sign_vote_durable_def again(1))
qed

theorem interrupted_signing_resumes_witness:
  "sign_vote_durable sample_bft wire_signing (\<lambda>_. Inr ()) (sample_node sample_journal_3) sample_key (sample_vote_data 2 1 Precommit) []
     (Some (sample_quorum 2 1)) =
     (sample_node sample_journal_3, Inr (sample_signed Precommit 2 1 (Some (sample_quorum 2 1))))"
  using interrupted_signing_resumes [OF wire_journal.signing_borsh_axioms sample_run sample_quorum_ok, where voter = sample_key
      and retain = "\<lambda>_. Inr ()"] sample_vote_3
  by simp

text \<open>
  C32. The lock-violation rule of the evidence guest reaches votes the journal permits. If a key
  that signs through the journal precommitted one candidate and later voted another in the same
  chunk without an unlock claim, which the journal permits once the lock has moved to that
  candidate, then the earlier precommit, the quorum it carried and the attestation of the later vote
  convict it of a lock violation.
\<close>

theorem superseded_lock_convicts:
  assumes "signing_borsh S" and "signing_run X S d params sets home \<sigma> H"
    and "m < length H" and "H ! m = (k, SignedVote u)" and "H ! n = (k, SignedVote v)"
    and "fd_phase (fv_data u) = Precommit" and "fd_chunk_id (fv_data u) = c" and "fd_chunk_id (fv_data v) = c"
    and "fd_chunk_hash (fv_data u) \<noteq> fd_chunk_hash (fv_data v)" and "fd_round (fv_data u) < fd_round (fv_data v)"
    and "vote_unlock v = None"
    and "verify_attestation X d (sets c) i (fv_data u) (hd (fv_attestations u)) = Inr ()"
    and "verify_attestation X d (sets c) i (fv_data v) (hd (fv_attestations v)) = Inr ()"
  shows "\<exists>l. vote_unlock u = Some l
    \<and> verify_lock_violation X d (sets c) i (attested_vote (hd (fv_attestations u))) (attested_vote (hd (fv_attestations v)))
        \<lparr>le_locked_prevote_quorum = l, le_attestation = hd (fv_attestations v)\<rparr> (prevote_fraction params) = Inr ()"
proof -
  have "vote_admissible X d params (sets c) (chunk_votes c (events_of k (take m H))) (chunk_nils c (events_of k (take m H))) u"
    by (rule lawful_vote [OF run_lawful [OF assms(1,2)] assms(3,4,7)])
  then obtain l where l: "vote_unlock u = Some l" "fd_round (qc_data l) = fd_round (fv_data u)"
      "verify_unlock X d (sets c) (fv_data u) l (prevote_fraction params) = Inr ()"
    using assms(6) by (auto simp: vote_admissible_def)
  note votes = attested_vote_verified [OF assms(12)] attested_vote_verified [OF assms(13)]
  have "verify_lock_violation X d (sets c) i (attested_vote (hd (fv_attestations u))) (attested_vote (hd (fv_attestations v)))
      \<lparr>le_locked_prevote_quorum = l, le_attestation = hd (fv_attestations v)\<rparr> (prevote_fraction params) = Inr ()"
    using l assms votes by (auto simp: verify_lock_violation_def verify_unlock_iff vote_unlock_def Let_def)
  with l(1) show ?thesis by blast
qed

lemma sample_attested:
  "verify_attestation sample_bft sample_domain [sample_seat] 0 (sample_vote_data h r phase)
     (hd (fv_attestations (sample_signed phase h r u))) = Inr ()"
  by (simp add: sample_signed_def sign_reserved_value_vote_def attest_vote_def Let_def verify_attestation_def
      verify_attestation_with_def nth_opt_def)
    (simp add: sample_bft_def)

definition relocked_history :: history where
  "relocked_history = sample_history
     @ [(7, SignedVote (sample_signed Precommit 2 1 (Some (sample_quorum 2 1)))), (7, SignedVote (sample_signed Prevote 2 2 None))]"

lemma relocked_run: "\<exists>\<sigma>. sample_signing_run \<sigma> relocked_history"
proof -
  have run: "sample_signing_run ((\<lambda>_. sample_engine)(0 := sample_node sample_journal_3))
      (sample_history @ [(7, SignedVote (sample_signed Precommit 2 1 (Some (sample_quorum 2 1))))])"
    using sample_step [OF sample_run, of "Some (sample_quorum 2 1)"] sample_vote_3 by (simp add: sample_quorum_ok)
  obtain e where e: "reserve_vote sample_bft wire_signing (sample_node sample_journal_3) sample_key
      (sample_vote_data 2 2 Prevote) [] None = Inr (e, sample_signed Prevote 2 2 None)"
    using sample_vote_4 by blast
  show ?thesis
    using sample_step [OF run, of None "sample_vote_data 2 2 Prevote" e "sample_signed Prevote 2 2 None"] e
    by (auto simp: unlock_ok_def relocked_history_def)
qed

theorem superseded_lock_convicts_witness:
  "verify_lock_violation sample_bft sample_domain [sample_seat] 0
     (attested_vote (hd (fv_attestations (sample_signed Precommit 1 0 (Some (sample_quorum 1 0))))))
     (attested_vote (hd (fv_attestations (sample_signed Prevote 2 2 None))))
     \<lparr>le_locked_prevote_quorum = sample_quorum 1 0, le_attestation = hd (fv_attestations (sample_signed Prevote 2 2 None))\<rparr>
     (prevote_fraction sample_params) = Inr ()"
proof -
  obtain \<sigma> where run: "sample_signing_run \<sigma> relocked_history" using relocked_run by blast
  show ?thesis
    using superseded_lock_convicts [OF wire_journal.signing_borsh_axioms run, of 1 7 "sample_signed Precommit 1 0 (Some (sample_quorum 1 0))"
        3 "sample_signed Prevote 2 2 None" 3 0]
    by (simp add: relocked_history_def sample_history_def sample_attested)
qed

end
