(* ===== verification/Spec2Isabelle.thy ===== *)
theory Spec2Isabelle
  imports Runtime_Properties Commitment_Properties Consensus_Properties Agreement_Properties
begin

text \<open>
  Neutrino is a proof-of-stake chain. Its default runtime
  (\<open>crates/runtimes/neutrino-default/core\<close>) is a deterministic state transition function over a
  key-value state, proven per block. Blocks are grouped in chunks; validators finalize a chunk by a
  two-phase vote with locks (\<open>crates/consensus-types\<close>, \<open>crates/prover-chunk\<close>), sign through a
  durable journal (\<open>crates/consensus-engine/src/signing.rs\<close>), and are slashed by the runtime for the
  offences a guest program convicts them of. The development models the runtime, the commitment
  structures it shares with consensus, the verifiers of certificates and evidence, and the journal.

  \<^bold>\<open>Common ground.\<close> \<open>Prelude\<close> has the Rust integers as words with checked and saturating
  arithmetic, results (an error or a value; a panic is an error that carries its message) and byte
  order. \<open>Sorted_Index\<close> has sorted vectors with binary search and the locale \<open>sorted_index\<close>, the
  contract of the three indexes of the runtime.

  \<^bold>\<open>Runtime.\<close>
  \<^item> \<open>Runtime_Types\<close>, \<open>Keys\<close>, \<open>Runtime_State\<close>, \<open>Ledger\<close>: the records and storage keys of \<open>state.rs\<close>
    with their typed accessors, and the totals the ledger properties speak of. The state is a map from
    byte keys to byte values; \<open>frame W s s'\<close> says that only keys of \<open>W\<close> changed.
  \<^item> \<open>Tx\<close>: transactions and signed payloads (\<open>tx.rs\<close>). \<open>Staking\<close>, \<open>Staking_Contract\<close>: the staking
    handlers (\<open>staking.rs\<close>) and the locale \<open>signed_handler\<close>, the contract every handler meets: who
    pays for a failure, what a success does to nonce and funds. \<open>Governance\<close>: proposals, votes and
    enactment (\<open>governance.rs\<close>), instances of the same contract.
  \<^item> \<open>Accountability\<close>, \<open>Accountability_Laws\<close>: admission of evidence, replay markers and their sweep,
    the mandatory queue and settlement (\<open>accountability.rs\<close>, \<open>accountability/settlement.rs\<close>).
  \<^item> \<open>Stf\<close>, \<open>Stf_Laws\<close>, \<open>Chain\<close>, \<open>Liveness\<close>: block execution and mempool admission (\<open>lib.rs\<close>), chains
    of blocks as an inductive relation, and progress. \<open>Stf_Laws\<close> also shows that a charged failure
    carries verified signatures.
  \<^item> \<open>Runtime_Properties\<close>: conservation of supply, the invariant \<open>chain_inv\<close> of the whole state, at
    most one slash per identity, no second execution, exact deductions, rewards, withdrawals and
    votes, gas and receipts, binding of signed payloads, and when an empty block runs.

  \<^bold>\<open>Commitments.\<close> \<open>Merkle\<close>, \<open>History\<close>, \<open>History_Openings\<close> have the in-place Merkle reduction
  (\<open>primitives/src/lib.rs\<close>), the streaming transaction commitment with its reused buffer
  (\<open>commitments.rs\<close>), counted openings (\<open>consensus-types/src/evidence.rs\<close>) and the append-only chunk
  history (\<open>consensus-types/src/history.rs\<close>). \<open>Commitment_Properties\<close> shows that the optimised
  routines equal the references, that built openings verify, and that what verifies is stored, up to
  collisions on the strings at hand. The table of empty history hashes is the recursion its comment
  gives.

  \<^bold>\<open>Consensus.\<close>
  \<^item> \<open>Consensus_Types\<close>, \<open>Finality\<close>, \<open>Quorums\<close>: votes, certificates, signing messages
    (\<open>consensus-types/src/lib.rs\<close>, \<open>bft.rs\<close>), their verification (\<open>prover-chunk/src/finality.rs\<close>,
    \<open>slashing.rs\<close>), and the intersection of stake quorums.
  \<^item> \<open>Evidence_Guest\<close>, \<open>Accountable_Safety\<close>: which signed statements convict whom
    (\<open>prover-chunk/src/history.rs\<close>), and that two conflicting certificates convict a third of the stake.
  \<^item> \<open>Chain_Spec\<close>, \<open>Vrf_Threshold\<close>: validation of the chain parameters, and the eligibility test of
    \<open>vrf/src/threshold.rs\<close>, which is exact.
  \<^item> \<open>Signing\<close>, \<open>Signing_Laws\<close>, \<open>Signing_Recovery\<close>: the journal's keys, watermarks, locks,
    reservations and expiry, what each operation keeps, and what a restart recovers.
  \<^item> \<open>Agreement\<close>: runs that interleave the signing operations of every node with crashes, expiry and
    rotation, as an inductive relation with the list of everything signed.
  \<^item> \<open>Consensus_Properties\<close>, \<open>Agreement_Properties\<close>: accountable safety, agreement, no equivocation
    between any two votes of a journaled key, recovery, and the reach of the lock-violation rule.

  \<^bold>\<open>What is assumed.\<close> borsh, BLAKE3, ed25519 and BLS are not part of the repository: they are the
  fields of the records \<open>externals\<close>, \<open>bft_externals\<close> and \<open>signing_codecs\<close>. The locales \<open>borsh\<close> and
  \<open>signing_borsh\<close> state the law used of the codecs, that decoding an encoding gives the encoded value.
  Freedom from collisions and unforgeability are hypotheses of the theorems that need them, limited to
  the values at hand. \<open>Codec_Instance\<close>, \<open>Sample_Chain\<close>, \<open>Sample_Consensus\<close> and \<open>Signing_Instance\<close>
  give concrete codecs that satisfy the laws and the concrete states and runs of the witnesses.

  \<^bold>\<open>Bounds.\<close> Nothing runs on fuel: every loop of the modelled code is a structural recursion or has a
  termination proof. Lengths that the code converts to a machine integer are compared with its range
  and panic as in the code.

  \<^bold>\<open>Not modelled.\<close> The state trie (its root is the parameter \<open>root\<close> of \<open>apply_block\<close>), the round state
  machine and pacemaker of the chunk vote, fork choice, the mempool's ordering, the engine's
  orchestration over its database and clocks, the session column of the signing store, validation of
  evidence batches and authentication of history witnesses, networking, storage, RPC, runtime hosts
  and provers. Reports of participation enter a block as its input has them.
\<close>

end
